(* ===== verification/Node_Prelude.thy ===== *)
theory Node_Prelude
  imports Main "HOL-Library.Word"
begin

text \<open>
  Shared vocabulary of the development: C programs as functions from a state to a
  result and a state (normal return, \<open>exit\<close>, undefined behaviour), the pieces of the
  C library the sources use (\<^verbatim>\<open>strncmp\<close>, \<^verbatim>\<open>argv\<close> access, \<^verbatim>\<open>%d\<close>, \<^verbatim>\<open>atoi\<close>, the exit status
  byte), and generic lemmas about them.
\<close>

named_theorems prog_simps \<open>equations that run a C program symbolically\<close>

section \<open>Results of C code\<close>

text \<open>
  \<open>Ret\<close>: the function returned; \<open>Exit\<close>: the process called \<open>exit(code)\<close>; \<open>Crash\<close>: the
  code reached undefined behaviour of the given kind.
\<close>

datatype ub = NullDeref | OutOfBounds | DoubleFree | Uninit | BadCall

datatype 'a res = Ret 'a | Exit int | Crash ub

type_synonym ('s, 'a) prog = "'s \<Rightarrow> 'a res \<times> 's"

definition ret :: "'a \<Rightarrow> ('s, 'a) prog" where
  "ret a = (\<lambda>s. (Ret a, s))"

definition exit_with :: "int \<Rightarrow> ('s, 'a) prog" where
  "exit_with c = (\<lambda>s. (Exit c, s))"

definition crash :: "ub \<Rightarrow> ('s, 'a) prog" where
  "crash u = (\<lambda>s. (Crash u, s))"

definition bnd :: "('s, 'a) prog \<Rightarrow> ('a \<Rightarrow> ('s, 'b) prog) \<Rightarrow> ('s, 'b) prog" where
  "bnd m k = (\<lambda>s. case m s of
      (Ret a, t) \<Rightarrow> k a t
    | (Exit c, t) \<Rightarrow> (Exit c, t)
    | (Crash u, t) \<Rightarrow> (Crash u, t))"

definition seq :: "('s, unit) prog \<Rightarrow> ('s, 'b) prog \<Rightarrow> ('s, 'b) prog" where
  "seq m k = bnd m (\<lambda>_. k)"

definition get_state :: "('s \<Rightarrow> 'a) \<Rightarrow> ('s, 'a) prog" where
  "get_state f = (\<lambda>s. (Ret (f s), s))"

definition modify :: "('s \<Rightarrow> 's) \<Rightarrow> ('s, unit) prog" where
  "modify f = (\<lambda>s. (Ret (), f s))"

fun is_crash :: "'a res \<Rightarrow> bool" where
  "is_crash (Crash _) = True"
| "is_crash _ = False"

lemmas prog_defs = ret_def exit_with_def crash_def seq_def get_state_def modify_def

lemma ret_app [prog_simps]: "ret a s = (Ret a, s)"
  and exit_app [prog_simps]: "exit_with c s = (Exit c, s)"
  and crash_app [prog_simps]: "crash u s = (Crash u, s)"
  and get_state_app [prog_simps]: "get_state f s = (Ret (f s), s)"
  and modify_app [prog_simps]: "modify g s = (Ret (), g s)"
  by (simp_all add: prog_defs)

lemma bnd_app [prog_simps]:
  "bnd m k s = (case m s of (Ret a, t) \<Rightarrow> k a t | (Exit c, t) \<Rightarrow> (Exit c, t)
     | (Crash u, t) \<Rightarrow> (Crash u, t))"
  by (simp add: bnd_def)

lemma seq_app [prog_simps]:
  "seq m k s = (case m s of (Ret a, t) \<Rightarrow> k t | (Exit c, t) \<Rightarrow> (Exit c, t)
     | (Crash u, t) \<Rightarrow> (Crash u, t))"
  by (simp add: seq_def bnd_def)

lemma if_prog_app [prog_simps]: "(if b then p else q) s = (if b then p s else q s)"
  by simp

text \<open>The monad laws, so that sequences of calls can be regrouped.\<close>

lemma bnd_ret_left: "bnd (ret a) k = k a"
  by (rule ext) (simp add: prog_simps)

lemma bnd_ret_right: "bnd m ret = m"
  by (rule ext) (simp add: prog_simps split: prod.split res.split)

lemma bnd_assoc: "bnd (bnd m k) l = bnd m (\<lambda>x. bnd (k x) l)"
  by (rule ext) (simp add: prog_simps split: prod.split res.split)

section \<open>State predicates kept by a program\<close>

text \<open>
  \<open>keeps R m\<close>: every run of \<open>m\<close> relates its start and end state by \<open>R\<close>. For a reflexive and
  transitive \<open>R\<close> (a log that only grows, a field nobody writes) this composes.
\<close>

definition keeps :: "('s \<Rightarrow> 's \<Rightarrow> bool) \<Rightarrow> ('s, 'a) prog \<Rightarrow> bool" where
  "keeps R m \<longleftrightarrow> (\<forall>s. R s (snd (m s)))"

locale state_preorder =
  fixes R :: "'s \<Rightarrow> 's \<Rightarrow> bool"
  assumes R_refl: "R s s"
    and R_trans: "R s t \<Longrightarrow> R t u \<Longrightarrow> R s u"
begin

lemma keeps_ret: "keeps R (ret a)"
  and keeps_exit: "keeps R (exit_with c)"
  and keeps_crash: "keeps R (crash u)"
  and keeps_get: "keeps R (get_state f)"
  by (simp_all add: keeps_def prog_simps R_refl)

lemma keeps_bnd:
  assumes "keeps R m" and "\<And>a. keeps R (k a)"
  shows "keeps R (bnd m k)"
  unfolding keeps_def
proof
  fix s
  obtain r t where m: "m s = (r, t)" by fastforce
  with assms(1) have st: "R s t" unfolding keeps_def by (metis snd_conv)
  show "R s (snd (bnd m k s))"
  proof (cases r)
    case (Ret a)
    have "R t (snd (k a t))" using assms(2) by (simp add: keeps_def)
    with st m Ret show ?thesis by (auto simp: prog_simps intro: R_trans)
  qed (use st m in \<open>simp_all add: prog_simps\<close>)
qed

lemma keeps_seq: "keeps R m \<Longrightarrow> keeps R k \<Longrightarrow> keeps R (seq m k)"
  by (simp add: seq_def keeps_bnd)

lemma seq_at:
  assumes "R s (snd (m s))" and "\<And>t. m s = (Ret (), t) \<Longrightarrow> R t (snd (k t))"
  shows "R s (snd (seq m k s))"
  using assms by (cases "m s"; cases "fst (m s)") (auto simp: prog_simps intro: R_trans)

lemma keeps_if: "keeps R p \<Longrightarrow> keeps R q \<Longrightarrow> keeps R (if b then p else q)"
  by simp

lemma keeps_let: "(\<And>x. keeps R (f x)) \<Longrightarrow> keeps R (Let v f)"
  by (simp add: Let_def)

lemma keeps_option:
  "keeps R p \<Longrightarrow> (\<And>x. keeps R (f x)) \<Longrightarrow> keeps R (case v of None \<Rightarrow> p | Some x \<Rightarrow> f x)"
  by (simp split: option.split)

lemma keeps_list:
  "keeps R p \<Longrightarrow> (\<And>x xs. keeps R (f x xs)) \<Longrightarrow> keeps R (case v of [] \<Rightarrow> p | x # xs \<Rightarrow> f x xs)"
  by (simp split: list.split)

lemma keeps_prod: "(\<And>x y. keeps R (f x y)) \<Longrightarrow> keeps R (case v of (x, y) \<Rightarrow> f x y)"
  by (simp split: prod.split)

lemmas keeps_rules = keeps_ret keeps_exit keeps_crash keeps_get keeps_bnd keeps_seq keeps_if
  keeps_let keeps_option keeps_list keeps_prod

end

section \<open>Exit codes and absence of undefined behaviour\<close>

text \<open>
  \<open>exits E m\<close>: when \<open>m\<close> ends the process, it is with a code of \<open>E\<close>. \<open>safe m\<close>: no run of \<open>m\<close>
  reaches undefined behaviour. Both follow the structure of a program.
\<close>

definition exits :: "int set \<Rightarrow> ('s, 'a) prog \<Rightarrow> bool" where
  "exits E m \<longleftrightarrow> (\<forall>s e t. m s = (Exit e, t) \<longrightarrow> e \<in> E)"

definition safe :: "('s, 'a) prog \<Rightarrow> bool" where
  "safe m \<longleftrightarrow> (\<forall>s. \<not> is_crash (fst (m s)))"

lemma exits_ret: "exits E (ret a)"
  and exits_crash: "exits E (crash u)"
  and exits_get: "exits E (get_state f)"
  and exits_modify: "exits E (modify g)"
  by (simp_all add: exits_def prog_simps)

lemma exits_exit: "e \<in> E \<Longrightarrow> exits E (exit_with e)"
  by (simp add: exits_def prog_simps)

lemma exits_bnd: "exits E m \<Longrightarrow> (\<And>a. exits E (k a)) \<Longrightarrow> exits E (bnd m k)"
  unfolding exits_def by (auto simp: prog_simps split: prod.splits res.splits)

lemma exits_seq: "exits E m \<Longrightarrow> exits E k \<Longrightarrow> exits E (seq m k)"
  by (simp add: seq_def exits_bnd)

lemma exits_if: "(b \<Longrightarrow> exits E p) \<Longrightarrow> (\<not> b \<Longrightarrow> exits E q) \<Longrightarrow> exits E (if b then p else q)"
  by simp

lemma exits_let: "(\<And>x. exits E (f x)) \<Longrightarrow> exits E (Let v f)"
  by (simp add: Let_def)

lemma exits_option:
  "exits E p \<Longrightarrow> (\<And>x. exits E (f x)) \<Longrightarrow> exits E (case v of None \<Rightarrow> p | Some x \<Rightarrow> f x)"
  by (simp split: option.split)

lemma exits_list:
  "exits E p \<Longrightarrow> (\<And>x xs. exits E (f x xs)) \<Longrightarrow> exits E (case v of [] \<Rightarrow> p | x # xs \<Rightarrow> f x xs)"
  by (simp split: list.split)

lemma exits_prod: "(\<And>x y. exits E (f x y)) \<Longrightarrow> exits E (case v of (x, y) \<Rightarrow> f x y)"
  by (simp split: prod.split)

lemmas exits_rules = exits_ret exits_crash exits_get exits_modify exits_exit exits_bnd exits_seq exits_if
  exits_let exits_option exits_list exits_prod

lemma safe_ret: "safe (ret a)"
  and safe_exit: "safe (exit_with e)"
  and safe_get: "safe (get_state f)"
  and safe_modify: "safe (modify g)"
  by (simp_all add: safe_def prog_simps)

lemma safe_bnd:
  assumes "safe m" and "\<And>a. safe (k a)"
  shows "safe (bnd m k)"
  unfolding safe_def
proof
  fix s
  obtain r t where "m s = (r, t)" by fastforce
  moreover from this assms(1) have "\<not> is_crash r" unfolding safe_def by (metis fst_conv)
  ultimately show "\<not> is_crash (fst (bnd m k s))"
    using assms(2) by (cases r) (auto simp: prog_simps safe_def)
qed

lemma safe_seq: "safe m \<Longrightarrow> safe k \<Longrightarrow> safe (seq m k)"
  by (simp add: seq_def safe_bnd)

lemma safe_if: "(b \<Longrightarrow> safe p) \<Longrightarrow> (\<not> b \<Longrightarrow> safe q) \<Longrightarrow> safe (if b then p else q)"
  by simp

lemma safe_let: "(\<And>x. safe (f x)) \<Longrightarrow> safe (Let v f)"
  by (simp add: Let_def)

lemma safe_option: "safe p \<Longrightarrow> (\<And>x. safe (f x)) \<Longrightarrow> safe (case v of None \<Rightarrow> p | Some x \<Rightarrow> f x)"
  by (simp split: option.split)

lemma safe_list:
  "safe p \<Longrightarrow> (\<And>x xs. safe (f x xs)) \<Longrightarrow> safe (case v of [] \<Rightarrow> p | x # xs \<Rightarrow> f x xs)"
  by (simp split: list.split)

lemma safe_prod: "(\<And>x y. safe (f x y)) \<Longrightarrow> safe (case v of (x, y) \<Rightarrow> f x y)"
  by (simp split: prod.split)

lemmas safe_rules = safe_ret safe_exit safe_get safe_modify safe_bnd safe_seq safe_if safe_let safe_option
  safe_list safe_prod

section \<open>The C library the sources use\<close>

subsection \<open>Exit status\<close>

text \<open>
  The status a parent process sees is the low byte of what \<open>main\<close> returns or \<open>exit\<close> is
  given.
\<close>

definition exit_status :: "int \<Rightarrow> 8 word" where
  "exit_status c = word_of_int c"

lemma exit_status_0_iff: "exit_status c = 0 \<longleftrightarrow> c mod 256 = 0"
proof -
  have "exit_status c = 0 \<longleftrightarrow> uint (word_of_int c :: 8 word) = 0"
    by (simp add: exit_status_def uint_0_iff)
  then show ?thesis by (simp add: uint_word_of_int)
qed

subsection \<open>Strings and \<open>argv\<close>\<close>

text \<open>
  A C string is its characters before the terminating NUL. \<open>strncmp_0 a b n\<close> is
  \<open>strncmp(a, b, n) == 0\<close>: at most \<open>n\<close> characters are compared and the comparison stops at
  a common NUL.
\<close>

fun strncmp_0 :: "string \<Rightarrow> string \<Rightarrow> nat \<Rightarrow> bool" where
  "strncmp_0 a b 0 = True"
| "strncmp_0 [] [] (Suc n) = True"
| "strncmp_0 [] (y # ys) (Suc n) = False"
| "strncmp_0 (x # xs) [] (Suc n) = False"
| "strncmp_0 (x # xs) (y # ys) (Suc n) = (x = y \<and> strncmp_0 xs ys n)"

lemma strncmp_0_full: "strncmp_0 a b (Suc (length b)) \<longleftrightarrow> a = b"
  by (induction a b "Suc (length b)" arbitrary: rule: strncmp_0.induct) auto

text \<open>
  \<open>argv\<close> is the list of arguments, so \<open>argc\<close> is its length and \<open>argv[argc]\<close> is the NULL
  pointer. \<open>arg_opt\<close> reads an element as a pointer (\<open>None\<close> for NULL), \<open>arg\<close> reads it as a
  string that is dereferenced at once; beyond NULL both are out of bounds.
\<close>

type_synonym argv = "string list"

definition arg_opt :: "argv \<Rightarrow> nat \<Rightarrow> ('s, string option) prog" where
  "arg_opt av i =
     (if i < length av then ret (Some (av ! i))
      else if i = length av then ret None else crash OutOfBounds)"

definition arg :: "argv \<Rightarrow> nat \<Rightarrow> ('s, string) prog" where
  "arg av i = (if i < length av then ret (av ! i)
      else if i = length av then crash NullDeref else crash OutOfBounds)"

lemma arg_app [prog_simps]:
  "arg av i s = (if i < length av then (Ret (av ! i), s)
     else if i = length av then (Crash NullDeref, s) else (Crash OutOfBounds, s))"
  by (simp add: arg_def prog_simps)

lemma arg_opt_app [prog_simps]:
  "arg_opt av i s = (if i < length av then (Ret (Some (av ! i)), s)
     else if i = length av then (Ret None, s) else (Crash OutOfBounds, s))"
  by (simp add: arg_opt_def prog_simps)

lemma exits_arg: "exits E (arg av i)"
  and exits_arg_opt: "exits E (arg_opt av i)"
  by (simp_all add: exits_def prog_simps)

lemma safe_arg: "i < length av \<Longrightarrow> safe (arg av i)"
  and safe_arg_opt: "i \<le> length av \<Longrightarrow> safe (arg_opt av i)"
  by (simp_all add: safe_def prog_simps)

subsection \<open>Decimal numbers\<close>

definition digit_char :: "nat \<Rightarrow> char" where
  "digit_char d = char_of (48 + d)"

definition is_digit :: "char \<Rightarrow> bool" where
  "is_digit c \<longleftrightarrow> 48 \<le> (of_char c :: nat) \<and> (of_char c :: nat) \<le> 57"

definition digit_val :: "char \<Rightarrow> nat" where
  "digit_val c = of_char c - 48"

fun show_nat :: "nat \<Rightarrow> string" where
  "show_nat n = (if n < 10 then [digit_char n] else show_nat (n div 10) @ [digit_char (n mod 10)])"

declare show_nat.simps [simp del]

definition show_int :: "int \<Rightarrow> string" where
  "show_int i = (if i < 0 then CHR ''-'' # show_nat (nat (- i)) else show_nat (nat i))"

text \<open>\<open>isspace\<close> in the C locale.\<close>

definition is_space :: "char \<Rightarrow> bool" where
  "is_space c \<longleftrightarrow> (of_char c :: nat) \<in> {9, 10, 11, 12, 13, 32}"

fun read_digits :: "nat \<Rightarrow> string \<Rightarrow> nat" where
  "read_digits acc [] = acc"
| "read_digits acc (c # cs) = (if is_digit c then read_digits (10 * acc + digit_val c) cs else acc)"

definition strip_sign :: "string \<Rightarrow> bool \<times> string" where
  "strip_sign s = (case s of
      [] \<Rightarrow> (False, [])
    | c # cs \<Rightarrow> if c = CHR ''-'' then (True, cs) else if c = CHR ''+'' then (False, cs) else (False, s))"

text \<open>\<open>atoi\<close>: leading white space, an optional sign, then the longest run of digits.\<close>

definition atoi :: "string \<Rightarrow> int" where
  "atoi s = (let (neg, ds) = strip_sign (dropWhile is_space s); v = int (read_digits 0 ds)
     in if neg then - v else v)"

text \<open>
  \<open>strtoul(s, NULL, 10)\<close> and \<open>strtoull\<close> on a 64-bit target: the same prefix as \<open>atoi\<close>, saturated at
  the largest value; a minus sign negates the result in the unsigned type.
\<close>

definition strtoul :: "string \<Rightarrow> 64 word" where
  "strtoul s = (let (neg, ds) = strip_sign (dropWhile is_space s); v = read_digits 0 ds
     in if 2 ^ 64 \<le> v then - 1 else if neg then - of_nat v else of_nat v)"

lemma digit_char_props:
  assumes "d < 10"
  shows "is_digit (digit_char d)" and "digit_val (digit_char d) = d"
  using assms by (simp_all add: is_digit_def digit_char_def digit_val_def)

lemma show_nat_digits: "\<forall>c \<in> set (show_nat n). is_digit c"
proof (induction n rule: show_nat.induct)
  case (1 n)
  show ?case
  proof (cases "n < 10")
    case True
    then show ?thesis by (subst show_nat.simps) (simp add: digit_char_props)
  next
    case False
    with 1 show ?thesis by (subst show_nat.simps) (auto simp: digit_char_props)
  qed
qed

lemma show_nat_nonempty: "show_nat n \<noteq> []"
  by (subst show_nat.simps) simp

lemma read_digits_append:
  "\<forall>c \<in> set xs. is_digit c \<Longrightarrow> read_digits acc (xs @ ys) = read_digits (read_digits acc xs) ys"
  by (induction xs arbitrary: acc) auto

lemma read_show_nat: "read_digits 0 (show_nat n) = n"
proof (induction n rule: show_nat.induct)
  case (1 n)
  show ?case
  proof (cases "n < 10")
    case True
    then show ?thesis by (subst show_nat.simps) (simp add: digit_char_props)
  next
    case False
    with 1 have IH: "read_digits 0 (show_nat (n div 10)) = n div 10" by simp
    from False have "read_digits 0 (show_nat n)
        = read_digits (read_digits 0 (show_nat (n div 10))) [digit_char (n mod 10)]"
      by (subst show_nat.simps) (simp add: read_digits_append show_nat_digits)
    with IH show ?thesis by (simp add: digit_char_props)
  qed
qed

section \<open>Results of C++ code\<close>

text \<open>The configuration tool is C++: a function returns a value, throws an exception with a message, or is undefined.\<close>

datatype 'a cxx = Val 'a | Throws string | Undef ub

definition cbind :: "'a cxx \<Rightarrow> ('a \<Rightarrow> 'b cxx) \<Rightarrow> 'b cxx" where
  "cbind m k = (case m of Val a \<Rightarrow> k a | Throws e \<Rightarrow> Throws e | Undef u \<Rightarrow> Undef u)"

lemma cbind_simps [simp]:
  "cbind (Val a) k = k a" "cbind (Throws e) k = Throws e" "cbind (Undef u) k = Undef u"
  by (simp_all add: cbind_def)

lemma cbind_Val: "cbind m k = Val b \<longleftrightarrow> (\<exists>a. m = Val a \<and> k a = Val b)"
  by (cases m) auto

end
