(* ===== verification/Tool_Sdk.thy ===== *)
theory Tool_Sdk
  imports Node_Prelude
begin

text \<open>
  What \<^verbatim>\<open>sources/main_node_tool.c\<close> calls outside the repository: the DAP SDK and the
  operating system. Their code is not part of the repository, so every function is a field
  of the record \<open>tool_sdk\<close>, an argument of the handlers. A function whose answer may
  depend on what happened before takes the history of the run; the run's own effects are
  recorded in \<open>trace\<close>, one event per print and per call that changes or reads external state.
\<close>

section \<open>Data of the SDK that the tool looks into\<close>

type_synonym bytes = "8 word list"

text \<open>The fields of \<^verbatim>\<open>dap_enc_key_t\<close> and \<^verbatim>\<open>dap_cert_t\<close> that the tool reads or writes.\<close>

record enc_key =
  key_type :: nat
  pub_key_data :: "bytes option"
  pub_key_data_size :: nat
  priv_key_data :: "bytes option"
  priv_key_data_size :: nat

record cert =
  cert_name :: string
  cert_key :: enc_key

text \<open>An open \<^verbatim>\<open>dap_chain_wallet_t *\<close> is an opaque handle.\<close>

type_synonym wallet = nat

section \<open>Events\<close>

datatype call =
    CommonInit string
  | ConfigInit string
  | ConfigOpen string
  | ConfigClose
  | LogLevelSet string
  | WalletCreate string string nat "string option"
  | WalletCreateSeed string string nat string nat "string option"
  | WalletCreateMulti string string "nat list" nat "string option" nat "string option"
  | WalletOpen string string "string option"
  | WalletOpenFile string string
  | CertGenerate string nat
  | CertGenerateSeed string nat string nat
  | CertAdd cert
  | CertAddFile string string
  | CertFind string
  | CertSave cert string
  | CertDeleteFile string string
  | CertDeleteByName string
  | CertDelete cert
  | CertAddMeta string string int "string option" "64 word"
  | CertAddMetaScalar string string int "64 word" "64 word"
  | Fopen string string
  | Fwrite string bytes
  | Fclose string

datatype event = Print string | Called call

type_synonym hist = "event list"

section \<open>The SDK as a parameter\<close>

record base_sdk =
  MAX_PATH :: nat
  dap_strcmp :: "string \<Rightarrow> string \<Rightarrow> int"
  dap_get_appname :: string
  regGetUsrPath :: string
  dap_dir_test :: "hist \<Rightarrow> string \<Rightarrow> bool"
  dap_file_test :: "hist \<Rightarrow> string \<Rightarrow> bool"
  access_F_OK :: "hist \<Rightarrow> string \<Rightarrow> bool"
  fopen_ok :: "hist \<Rightarrow> string \<Rightarrow> string \<Rightarrow> bool"
  dap_common_init :: "hist \<Rightarrow> string \<Rightarrow> int"
  dap_config_init :: "hist \<Rightarrow> string \<Rightarrow> int"
  dap_config_open :: "hist \<Rightarrow> string \<Rightarrow> bool"
  dap_config_get_item_str_path_default :: "hist \<Rightarrow> string \<Rightarrow> string \<Rightarrow> string \<Rightarrow> string"
  dap_strncpy :: "string \<Rightarrow> nat \<Rightarrow> string \<times> nat"
  dap_strsplit :: "string \<Rightarrow> string \<Rightarrow> nat \<Rightarrow> string list"

record wallet_sdk = base_sdk +
  SIG_TYPE_NULL :: nat
  SIG_TYPE_MULTI_CHAINED :: nat
  MAX_ENC_KEYS_IN_MULTYSIGN :: nat
  dap_sign_type_from_str :: "string option \<Rightarrow> nat"
  dap_sign_type_is_deprecated :: "nat \<Rightarrow> bool"
  dap_sign_get_str_recommended_types :: string
  dap_isstralnum :: "string \<Rightarrow> bool"
  dap_check_valid_password :: "string \<Rightarrow> nat \<Rightarrow> bool"
  dap_chain_wallet_get_path :: "hist \<Rightarrow> string"
  dap_chain_wallet_create :: "hist \<Rightarrow> string \<Rightarrow> string \<Rightarrow> nat \<Rightarrow> string option \<Rightarrow> wallet option"
  dap_chain_wallet_create_with_seed ::
    "hist \<Rightarrow> string \<Rightarrow> string \<Rightarrow> nat \<Rightarrow> string \<Rightarrow> string option \<Rightarrow> wallet option"
  dap_chain_wallet_create_with_seed_multi ::
    "hist \<Rightarrow> string \<Rightarrow> string \<Rightarrow> nat list \<Rightarrow> string option \<Rightarrow> string option \<Rightarrow> wallet option"
  dap_chain_wallet_open :: "hist \<Rightarrow> string \<Rightarrow> string \<Rightarrow> string option \<Rightarrow> wallet option"
  dap_chain_wallet_open_file :: "hist \<Rightarrow> string \<Rightarrow> string \<Rightarrow> wallet option"
  dap_chain_wallet_get_certs_number :: "hist \<Rightarrow> wallet \<Rightarrow> nat"
  dap_chain_wallet_get_pkey_hash :: "hist \<Rightarrow> wallet \<Rightarrow> int \<times> bytes"
  dap_chain_wallet_get_pkey_str :: "hist \<Rightarrow> wallet \<Rightarrow> string"
  dap_chain_hash_fast_to_str_static :: "bytes \<Rightarrow> string"

record tool_sdk = wallet_sdk +
  c_error_memory_alloc :: string
  DAP_ENC_KEY_TYPE_INVALID :: nat
  DAP_CERT_META_STRING :: int
  DAP_CERT_META_SIGN :: int
  DAP_CERT_META_CUSTOM :: int
  dap_sign_type_to_key_type :: "nat \<Rightarrow> nat"
  dap_cert_get_str_recommended_sign :: string
  dap_cert_generate_mem :: "hist \<Rightarrow> string \<Rightarrow> nat \<Rightarrow> cert option"
  dap_cert_generate_mem_with_seed :: "hist \<Rightarrow> string \<Rightarrow> nat \<Rightarrow> string \<Rightarrow> cert option"
  dap_cert_add :: "hist \<Rightarrow> cert \<Rightarrow> int"
  dap_cert_add_file :: "hist \<Rightarrow> string \<Rightarrow> string \<Rightarrow> cert option"
  dap_cert_find_by_name :: "hist \<Rightarrow> string \<Rightarrow> cert option"
  dap_cert_save_to_folder :: "hist \<Rightarrow> cert \<Rightarrow> string \<Rightarrow> int"
  dap_cert_delete_file :: "hist \<Rightarrow> string \<Rightarrow> string \<Rightarrow> int"
  dap_cert_dump :: "hist \<Rightarrow> cert \<Rightarrow> string"
  dap_cert_new :: "hist \<Rightarrow> string \<Rightarrow> cert"
  dap_enc_key_new :: "hist \<Rightarrow> nat \<Rightarrow> enc_key option"
  DAP_DUP_SIZE :: "hist \<Rightarrow> bytes \<Rightarrow> nat \<Rightarrow> bytes option"
  dap_enc_ser_pub_key_size :: "enc_key \<Rightarrow> nat"
  dap_pkey_from_enc_key :: "hist \<Rightarrow> enc_key \<Rightarrow> bytes option"
  dap_cert_get_pkey_hash :: "hist \<Rightarrow> cert \<Rightarrow> int \<times> bytes"
  dap_cert_get_pkey_str :: "hist \<Rightarrow> cert \<Rightarrow> string"
  dap_stream_node_addr_from_cert :: "hist \<Rightarrow> cert \<Rightarrow> nat"
  dap_stream_node_addr_to_str_static :: "nat \<Rightarrow> string"

text \<open>
  What the code relies on: \<^verbatim>\<open>dap_strcmp\<close> answers zero on equal strings only, and the special
  signature types are different values.
\<close>

definition strcmp_ok :: "'z base_sdk_scheme \<Rightarrow> bool" where
  "strcmp_ok d \<longleftrightarrow> (\<forall>a b. dap_strcmp d a b = 0 \<longleftrightarrow> a = b)"

section \<open>State of the tool\<close>

text \<open>The file-level variables of \<^verbatim>\<open>main_node_tool.c\<close>, and the trace of the run.\<close>

record tool_state =
  trace :: hist
  g_sys_dir_path :: "string option"
  s_system_ca_dir :: string
  s_system_wallet_dir :: string

type_synonym 'a tool = "(tool_state, 'a) prog"

definition print :: "string \<Rightarrow> unit tool" where
  "print m = modify (\<lambda>s. s\<lparr>trace := trace s @ [Print m]\<rparr>)"

definition call :: "call \<Rightarrow> (hist \<Rightarrow> 'a) \<Rightarrow> 'a tool" where
  "call c f = (\<lambda>s. (Ret (f (trace s)), s\<lparr>trace := trace s @ [Called c]\<rparr>))"

definition perform :: "call \<Rightarrow> unit tool" where
  "perform c = call c (\<lambda>_. ())"

definition query :: "(hist \<Rightarrow> 'a) \<Rightarrow> 'a tool" where
  "query f = get_state (\<lambda>s. f (trace s))"

definition die :: "string \<Rightarrow> int \<Rightarrow> 'a tool" where
  "die m c = seq (print m) (exit_with c)"

lemma print_app [prog_simps]: "print m s = (Ret (), s\<lparr>trace := trace s @ [Print m]\<rparr>)"
  and call_app [prog_simps]: "call c f s = (Ret (f (trace s)), s\<lparr>trace := trace s @ [Called c]\<rparr>)"
  and perform_app [prog_simps]: "perform c s = (Ret (), s\<lparr>trace := trace s @ [Called c]\<rparr>)"
  and query_app [prog_simps]: "query g s = (Ret (g (trace s)), s)"
  and die_app [prog_simps]: "die m e s = (Exit e, s\<lparr>trace := trace s @ [Print m]\<rparr>)"
  by (simp_all add: print_def call_def perform_def query_def die_def prog_simps)

section \<open>What every handler keeps\<close>

text \<open>
  \<open>grows s t\<close>: the trace was only extended and the directories set by \<open>s_init\<close> are
  unchanged. Every handler satisfies it, so the trace of a run is the whole story.
\<close>

definition grows :: "tool_state \<Rightarrow> tool_state \<Rightarrow> bool" where
  "grows s t \<longleftrightarrow> (\<exists>es. trace t = trace s @ es) \<and> s_system_ca_dir t = s_system_ca_dir s
     \<and> s_system_wallet_dir t = s_system_wallet_dir s \<and> g_sys_dir_path t = g_sys_dir_path s"

interpretation growth: state_preorder grows
  by unfold_locales (auto simp: grows_def)

lemma grows_print: "keeps grows (print m)"
  and grows_call: "keeps grows (call c f)"
  and grows_perform: "keeps grows (perform c)"
  and grows_query: "keeps grows (query g)"
  and grows_die: "keeps grows (die m e)"
  by (simp_all add: keeps_def grows_def prog_simps)

lemma grows_arg: "keeps grows (arg av i)"
  and grows_arg_opt: "keeps grows (arg_opt av i)"
  by (simp_all add: keeps_def grows_def prog_simps)

lemmas grows_rules = growth.keeps_rules grows_print grows_call grows_perform grows_query grows_die
  grows_arg grows_arg_opt

lemma exits_print: "exits E (print m)"
  and exits_call: "exits E (call c f)"
  and exits_perform: "exits E (perform c)"
  and exits_query: "exits E (query g)"
  by (simp_all add: exits_def prog_simps)

lemma exits_die: "e \<in> E \<Longrightarrow> exits E (die m e)"
  by (simp add: exits_def prog_simps)

lemma safe_print: "safe (print m)"
  and safe_call: "safe (call c f)"
  and safe_perform: "safe (perform c)"
  and safe_query: "safe (query g)"
  and safe_die: "safe (die m e)"
  by (simp_all add: safe_def prog_simps)

lemmas tool_exits = exits_rules exits_print exits_call exits_perform exits_query exits_die
  exits_arg exits_arg_opt

lemmas tool_safe = safe_rules safe_print safe_call safe_perform safe_query safe_die safe_arg safe_arg_opt

section \<open>A sample SDK\<close>

text \<open>
  A concrete instance of the parameters, on which the hypotheses of the properties hold:
  three known signature types (type 2 is deprecated, 3 is the multi-signature), one
  certificate \<open>root\<close> with both keys, no files in the way.
\<close>

definition sample_alnum :: "string \<Rightarrow> bool" where
  "sample_alnum s \<longleftrightarrow> s \<noteq> [] \<and> list_all (\<lambda>c. is_digit c
     \<or> 65 \<le> (of_char c :: nat) \<and> (of_char c :: nat) \<le> 90 \<or> 97 \<le> (of_char c :: nat) \<and> (of_char c :: nat) \<le> 122) s"

definition sample_key :: enc_key where
  "sample_key = \<lparr>key_type = 1, pub_key_data = Some [1, 2, 3], pub_key_data_size = 3,
     priv_key_data = Some [9, 9], priv_key_data_size = 2\<rparr>"

definition sample_type :: "string option \<Rightarrow> nat" where
  "sample_type a = (if a = Some ''sig_dil'' then 1 else if a = Some ''sig_picnic'' then 2
     else if a = Some ''sig_multi_chained'' then 3 else 0)"

definition sample_sdk :: tool_sdk where
  "sample_sdk =
   \<lparr>MAX_PATH = 4096, dap_strcmp = (\<lambda>a b. if a = b then 0 else 1),
    dap_get_appname = ''cellframe-node'', regGetUsrPath = ''C:'',
    dap_dir_test = (\<lambda>h p. True), dap_file_test = (\<lambda>h p. False), access_F_OK = (\<lambda>h p. False),
    fopen_ok = (\<lambda>h p m. True), dap_common_init = (\<lambda>h n. 0), dap_config_init = (\<lambda>h p. 0),
    dap_config_open = (\<lambda>h n. True),
    dap_config_get_item_str_path_default = (\<lambda>h g k v. ''/opt/'' @ k),
    dap_strncpy = (\<lambda>s n. (take (n - 1) s, length (take (n - 1) s))),
    dap_strsplit = (\<lambda>s sep n. [''key'', ''1'', ''5'', ''value'']),
    SIG_TYPE_NULL = 0, SIG_TYPE_MULTI_CHAINED = 3, MAX_ENC_KEYS_IN_MULTYSIGN = 2,
    dap_sign_type_from_str = sample_type,
    dap_sign_type_is_deprecated = (\<lambda>t. t = 2), dap_sign_get_str_recommended_types = ''sig_dil'',
    dap_isstralnum = sample_alnum, dap_check_valid_password = (\<lambda>p n. CHR '' '' \<notin> set p),
    dap_chain_wallet_get_path = (\<lambda>h. ''/opt/wallets''),
    dap_chain_wallet_create = (\<lambda>h n dir t p. Some 1),
    dap_chain_wallet_create_with_seed = (\<lambda>h n dir t v p. Some 1),
    dap_chain_wallet_create_with_seed_multi = (\<lambda>h n dir ts v p. Some 1),
    dap_chain_wallet_open = (\<lambda>h n dir p. Some 1), dap_chain_wallet_open_file = (\<lambda>h p pw. Some 1),
    dap_chain_wallet_get_certs_number = (\<lambda>h w. 2),
    dap_chain_wallet_get_pkey_hash = (\<lambda>h w. (0, [7])), dap_chain_wallet_get_pkey_str = (\<lambda>h w. ''AB''),
    dap_chain_hash_fast_to_str_static = (\<lambda>b. ''0x07''),
    c_error_memory_alloc = ''Memory allocation error'', DAP_ENC_KEY_TYPE_INVALID = 99, DAP_CERT_META_STRING = 0, DAP_CERT_META_SIGN = 4,
    DAP_CERT_META_CUSTOM = 5, dap_sign_type_to_key_type = (\<lambda>t. t),
    dap_cert_get_str_recommended_sign = ''sig_dil'',
    dap_cert_generate_mem = (\<lambda>h n t. Some \<lparr>cert_name = n, cert_key = sample_key\<rparr>),
    dap_cert_generate_mem_with_seed = (\<lambda>h n t v. Some \<lparr>cert_name = n, cert_key = sample_key\<rparr>),
    dap_cert_add = (\<lambda>h c. 0),
    dap_cert_add_file = (\<lambda>h n dir. if n = ''root'' then Some \<lparr>cert_name = n, cert_key = sample_key\<rparr> else None),
    dap_cert_find_by_name = (\<lambda>h n. if n = ''root'' then Some \<lparr>cert_name = n, cert_key = sample_key\<rparr> else None),
    dap_cert_save_to_folder = (\<lambda>h c dir. 0), dap_cert_delete_file = (\<lambda>h n dir. 0),
    dap_cert_dump = (\<lambda>h c. ''dump''),
    dap_cert_new = (\<lambda>h n. \<lparr>cert_name = n, cert_key = sample_key\<rparr>),
    dap_enc_key_new = (\<lambda>h t. Some \<lparr>key_type = t, pub_key_data = None, pub_key_data_size = 0,
        priv_key_data = None, priv_key_data_size = 0\<rparr>),
    DAP_DUP_SIZE = (\<lambda>h b n. Some (take n b)), dap_enc_ser_pub_key_size = (\<lambda>k. 3),
    dap_pkey_from_enc_key = (\<lambda>h k. pub_key_data k),
    dap_cert_get_pkey_hash = (\<lambda>h c. (0, [7])), dap_cert_get_pkey_str = (\<lambda>h c. ''AB''),
    dap_stream_node_addr_from_cert = (\<lambda>h c. 5), dap_stream_node_addr_to_str_static = (\<lambda>a. ''0005'')\<rparr>"

definition sample_state :: tool_state where
  "sample_state = \<lparr>trace = [], g_sys_dir_path = Some ''/opt/cellframe-node'',
     s_system_ca_dir = ''/opt/ca'', s_system_wallet_dir = ''/opt/wallets''\<rparr>"

end
