(* ===== verification/Tool_Wallet.thy ===== *)
theory Tool_Wallet
  imports Tool_Sdk
begin

text \<open>
  The wallet commands of \<^verbatim>\<open>sources/main_node_tool.c\<close>: \<open>s_wallet_create\<close>, \<open>s_wallet_create_wp\<close>,
  \<open>s_wallet_create_from\<close>, \<open>s_wallet_sign_file\<close>, \<open>s_wallet_pkey_show\<close>, \<open>s_wallet_pkey_show_full\<close>, and
  \<open>s_help\<close>, which several of them print before they exit. Then what they guarantee: the
  guards in front of every wallet creation, the signature types that reach the SDK, the
  bounds of the type array.
\<close>

section \<open>Help\<close>

definition nl :: string where
  "nl = [CHR 0x0A]"

definition tab :: string where
  "tab = [CHR 0x09]"

definition quoted :: "string \<Rightarrow> string" where
  "quoted s = [CHR 0x27] @ s @ [CHR 0x27]"

definition dquoted :: "string \<Rightarrow> string" where
  "dquoted s = [CHR 0x22] @ s @ [CHR 0x22]"

text \<open>The usage lines of \<open>s_help\<close>, a description and a command line each.\<close>

definition help_entries :: "(string \<times> string) list" where
  "help_entries =
   [('' * Create new key wallet and generate signatures with same names plus index '',
     '' wallet create <wallet name> <signature type> [-seed '' @ dquoted ''ascii value here'' @
     ''] [<signature type 2>[...<signature type N>]]''),
    ('' * Create a new key wallet and generate signatures with the same names plus index. The wallet will be password protected. '',
     '' wallet create_wp <wallet name> <password> <signature type> [-seed '' @ dquoted ''ascii value here'' @
     ''] [<signature type 2>[...<signature type N>]]''),
    ('' * Print hash of public key for wallet <wallet name>'',
     '' wallet pkey show <wallet name> {<password>}''),
    ('' * Create new key file with randomly produced key stored in'',
     '' cert create <cert name> <sign type> [-seed '' @ dquoted ''ascii value here'' @ ''] [<key length>]''),
    ('' * Dump cert data stored in <file path>'',
     '' cert dump <cert name>''),
    ('' * Sign some data with cert '',
     '' cert sign <cert name> <data file path> <sign file output> [<sign data length>] [<sign data offset>]''),
    ('' * Create pkey from <cert name> and store it on <pkey path>'',
     '' cert create_pkey <cert name> <pkey path>''),
    ('' * Export only public key from <cert name> and stores it '',
     '' cert create_cert_pkey <cert name> <new cert name>''),
    ('' * Print hash of public key for cert <cert name>'',
     '' cert pkey show <cert name>''),
    ('' * Print addr of cert <cert name>'',
     '' cert addr show <cert name>''),
    ('' * Add metadata item to <cert name>'',
     '' cert add_metadata <cert name> <key:type:length:value>'')]"

fun help_lines :: "string \<Rightarrow> (string \<times> string) list \<Rightarrow> unit tool" where
  "help_lines app [] = ret ()"
| "help_lines app ((what, usage) # es) =
     seq (print (what @ nl)) (seq (print (tab @ app @ usage @ nl @ nl)) (help_lines app es))"

definition s_help :: "'z base_sdk_scheme \<Rightarrow> unit tool" where
  "s_help d = (let l_tool_appname = dap_get_appname d @ ''-tool'' in
     seq (print nl)
    (seq (print (l_tool_appname @ '' usage:'' @ nl @ nl))
         (help_lines l_tool_appname help_entries)))"

section \<open>Handlers\<close>

definition die_help :: "'z base_sdk_scheme \<Rightarrow> string \<Rightarrow> int \<Rightarrow> 'a tool" where
  "die_help d m c = seq (print m) (seq (s_help d) (exit_with c))"

text \<open>
  The loop that looks for \<^verbatim>\<open>-seed <value>\<close> behind the required arguments, in three handlers.
  The outer \<open>None\<close> is the branch "Option -seed requires a value"; the last option wins.
\<close>

fun seed_scan :: "argv \<Rightarrow> string option \<Rightarrow> string option option" where
  "seed_scan [] acc = Some acc"
| "seed_scan (a # as) acc =
     (if a = ''-seed'' then (case as of [] \<Rightarrow> None | v # bs \<Rightarrow> seed_scan bs (Some v))
      else seed_scan as acc)"

text \<open>
  The loop that fills \<open>l_types\<close> from the arguments. The array has
  \<open>MAX_ENC_KEYS_IN_MULTYSIGN\<close> elements and the loop does not check the index it writes.
\<close>

fun multi_types :: "'z wallet_sdk_scheme \<Rightarrow> argv \<Rightarrow> nat list \<Rightarrow> nat list tool" where
  "multi_types d [] l_types = ret l_types"
| "multi_types d (a # as) l_types =
     (if a = ''-seed'' then multi_types d (drop 1 as) l_types
      else if MAX_ENC_KEYS_IN_MULTYSIGN d \<le> length l_types then crash OutOfBounds
      else let t = dap_sign_type_from_str d (Some a) in
        if t = SIG_TYPE_NULL d
        then die (''Invalid signature type '' @ quoted a @ '', you can use the following:'' @ nl
                  @ dap_sign_get_str_recommended_types d) (-2007)
        else if dap_sign_type_is_deprecated d t
        then die (''Tesla, picnic, bliss algorithms is not supported, please, use another variant:'' @ nl
                  @ dap_sign_get_str_recommended_types d) (-2008)
        else multi_types d as (l_types @ [t]))"

text \<open>
  The checks on the wallet name and the signature type. \<open>shown\<close> is the argument the message
  quotes.
\<close>

definition wallet_checks :: "'z wallet_sdk_scheme \<Rightarrow> string \<Rightarrow> nat \<Rightarrow> string \<Rightarrow> unit tool" where
  "wallet_checks d l_wallet_name sig_type shown =
     (if \<not> dap_isstralnum d l_wallet_name
      then die ''Wallet name must contain digits and alphabet symbols'' (-2004)
      else if sig_type = SIG_TYPE_NULL d
      then die_help d (''Invalid signature type '' @ quoted shown @ '', you can use the following:'' @ nl
                  @ dap_sign_get_str_recommended_types d) (-2004)
      else if dap_sign_type_is_deprecated d sig_type
      then die (''Tesla, picnic, bliss algorithms is not supported, please, use another variant:'' @ nl
                  @ dap_sign_get_str_recommended_types d) (-2004)
      else ret ())"

definition wallet_file_check :: "'z wallet_sdk_scheme \<Rightarrow> string \<Rightarrow> unit tool" where
  "wallet_file_check d l_wallet_name =
     bnd (query (\<lambda>h. dap_file_test d h
            (dap_chain_wallet_get_path d h @ ''/'' @ l_wallet_name @ ''.dwallet'')))
       (\<lambda>ex. if ex then die (''The '' @ quoted l_wallet_name @ '' wallet already exists.'' @ nl) (-2007)
             else ret ())"

text \<open>
  The creation itself. \<open>lim\<close> is the bound of \<open>argc\<close> in the multi-signature branch, 7 in
  \<open>s_wallet_create\<close> and 8 in \<open>s_wallet_create_wp\<close>; both read the types from \<open>argv[6]\<close> on.
\<close>

definition wallet_make ::
  "'z wallet_sdk_scheme \<Rightarrow> argv \<Rightarrow> nat \<Rightarrow> string \<Rightarrow> nat \<Rightarrow> string option \<Rightarrow> string option
     \<Rightarrow> wallet option tool" where
  "wallet_make d av lim l_wallet_name sig_type l_seed_str pass =
    bnd (get_state s_system_wallet_dir) (\<lambda>dir.
     if sig_type = SIG_TYPE_MULTI_CHAINED d then
       (if length av < lim
        then die (''For a signature with type sig_multi_chained, two more signature type parameters must be set.''
                  @ (if pass = None then [] else nl)) (-2006)
        else bnd (multi_types d (drop 6 av) []) (\<lambda>l_types.
          call (WalletCreateMulti l_wallet_name dir l_types (length l_types) l_seed_str
                  (case l_seed_str of None \<Rightarrow> 0 | Some v \<Rightarrow> length v) pass)
               (\<lambda>h. dap_chain_wallet_create_with_seed_multi d h l_wallet_name dir l_types l_seed_str pass)))
     else (case l_seed_str of
         Some (c # cs) \<Rightarrow>
           call (WalletCreateSeed l_wallet_name dir sig_type (c # cs) (length (c # cs)) pass)
                (\<lambda>h. dap_chain_wallet_create_with_seed d h l_wallet_name dir sig_type (c # cs) pass)
       | _ \<Rightarrow>
           call (WalletCreate l_wallet_name dir sig_type pass)
                (\<lambda>h. dap_chain_wallet_create d h l_wallet_name dir sig_type pass)))"

definition wallet_report :: "string \<Rightarrow> wallet option \<Rightarrow> int tool" where
  "wallet_report l_wallet_name l_wallet = (case l_wallet of
      Some _ \<Rightarrow> seq (print (''Wallet '' @ l_wallet_name @ '' has been created.'' @ nl)) (ret 0)
    | None \<Rightarrow> seq (print ''Failed to create a wallet.'') (ret (-1)))"

definition s_wallet_create :: "'z wallet_sdk_scheme \<Rightarrow> argv \<Rightarrow> int tool" where
  "s_wallet_create d av =
    (if length av < 5
     then die_help d (''Wrong '' @ quoted ''wallet create'' @ '' command params'') (-2003)
     else bnd (arg av 3) (\<lambda>l_wallet_name.
       bnd (arg_opt av 4) (\<lambda>a4.
       let sig_type = dap_sign_type_from_str d a4 in
       seq (wallet_checks d l_wallet_name sig_type (av ! 4))
      (case seed_scan (drop 5 av) None of
         None \<Rightarrow> die (''Option -seed requires a value'' @ nl) (-2009)
       | Some l_seed_str \<Rightarrow>
         seq (wallet_file_check d l_wallet_name)
        (bnd (wallet_make d av 7 l_wallet_name sig_type l_seed_str None)
             (wallet_report l_wallet_name))))))"

definition s_wallet_create_wp :: "'z wallet_sdk_scheme \<Rightarrow> argv \<Rightarrow> int tool" where
  "s_wallet_create_wp d av =
    (if length av < 5
     then die_help d (''Wrong '' @ quoted ''wallet create'' @ '' command params'') (-2003)
     else bnd (arg av 3) (\<lambda>l_wallet_name.
       bnd (arg av 4) (\<lambda>l_pass_str.
       bnd (arg_opt av 5) (\<lambda>a5.
       let sig_type = dap_sign_type_from_str d a5 in
       seq (wallet_checks d l_wallet_name sig_type (av ! 4))
      (case seed_scan (drop 6 av) None of
         None \<Rightarrow> die (''Option -seed requires a value'' @ nl) (-2009)
       | Some l_seed_str \<Rightarrow>
         seq (wallet_file_check d l_wallet_name)
        (if \<not> dap_check_valid_password d l_pass_str (length l_pass_str)
         then die (''Invalid characters used for password.'' @ nl) (-2008)
         else bnd (wallet_make d av 8 l_wallet_name sig_type l_seed_str (Some l_pass_str))
             (wallet_report l_wallet_name)))))))"

definition s_wallet_create_from :: "argv \<Rightarrow> int tool" where
  "s_wallet_create_from av =
     seq (print ''The wallet create_from command is not implemented.'') (ret (-1))"

text \<open>
  \<open>s_wallet_sign_file\<close> compares the index with the number of certificates and opens the data
  file; it is not in the table of commands.
\<close>

definition s_wallet_sign_file :: "'z wallet_sdk_scheme \<Rightarrow> argv \<Rightarrow> int tool" where
  "s_wallet_sign_file d av =
    (if length av < 8
     then die_help d (''Wrong '' @ quoted ''wallet sign_file'' @ '' command params'') (-3000)
     else bnd (arg av 3) (\<lambda>a3. bnd (get_state s_system_wallet_dir) (\<lambda>dir.
       bnd (call (WalletOpen a3 dir None) (\<lambda>h. dap_chain_wallet_open d h a3 dir None)) (\<lambda>w.
       case w of
         None \<Rightarrow> die_help d (''Can't open wallet '' @ dquoted a3) (-3001)
       | Some l_wallet \<Rightarrow>
         bnd (arg av 4) (\<lambda>a4. let l_cert_index = atoi a4 in
         bnd (query (\<lambda>h. dap_chain_wallet_get_certs_number d h l_wallet)) (\<lambda>number.
         if l_cert_index > 0 \<and> int number > l_cert_index then
           bnd (arg av 5) (\<lambda>a5. bnd (call (Fopen a5 ''rb'') (\<lambda>h. fopen_ok d h a5 ''rb'')) (\<lambda>ok.
             if ok then
               seq (perform (Fclose a5))
              (die (''Certificate '' @ a5 @ '' was successfully created from wallet '' @ a3 @ ''.'' @ nl) 0)
             else ret 0))
         else die_help d (''Cert index '' @ show_int l_cert_index @ '' can't be found in wallet with ''
                @ show_nat number @ '' certs inside'') (-3002)))))))"

text \<open>The path buffer of \<open>s_wallet_pkey_show\<close> holds \<open>MAX_PATH + 10\<close> bytes, with the NUL.\<close>

definition s_wallet_pkey_show :: "'z wallet_sdk_scheme \<Rightarrow> argv \<Rightarrow> int tool" where
  "s_wallet_pkey_show d av =
    (if length av \<noteq> 5 \<and> length av \<noteq> 6
     then die (''Wrong '' @ quoted ''wallet pkey show'' @ '' command params'' @ nl) (-800)
     else bnd (arg av 4) (\<lambda>a4. bnd (get_state s_system_wallet_dir) (\<lambda>dir.
       bnd (call (WalletOpen a4 dir None) (\<lambda>h. dap_chain_wallet_open d h a4 dir None)) (\<lambda>w.
       bnd (case w of
           Some l_wallet \<Rightarrow> ret l_wallet
         | None \<Rightarrow>
           let l_wallet_path = take (MAX_PATH d + 9) (dir @ ''/'' @ a4 @ ''.dwallet'') in
           bnd (query (\<lambda>h. access_F_OK d h l_wallet_path)) (\<lambda>ok.
           if ok then
             bnd (arg_opt av 5) (\<lambda>l_pass_str. case l_pass_str of
               None \<Rightarrow> die (''Password required for wallet '' @ a4 @ nl) (-134)
             | Some pass \<Rightarrow>
               seq (perform (LogLevelSet ''L_CRITICAL''))
              (bnd (call (WalletOpenFile l_wallet_path pass)
                     (\<lambda>h. dap_chain_wallet_open_file d h l_wallet_path pass)) (\<lambda>w2. case w2 of
                 None \<Rightarrow> die (''Wrong password for wallet '' @ a4 @ nl) (-134)
               | Some l_wallet \<Rightarrow> ret l_wallet)))
           else die (''Wallet '' @ a4 @ '' not found in the directory '' @ dir @ nl) (-136)))
        (\<lambda>l_wallet.
          bnd (query (\<lambda>h. dap_chain_wallet_get_pkey_hash d h l_wallet)) (\<lambda>(rc, l_hash).
          if rc \<noteq> 0 then die (''Can't serialize wallet '' @ a4) (-135)
          else seq (print (dap_chain_hash_fast_to_str_static d l_hash @ nl)) (ret 0)))))))"

definition s_wallet_pkey_show_full :: "'z wallet_sdk_scheme \<Rightarrow> argv \<Rightarrow> int tool" where
  "s_wallet_pkey_show_full d av =
    (if length av \<noteq> 5
     then die (''Wrong '' @ quoted ''wallet pkey show'' @ '' command params'' @ nl) (-800)
     else bnd (arg av 4) (\<lambda>a4. bnd (get_state s_system_wallet_dir) (\<lambda>dir.
       bnd (call (WalletOpen a4 dir None) (\<lambda>h. dap_chain_wallet_open d h a4 dir None)) (\<lambda>w.
       case w of
         None \<Rightarrow> die (''Not found wallet '' @ a4 @ nl) (-134)
       | Some l_wallet \<Rightarrow>
         bnd (query (\<lambda>h. dap_chain_wallet_get_pkey_hash d h l_wallet)) (\<lambda>(rc, l_hash).
         if rc \<noteq> 0 then die (''Can't serialize wallet '' @ a4) (-135)
         else bnd (query (\<lambda>h. dap_chain_wallet_get_pkey_str d h l_wallet)) (\<lambda>l_pkey_str.
           seq (print (''hash: '' @ dap_chain_hash_fast_to_str_static d l_hash @ nl
                       @ ''pkey: '' @ l_pkey_str @ nl)) (ret 0)))))))"

section \<open>Runs that only print\<close>

definition prints_only :: "tool_state \<Rightarrow> tool_state \<Rightarrow> bool" where
  "prints_only s t \<longleftrightarrow> (\<exists>ms. t = s\<lparr>trace := trace s @ map Print ms\<rparr>)"

interpretation printing: state_preorder prints_only
proof unfold_locales
  fix s show "prints_only s s"
    unfolding prints_only_def by (rule exI [of _ "[]"]) simp
next
  fix s t u assume "prints_only s t" and "prints_only t u"
  then obtain ms ns where "t = s\<lparr>trace := trace s @ map Print ms\<rparr>"
    and "u = t\<lparr>trace := trace t @ map Print ns\<rparr>"
    unfolding prints_only_def by blast
  then show "prints_only s u"
    unfolding prints_only_def by (intro exI [of _ "ms @ ns"]) simp
qed

lemma prints_only_print: "prints_only s (s\<lparr>trace := trace s @ [Print m]\<rparr>)"
  unfolding prints_only_def by (rule exI [of _ "[m]"]) simp

lemma prints_print: "keeps prints_only (print m)"
  and prints_die: "keeps prints_only (die m e)"
  by (simp_all add: keeps_def prog_simps prints_only_print)

lemma help_lines_run: "\<exists>t. help_lines app es s = (Ret (), t) \<and> prints_only s t"
proof (induction app es arbitrary: s rule: help_lines.induct)
  case (1 app)
  then show ?case by (simp add: prog_simps printing.R_refl)
next
  case (2 app what usage es)
  let ?s1 = "s\<lparr>trace := trace s @ [Print (what @ nl)]\<rparr>"
  let ?s2 = "?s1\<lparr>trace := trace ?s1 @ [Print (tab @ app @ usage @ nl @ nl)]\<rparr>"
  obtain t where t: "help_lines app es ?s2 = (Ret (), t)" "prints_only ?s2 t"
    using 2 [of ?s2] by blast
  have "prints_only s ?s2"
    by (rule printing.R_trans [OF prints_only_print prints_only_print])
  with t show ?case
    by (auto simp: prog_simps intro: printing.R_trans)
qed

lemma s_help_run: "\<exists>t. s_help d s = (Ret (), t) \<and> prints_only s t"
proof -
  let ?app = "dap_get_appname d @ ''-tool''"
  let ?s1 = "s\<lparr>trace := trace s @ [Print nl]\<rparr>"
  let ?s2 = "?s1\<lparr>trace := trace ?s1 @ [Print (?app @ '' usage:'' @ nl @ nl)]\<rparr>"
  obtain t where t: "help_lines ?app help_entries ?s2 = (Ret (), t)" "prints_only ?s2 t"
    using help_lines_run by blast
  have "prints_only s ?s2"
    by (rule printing.R_trans [OF prints_only_print prints_only_print])
  with t show ?thesis
    by (auto simp: s_help_def Let_def prog_simps intro: printing.R_trans)
qed

lemma die_help_run: "\<exists>t. die_help d m c s = (Exit c, t) \<and> prints_only s t"
proof -
  obtain t where "s_help d (s\<lparr>trace := trace s @ [Print m]\<rparr>) = (Ret (), t)"
    and "prints_only (s\<lparr>trace := trace s @ [Print m]\<rparr>) t"
    using s_help_run by blast
  then show ?thesis
    by (auto simp: die_help_def prog_simps intro: printing.R_trans prints_only_print)
qed

lemma die_run: "\<exists>t. die m c s = (Exit c, t) \<and> prints_only s t"
  by (simp add: prog_simps prints_only_print)

lemma die_helpD: "die_help d m c s = (r, t) \<Longrightarrow> r = Exit c \<and> prints_only s t"
proof -
  assume run: "die_help d m c s = (r, t)"
  obtain u where "die_help d m c s = (Exit c :: 'a res, u)" and "prints_only s u"
    using die_help_run by blast
  with run show ?thesis by simp
qed

section \<open>The pieces of the wallet commands\<close>

definition wallet_ok :: "'z wallet_sdk_scheme \<Rightarrow> string \<Rightarrow> nat \<Rightarrow> bool" where
  "wallet_ok d n t \<longleftrightarrow> dap_isstralnum d n \<and> t \<noteq> SIG_TYPE_NULL d \<and> \<not> dap_sign_type_is_deprecated d t"

definition wallet_file :: "'z wallet_sdk_scheme \<Rightarrow> hist \<Rightarrow> string \<Rightarrow> string" where
  "wallet_file d h n = dap_chain_wallet_get_path d h @ ''/'' @ n @ ''.dwallet''"

lemma wallet_checks_run:
  "(wallet_ok d n t \<and> wallet_checks d n t sh s = (Ret (), s))
   \<or> (\<not> wallet_ok d n t \<and> (\<exists>u. wallet_checks d n t sh s = (Exit (-2004), u) \<and> prints_only s u))"
  using die_help_run [of d] die_run
  by (auto simp: wallet_checks_def wallet_ok_def prog_simps prints_only_print)

lemma wallet_file_check_run:
  "(\<not> dap_file_test d (trace s) (wallet_file d (trace s) n) \<and> wallet_file_check d n s = (Ret (), s))
   \<or> (dap_file_test d (trace s) (wallet_file d (trace s) n)
       \<and> (\<exists>u. wallet_file_check d n s = (Exit (-2007), u) \<and> prints_only s u))"
  by (simp add: wallet_file_check_def wallet_file_def prog_simps prints_only_print)

text \<open>The arguments that are neither \<^verbatim>\<open>-seed\<close> nor its value.\<close>

fun no_seed :: "argv \<Rightarrow> argv" where
  "no_seed [] = []"
| "no_seed (a # as) = (if a = ''-seed'' then no_seed (drop 1 as) else a # no_seed as)"

lemma multi_types_run:
  "(multi_types d as l_types s = (Ret (l_types @ map (\<lambda>a. dap_sign_type_from_str d (Some a)) (no_seed as)), s)
       \<and> length l_types + length (no_seed as) \<le> max (length l_types) (MAX_ENC_KEYS_IN_MULTYSIGN d))
   \<or> (\<exists>c u. multi_types d as l_types s = (Exit c, u) \<and> c \<in> {-2007, -2008} \<and> prints_only s u)
   \<or> (multi_types d as l_types s = (Crash OutOfBounds, s)
       \<and> MAX_ENC_KEYS_IN_MULTYSIGN d < length l_types + length (no_seed as))"
proof (induction d as l_types rule: multi_types.induct)
  case (1 d l_types)
  then show ?case by (simp add: prog_simps)
next
  case (2 d a as l_types)
  show ?case
  proof (cases "a = ''-seed''")
    case True
    with 2 show ?thesis by simp
  next
    case False
    note seed = False
    show ?thesis
    proof (cases "MAX_ENC_KEYS_IN_MULTYSIGN d \<le> length l_types")
      case True
      with seed show ?thesis by (simp add: prog_simps)
    next
      case False
      with seed 2 show ?thesis
        by (auto simp: Let_def prog_simps prints_only_print)
    qed
  qed
qed

text \<open>When every type is known and supported, the loop fails only by running over the array.\<close>

definition usable_type :: "'z wallet_sdk_scheme \<Rightarrow> string \<Rightarrow> bool" where
  "usable_type d a \<longleftrightarrow> (let t = dap_sign_type_from_str d (Some a) in
     t \<noteq> SIG_TYPE_NULL d \<and> \<not> dap_sign_type_is_deprecated d t)"

lemma multi_types_usable:
  "list_all (usable_type d) (no_seed as) \<Longrightarrow> length l_types \<le> MAX_ENC_KEYS_IN_MULTYSIGN d \<Longrightarrow>
   multi_types d as l_types s =
     (if length l_types + length (no_seed as) \<le> MAX_ENC_KEYS_IN_MULTYSIGN d
      then (Ret (l_types @ map (\<lambda>a. dap_sign_type_from_str d (Some a)) (no_seed as)), s)
      else (Crash OutOfBounds, s))"
proof (induction d as l_types rule: multi_types.induct)
  case (1 d l_types)
  then show ?case by (simp add: prog_simps)
next
  case (2 d a as l_types)
  show ?case
  proof (cases "a = ''-seed''")
    case True
    with 2 show ?thesis by simp
  next
    case False
    with 2 show ?thesis
      by (auto simp: usable_type_def Let_def prog_simps)
  qed
qed

section \<open>Runs of the creating commands\<close>

text \<open>The creation call of a run, and what the SDK answers to it.\<close>

definition wallet_call ::
  "'z wallet_sdk_scheme \<Rightarrow> argv \<Rightarrow> string \<Rightarrow> string \<Rightarrow> nat \<Rightarrow> string option \<Rightarrow> string option \<Rightarrow> call" where
  "wallet_call d av n dir ty seed pass =
     (if ty = SIG_TYPE_MULTI_CHAINED d then
        (let ts = map (\<lambda>a. dap_sign_type_from_str d (Some a)) (no_seed (drop 6 av)) in
         WalletCreateMulti n dir ts (length ts) seed (case seed of None \<Rightarrow> 0 | Some v \<Rightarrow> length v) pass)
      else if seed = None \<or> seed = Some [] then WalletCreate n dir ty pass
      else WalletCreateSeed n dir ty (the seed) (length (the seed)) pass)"

fun wallet_answer :: "'z wallet_sdk_scheme \<Rightarrow> hist \<Rightarrow> call \<Rightarrow> wallet option" where
  "wallet_answer d h (WalletCreate n dir ty pass) = dap_chain_wallet_create d h n dir ty pass"
| "wallet_answer d h (WalletCreateSeed n dir ty v l pass) =
     dap_chain_wallet_create_with_seed d h n dir ty v pass"
| "wallet_answer d h (WalletCreateMulti n dir ts k seed l pass) =
     dap_chain_wallet_create_with_seed_multi d h n dir ts seed pass"
| "wallet_answer d h _ = None"

lemma wallet_make_run:
  fixes d av lim n ty seed pass s
  defines "c \<equiv> wallet_call d av n (s_system_wallet_dir s) ty seed pass"
  shows "(wallet_make d av lim n ty seed pass s =
       (Ret (wallet_answer d (trace s) c), s\<lparr>trace := trace s @ [Called c]\<rparr>)
       \<and> (ty = SIG_TYPE_MULTI_CHAINED d \<longrightarrow> lim \<le> length av))
   \<or> (\<exists>e u. wallet_make d av lim n ty seed pass s = (Exit e, u) \<and> e \<in> {-2006, -2007, -2008} \<and> prints_only s u)
   \<or> (wallet_make d av lim n ty seed pass s = (Crash OutOfBounds, s) \<and> ty = SIG_TYPE_MULTI_CHAINED d
       \<and> MAX_ENC_KEYS_IN_MULTYSIGN d < length (no_seed (drop 6 av)))"
proof (cases "ty = SIG_TYPE_MULTI_CHAINED d")
  case True
  show ?thesis
  proof (cases "length av < lim")
    case True
    with \<open>ty = SIG_TYPE_MULTI_CHAINED d\<close> show ?thesis
      by (simp add: wallet_make_def prog_simps prints_only_print)
  next
    case False
    with \<open>ty = SIG_TYPE_MULTI_CHAINED d\<close> show ?thesis
      using multi_types_run [of d "drop 6 av" "[]" s]
      by (auto simp: wallet_make_def prog_simps c_def wallet_call_def Let_def)
  qed
next
  case False
  then show ?thesis
    by (simp add: wallet_make_def prog_simps c_def wallet_call_def split: option.split list.split)
qed

lemma wallet_report_run:
  "wallet_report n w s = (Ret (if w = None then -1 else 0), s\<lparr>trace := trace s @
     [Print (if w = None then ''Failed to create a wallet.''
             else ''Wallet '' @ n @ '' has been created.'' @ nl)]\<rparr>)"
  by (simp add: wallet_report_def prog_simps split: option.split)

text \<open>
  \<open>creation d av s r t n ty seed pass lim\<close>: the run from \<open>s\<close> passed every guard, made exactly
  the creation call for these arguments and returned 0 or -1 as the SDK answered.
\<close>

definition creation ::
  "'z wallet_sdk_scheme \<Rightarrow> argv \<Rightarrow> tool_state \<Rightarrow> int res \<Rightarrow> tool_state \<Rightarrow> string \<Rightarrow> nat \<Rightarrow> string option
     \<Rightarrow> string option \<Rightarrow> nat \<Rightarrow> bool" where
  "creation d av s r t n ty seed pass lim \<longleftrightarrow>
     wallet_ok d n ty \<and> \<not> dap_file_test d (trace s) (wallet_file d (trace s) n)
     \<and> (ty = SIG_TYPE_MULTI_CHAINED d \<longrightarrow> lim \<le> length av)
     \<and> (let c = wallet_call d av n (s_system_wallet_dir s) ty seed pass;
            w = wallet_answer d (trace s) c in
         r = Ret (if w = None then -1 else 0)
         \<and> (\<exists>m. t = s\<lparr>trace := trace s @ [Called c, Print m]\<rparr>))"

definition refusal :: "tool_state \<Rightarrow> int res \<Rightarrow> tool_state \<Rightarrow> int set \<Rightarrow> bool" where
  "refusal s r t es \<longleftrightarrow> (\<exists>e \<in> es. r = Exit e) \<and> prints_only s t"

lemma refusal_mono: "refusal s r t es \<Longrightarrow> es \<subseteq> fs \<Longrightarrow> refusal s r t fs"
  by (auto simp: refusal_def)

abbreviation wallet_exits :: "int set" where
  "wallet_exits \<equiv> {-2003, -2004, -2006, -2007, -2008, -2009}"

lemma wallet_make_report_run:
  fixes d av lim n ty seed pass s
  assumes "wallet_ok d n ty" and "\<not> dap_file_test d (trace s) (wallet_file d (trace s) n)"
  assumes run: "bnd (wallet_make d av lim n ty seed pass) (wallet_report n) s = (r, t)"
  shows "creation d av s r t n ty seed pass lim \<or> refusal s r t wallet_exits
    \<or> r = Crash OutOfBounds \<and> t = s \<and> ty = SIG_TYPE_MULTI_CHAINED d
       \<and> MAX_ENC_KEYS_IN_MULTYSIGN d < length (no_seed (drop 6 av))"
  using wallet_make_run [of d av lim n ty seed pass s] run assms(1,2)
  by (elim disjE exE conjE)
    (auto simp: prog_simps wallet_report_run creation_def refusal_def Let_def)

text \<open>The guards both commands share, in front of any program \<open>P\<close>.\<close>

lemma wallet_guards_run:
  assumes run: "seq (wallet_checks d n ty sh) (case seed_scan as None of
         None \<Rightarrow> die (''Option -seed requires a value'' @ nl) (-2009)
       | Some seed \<Rightarrow> seq (wallet_file_check d n) (P seed)) s = (r, t)"
  shows "refusal s r t wallet_exits
    \<or> (\<exists>seed. seed_scan as None = Some seed \<and> wallet_ok d n ty
         \<and> \<not> dap_file_test d (trace s) (wallet_file d (trace s) n) \<and> P seed s = (r, t))"
proof (cases "wallet_ok d n ty")
  case True
  with run wallet_checks_run [of d n ty sh s] wallet_file_check_run [of d s n] show ?thesis
    by (cases "seed_scan as None") (auto simp: seq_app die_app refusal_def prints_only_print)
next
  case False
  with run wallet_checks_run [of d n ty sh s] show ?thesis
    by (auto simp: seq_app refusal_def)
qed

lemma s_wallet_create_cases:
  assumes run: "s_wallet_create d av s = (r, t)"
  shows "5 \<le> length av \<and> (\<exists>seed. seed_scan (drop 5 av) None = Some seed
           \<and> creation d av s r t (av ! 3) (dap_sign_type_from_str d (Some (av ! 4))) seed None 7)
    \<or> refusal s r t wallet_exits
    \<or> r = Crash OutOfBounds \<and> t = s \<and> dap_sign_type_from_str d (Some (av ! 4)) = SIG_TYPE_MULTI_CHAINED d
       \<and> MAX_ENC_KEYS_IN_MULTYSIGN d < length (no_seed (drop 6 av))"
proof (cases "length av < 5")
  case True
  with run show ?thesis by (auto simp: s_wallet_create_def refusal_def dest: die_helpD)
next
  case False
  with run have "seq (wallet_checks d (av ! 3) (dap_sign_type_from_str d (Some (av ! 4))) (av ! 4))
      (case seed_scan (drop 5 av) None of
         None \<Rightarrow> die (''Option -seed requires a value'' @ nl) (-2009)
       | Some seed \<Rightarrow> seq (wallet_file_check d (av ! 3))
           (bnd (wallet_make d av 7 (av ! 3) (dap_sign_type_from_str d (Some (av ! 4))) seed None)
             (wallet_report (av ! 3)))) s = (r, t)"
    by (simp add: s_wallet_create_def bnd_app arg_app arg_opt_app Let_def)
  from wallet_guards_run [OF this] False show ?thesis
    by (auto dest: wallet_make_report_run)
qed

lemma s_wallet_create_wp_cases:
  assumes run: "s_wallet_create_wp d av s = (r, t)" and argc: "length av \<noteq> 5"
  shows "6 \<le> length av \<and> dap_check_valid_password d (av ! 4) (length (av ! 4))
         \<and> (\<exists>seed. seed_scan (drop 6 av) None = Some seed
           \<and> creation d av s r t (av ! 3) (dap_sign_type_from_str d (Some (av ! 5))) seed (Some (av ! 4)) 8)
    \<or> refusal s r t wallet_exits
    \<or> r = Crash OutOfBounds \<and> t = s \<and> dap_sign_type_from_str d (Some (av ! 5)) = SIG_TYPE_MULTI_CHAINED d
       \<and> MAX_ENC_KEYS_IN_MULTYSIGN d < length (no_seed (drop 6 av))"
proof (cases "length av < 5")
  case True
  with run show ?thesis by (auto simp: s_wallet_create_wp_def refusal_def dest: die_helpD)
next
  case False
  with argc have len: "6 \<le> length av" by simp
  with run have "seq (wallet_checks d (av ! 3) (dap_sign_type_from_str d (Some (av ! 5))) (av ! 4))
      (case seed_scan (drop 6 av) None of
         None \<Rightarrow> die (''Option -seed requires a value'' @ nl) (-2009)
       | Some seed \<Rightarrow> seq (wallet_file_check d (av ! 3))
           (if \<not> dap_check_valid_password d (av ! 4) (length (av ! 4))
            then die (''Invalid characters used for password.'' @ nl) (-2008)
            else bnd (wallet_make d av 8 (av ! 3) (dap_sign_type_from_str d (Some (av ! 5))) seed (Some (av ! 4)))
             (wallet_report (av ! 3)))) s = (r, t)"
    by (simp add: s_wallet_create_wp_def bnd_app arg_app arg_opt_app Let_def)
  from wallet_guards_run [OF this] len show ?thesis
    by (auto simp: die_app refusal_def prints_only_print split: if_splits dest: wallet_make_report_run)
qed

section \<open>Properties\<close>

definition new_calls :: "tool_state \<Rightarrow> tool_state \<Rightarrow> call list" where
  "new_calls s t = [c. Called c \<leftarrow> drop (length (trace s)) (trace t)]"

fun creates_wallet :: "call \<Rightarrow> bool" where
  "creates_wallet (WalletCreate _ _ _ _) = True"
| "creates_wallet (WalletCreateSeed _ _ _ _ _ _) = True"
| "creates_wallet (WalletCreateMulti _ _ _ _ _ _ _) = True"
| "creates_wallet _ = False"

lemma prints_only_no_calls: "prints_only s t \<Longrightarrow> new_calls s t = []"
  by (auto simp: prints_only_def new_calls_def)

lemma wallet_call_creates: "creates_wallet (wallet_call d av n dir ty seed pass)"
  by (simp add: wallet_call_def Let_def)

lemma refusal_no_calls: "refusal s r t es \<Longrightarrow> new_calls s t = []"
  by (simp add: refusal_def prints_only_no_calls)

lemma creation_calls:
  "creation d av s r t n ty seed pass lim \<Longrightarrow>
   new_calls s t = [wallet_call d av n (s_system_wallet_dir s) ty seed pass]"
  by (auto simp: creation_def Let_def new_calls_def)

lemma creation_guards:
  "creation d av s r t n ty seed pass lim \<Longrightarrow>
   wallet_ok d n ty \<and> \<not> dap_file_test d (trace s) (wallet_file d (trace s) n)"
  by (simp add: creation_def)

text \<open>
  C1. \<^verbatim>\<open>wallet create\<close> reaches the SDK's wallet creation only behind all its guards: enough
  arguments, an alphanumeric name, a known signature type that is not deprecated, a \<^verbatim>\<open>-seed\<close>
  option with its value, and no wallet file of that name; the call carries exactly the
  name, the wallet directory, the type and the seed of the command line, and no password.
\<close>

theorem wallet_create_guarded:
  assumes "s_wallet_create d av s = (r, t)" and "c \<in> set (new_calls s t)"
  shows "5 \<le> length av \<and> wallet_ok d (av ! 3) (dap_sign_type_from_str d (Some (av ! 4)))
    \<and> \<not> dap_file_test d (trace s) (wallet_file d (trace s) (av ! 3))
    \<and> (\<exists>seed. seed_scan (drop 5 av) None = Some seed
         \<and> c = wallet_call d av (av ! 3) (s_system_wallet_dir s)
                 (dap_sign_type_from_str d (Some (av ! 4))) seed None)"
  using s_wallet_create_cases [OF assms(1)] assms(2)
  by (auto simp: new_calls_def [of s s] dest: creation_calls refusal_no_calls creation_guards)

text \<open>
  \<^verbatim>\<open>wallet create_wp\<close>, called with a signature type, reaches the SDK's wallet creation
  only behind the same guards and a password check, and the call carries the password of
  the command line.
\<close>

theorem wallet_create_wp_guarded:
  assumes "s_wallet_create_wp d av s = (r, t)" and "c \<in> set (new_calls s t)" and "length av \<noteq> 5"
  shows "6 \<le> length av \<and> wallet_ok d (av ! 3) (dap_sign_type_from_str d (Some (av ! 5)))
    \<and> dap_check_valid_password d (av ! 4) (length (av ! 4))
    \<and> \<not> dap_file_test d (trace s) (wallet_file d (trace s) (av ! 3))
    \<and> (\<exists>seed. seed_scan (drop 6 av) None = Some seed
         \<and> c = wallet_call d av (av ! 3) (s_system_wallet_dir s)
                 (dap_sign_type_from_str d (Some (av ! 5))) seed (Some (av ! 4)))"
  using s_wallet_create_wp_cases [OF assms(1,3)] assms(2)
  by (auto simp: new_calls_def [of s s] dest: creation_calls refusal_no_calls creation_guards)

text \<open>
  C2. \<^verbatim>\<open>wallet create\<close> returns 0 exactly when it asked the SDK for a wallet and got one; a
  failed creation is reported as -1, every refusal leaves through one of the exit codes
  below with nothing but messages, and the only undefined behaviour is the type array
  overrun by more multi-signature types than it holds.
\<close>

theorem wallet_create_outcome:
  assumes "s_wallet_create d av s = (r, t)"
  shows "(r = Ret 0 \<longleftrightarrow> (\<exists>c w. new_calls s t = [c] \<and> wallet_answer d (trace s) c = Some w))
    \<and> (r = Ret (-1) \<longleftrightarrow> (\<exists>c. new_calls s t = [c] \<and> wallet_answer d (trace s) c = None))
    \<and> (r \<in> {Ret 0, Ret (-1)} \<or> (\<exists>e \<in> wallet_exits. r = Exit e \<and> prints_only s t)
       \<or> r = Crash OutOfBounds \<and> MAX_ENC_KEYS_IN_MULTYSIGN d < length (no_seed (drop 6 av)))"
  using s_wallet_create_cases [OF assms]
proof (elim disjE conjE exE)
  fix seed
  assume cr: "creation d av s r t (av ! 3) (dap_sign_type_from_str d (Some (av ! 4))) seed None 7"
  then show ?thesis
    by (auto simp: creation_calls [OF cr] creation_def Let_def)
next
  assume "refusal s r t wallet_exits"
  then show ?thesis by (auto simp: prints_only_no_calls refusal_def)
qed (simp_all add: new_calls_def)

text \<open>
  In \<^verbatim>\<open>wallet create\<close> the first signature type behind \<^verbatim>\<open>sig_multi_chained\<close> has no influence
  at all: replacing it by any other word (that is not the option \<^verbatim>\<open>-seed\<close>) gives the same run.
\<close>

theorem wallet_create_ignores_first_type:
  assumes "t1 \<noteq> ''-seed''" and "t2 \<noteq> ''-seed''"
  shows "s_wallet_create d (p # w # k # n # m # t1 # rest) s
       = s_wallet_create d (p # w # k # n # m # t2 # rest) s"
proof -
  have dropped: "drop 6 (p # w # k # n # m # t1 # rest) = drop 6 (p # w # k # n # m # t2 # rest)"
    and len: "length (p # w # k # n # m # t1 # rest) = length (p # w # k # n # m # t2 # rest)"
    by simp_all
  have "wallet_make d (p # w # k # n # m # t1 # rest) 7 n ty seed None
      = wallet_make d (p # w # k # n # m # t2 # rest) 7 n ty seed None" for ty seed
    by (simp only: wallet_make_def dropped len)
  then show ?thesis
    using assms
    by (simp add: s_wallet_create_def arg_def arg_opt_def bnd_ret_left Let_def split: option.split)
qed


section \<open>Witnesses\<close>

lemmas sample_simps = sample_sdk_def sample_state_def sample_type_def sample_alnum_def sample_key_def
  is_digit_def

lemma trace_sample_state: "trace sample_state = []"
  and dir_sample_state: "s_system_wallet_dir sample_state = ''/opt/wallets''"
  by (simp_all add: sample_state_def)

lemma sample_fields:
  "SIG_TYPE_MULTI_CHAINED sample_sdk = 3" "MAX_ENC_KEYS_IN_MULTYSIGN sample_sdk = 2"
  "dap_sign_type_from_str sample_sdk = sample_type" "\<not> dap_file_test sample_sdk h p"
  "dap_check_valid_password sample_sdk w n \<longleftrightarrow> CHR '' '' \<notin> set w"
  by (simp_all add: sample_sdk_def)

definition sample_create :: argv where
  "sample_create = [''tool'', ''wallet'', ''create'', ''w1'', ''sig_dil'', ''-seed'', ''abc'']"

lemma sample_create_run:
  "s_wallet_create sample_sdk sample_create sample_state =
     (Ret 0, sample_state\<lparr>trace := [Called (WalletCreateSeed ''w1'' ''/opt/wallets'' 1 ''abc'' 3 None),
        Print (''Wallet w1 has been created.'' @ nl)]\<rparr>)"
  by (simp add: s_wallet_create_def sample_create_def sample_simps prog_simps wallet_checks_def
      wallet_file_check_def wallet_make_def wallet_report_def Let_def)

theorem wallet_create_guarded_witness:
  "\<not> dap_file_test sample_sdk [] (wallet_file sample_sdk [] ''w1'') \<and> wallet_ok sample_sdk ''w1'' 1"
  using wallet_create_guarded [OF sample_create_run,
      of "WalletCreateSeed ''w1'' ''/opt/wallets'' 1 ''abc'' 3 None"]
  by (simp add: new_calls_def sample_create_def sample_state_def)
    (simp add: sample_simps)

theorem wallet_create_outcome_witness:
  "\<exists>c w. new_calls sample_state (snd (s_wallet_create sample_sdk sample_create sample_state)) = [c]
     \<and> wallet_answer sample_sdk [] c = Some w"
  using wallet_create_outcome [OF sample_create_run]
  by (simp add: sample_create_run trace_sample_state)

definition sample_create_wp :: argv where
  "sample_create_wp = [''tool'', ''wallet'', ''create_wp'', ''w1'', ''pw'', ''sig_multi_chained'',
     ''sig_dil'', ''sig_dil'']"

lemma sample_create_wp_run:
  "s_wallet_create_wp sample_sdk sample_create_wp sample_state =
     (Ret 0, sample_state\<lparr>trace :=
        [Called (WalletCreateMulti ''w1'' ''/opt/wallets'' [1, 1] 2 None 0 (Some ''pw'')),
        Print (''Wallet w1 has been created.'' @ nl)]\<rparr>)"
  by (simp add: s_wallet_create_wp_def sample_create_wp_def sample_simps prog_simps wallet_checks_def
      wallet_file_check_def wallet_make_def wallet_report_def Let_def)

theorem wallet_create_wp_guarded_witness:
  "dap_check_valid_password sample_sdk ''pw'' 2 \<and> wallet_ok sample_sdk ''w1'' 3"
  using wallet_create_wp_guarded [OF sample_create_wp_run,
      of "WalletCreateMulti ''w1'' ''/opt/wallets'' [1, 1] 2 None 0 (Some ''pw'')"]
  by (simp add: new_calls_def sample_create_wp_def sample_state_def)
    (simp add: sample_simps)

theorem wallet_create_ignores_first_type_witness:
  "s_wallet_create sample_sdk [''tool'', ''wallet'', ''create'', ''w1'', ''sig_multi_chained'', ''sig_dil'', ''sig_dil''] sample_state
   = s_wallet_create sample_sdk [''tool'', ''wallet'', ''create'', ''w1'', ''sig_multi_chained'', ''nonsense'', ''sig_dil''] sample_state"
  by (rule wallet_create_ignores_first_type) simp_all


end
