(* ===== verification/Tool_Cert.thy ===== *)
theory Tool_Cert
  imports Tool_Wallet
begin

text \<open>
  The certificate commands of \<^verbatim>\<open>sources/main_node_tool.c\<close>: \<open>s_cert_create\<close>, \<open>s_cert_dump\<close>,
  \<open>s_cert_create_pkey\<close>, \<open>s_cert_copy\<close> with its two wrappers, \<open>s_cert_add_metadata\<close>, \<open>s_cert_sign\<close>,
  \<open>s_cert_pkey_show\<close>, \<open>s_cert_pkey_show_full\<close>, \<open>s_cert_get_addr\<close>. Then: no existing certificate is
  overwritten, renaming deletes the old file only after the new one is saved, exporting
  the public key never saves a private key, and which metadata arguments crash.
\<close>

section \<open>Handlers\<close>

definition cert_file :: "string \<Rightarrow> string \<Rightarrow> string" where
  "cert_file dir n = dir @ ''/'' @ n @ ''.dcert''"

text \<open>The buffer of the path in \<open>s_cert_create\<close>: \<open>strlen(name) + 8 + strlen(dir)\<close> bytes, with the NUL.\<close>

definition cert_create_path :: "string \<Rightarrow> string \<Rightarrow> string" where
  "cert_create_path dir n =
     (let l_cert_path_length = length n + 8 + length dir
      in take (l_cert_path_length - 1) (cert_file dir n))"

definition s_cert_create :: "tool_sdk \<Rightarrow> argv \<Rightarrow> int tool" where
  "s_cert_create d av =
    (if length av < 5
     then die_help d (''Wrong '' @ quoted ''cert create'' @ '' command params'' @ nl) (-500)
     else bnd (arg av 3) (\<lambda>l_cert_name. bnd (get_state s_system_ca_dir) (\<lambda>dir.
       let l_cert_path = cert_create_path dir l_cert_name in
       bnd (query (\<lambda>h. access_F_OK d h l_cert_path)) (\<lambda>ex.
       if ex then die (''File '' @ dquoted l_cert_path @ '' already exists!'' @ nl) (-700)
       else bnd (arg av 4) (\<lambda>a4. let sig_type = dap_sign_type_from_str d (Some a4) in
       case seed_scan (drop 5 av) None of
         None \<Rightarrow> die (''Option -seed requires a value'' @ nl) (-603)
       | Some l_seed_str \<Rightarrow>
         if sig_type = SIG_TYPE_NULL d \<or> sig_type = SIG_TYPE_MULTI_CHAINED d
         then die (''Unknown signature type '' @ a4 @ '' specified, recommended signatures:'' @ nl
                @ dap_cert_get_str_recommended_sign d) (-600)
         else if sig_type = SIG_TYPE_MULTI_CHAINED d
         then die (''The sig_multi_chained signature is not applicable for certificate creation. ''
                @ ''Use the following signatures:'' @ [CHR 0x5C] @ ''n'' @ dap_cert_get_str_recommended_sign d) (-601)
         else if dap_sign_type_is_deprecated d sig_type
         then die (''Signature type '' @ a4 @ '' is obsolete, we recommend the following signatures:'' @ nl
                @ dap_cert_get_str_recommended_sign d) (-602)
         else let l_key_type = dap_sign_type_to_key_type d sig_type in
           if l_key_type \<noteq> DAP_ENC_KEY_TYPE_INVALID d then
             bnd (case l_seed_str of
                 Some (c # cs) \<Rightarrow> call (CertGenerateSeed l_cert_name l_key_type (c # cs) (length (c # cs)))
                    (\<lambda>h. dap_cert_generate_mem_with_seed d h l_cert_name l_key_type (c # cs))
               | _ \<Rightarrow> call (CertGenerate l_cert_name l_key_type)
                    (\<lambda>h. dap_cert_generate_mem d h l_cert_name l_key_type))
            (\<lambda>gen. case gen of
               None \<Rightarrow> die ''Can't create certificate in memory'' (-500)
             | Some l_cert \<Rightarrow>
               bnd (call (CertAdd l_cert) (\<lambda>h. dap_cert_add d h l_cert)) (\<lambda>added.
               if added \<noteq> 0
               then seq (print ''Can't register certificate in memory'')
                   (seq (perform (CertDelete l_cert)) (exit_with (-500)))
               else bnd (call (CertSave l_cert dir) (\<lambda>h. dap_cert_save_to_folder d h l_cert dir)) (\<lambda>saved.
               if saved \<noteq> 0
               then seq (print (''Can't save certificate to the file!'' @ nl))
                   (seq (perform (CertDelete l_cert)) (exit_with (-500)))
               else seq (perform (CertDelete l_cert))
                   (seq (print (''Cert '' @ dquoted l_cert_path @ '' created'' @ nl)) (ret 0)))))
           else die_help d (''Wrong key create action '' @ dquoted a4) (-500))))))"

definition s_cert_dump :: "tool_sdk \<Rightarrow> argv \<Rightarrow> int tool" where
  "s_cert_dump d av =
    (if 4 \<le> length av then
       bnd (arg av 3) (\<lambda>l_cert_name. bnd (get_state s_system_ca_dir) (\<lambda>dir.
       bnd (call (CertAddFile l_cert_name dir) (\<lambda>h. dap_cert_add_file d h l_cert_name dir)) (\<lambda>oc.
       case oc of
         Some l_cert \<Rightarrow>
           bnd (query (\<lambda>h. dap_cert_dump d h l_cert)) (\<lambda>l_cert_dump.
           seq (print l_cert_dump) (seq (perform (CertDeleteByName l_cert_name)) (ret 0)))
       | None \<Rightarrow> die (''Can't open '' @ quoted l_cert_name @ '' cert'' @ nl) (-702))))
     else seq (print (''Wrong '' @ quoted ''cert dump'' @ '' command params'' @ nl)) (ret 0))"

text \<open>
  \<open>s_cert_create_pkey\<close> stores the size of the serialized key in the certificate it loaded
  before it asks for the key.
\<close>

definition s_cert_create_pkey :: "tool_sdk \<Rightarrow> argv \<Rightarrow> int tool" where
  "s_cert_create_pkey d av =
    (if length av < 5 then die (''Wrong '' @ quoted ''cert create_pkey'' @ '' command params'' @ nl) (-7023)
     else bnd (arg av 3) (\<lambda>l_cert_name. bnd (arg av 4) (\<lambda>l_cert_pkey_path.
       bnd (get_state s_system_ca_dir) (\<lambda>dir.
       bnd (call (CertAddFile l_cert_name dir) (\<lambda>h. dap_cert_add_file d h l_cert_name dir)) (\<lambda>oc.
       case oc of
         None \<Rightarrow> die (''Failed to open '' @ dquoted l_cert_name @ '' certificate.'') (-7021)
       | Some l_cert0 \<Rightarrow>
         let l_cert = l_cert0\<lparr>cert_key := (cert_key l_cert0)
               \<lparr>pub_key_data_size := dap_enc_ser_pub_key_size d (cert_key l_cert0)\<rparr>\<rparr> in
         if pub_key_data_size (cert_key l_cert) \<noteq> 0 then
           bnd (query (\<lambda>h. dap_pkey_from_enc_key d h (cert_key l_cert))) (\<lambda>op. case op of
             None \<Rightarrow> die (''Can't produce pkey from the certificate'' @ nl) (-7022)
           | Some l_pkey \<Rightarrow>
             bnd (query (\<lambda>h. dap_file_test d h l_cert_pkey_path)) (\<lambda>ex.
             if ex then die (''The file '' @ dquoted l_cert_pkey_path @ '' exists.'' @ nl) (-7023)
             else bnd (call (Fopen l_cert_pkey_path ''wb'') (\<lambda>h. fopen_ok d h l_cert_pkey_path ''wb'')) (\<lambda>ok.
               seq (if ok then seq (perform (Fwrite l_cert_pkey_path l_pkey)) (perform (Fclose l_cert_pkey_path))
                    else ret ())
              (seq (perform (CertDeleteByName l_cert_name))
              (seq (print (''Created '' @ dquoted l_cert_pkey_path @ '' public key based on ''
                       @ dquoted l_cert_name @ '' private key.'' @ nl))
                   (ret 0))))))
         else die (''Can't produce pkey from this cert type'' @ nl) (-7023))))))"

text \<open>The new certificate of \<open>s_cert_copy\<close> with its keys filled in.\<close>

definition with_pub :: "cert \<Rightarrow> bytes \<Rightarrow> nat \<Rightarrow> cert" where
  "with_pub c b n = c\<lparr>cert_key := (cert_key c)\<lparr>pub_key_data := Some b, pub_key_data_size := n\<rparr>\<rparr>"

definition with_priv :: "cert \<Rightarrow> bytes \<Rightarrow> nat \<Rightarrow> cert" where
  "with_priv c b n = c\<lparr>cert_key := (cert_key c)\<lparr>priv_key_data := Some b, priv_key_data_size := n\<rparr>\<rparr>"

text \<open>The end of \<open>s_cert_copy\<close>: save, remove the original file when renaming, free.\<close>

definition cert_copy_finish :: "tool_sdk \<Rightarrow> string \<Rightarrow> string \<Rightarrow> cert \<Rightarrow> bool \<Rightarrow> cert \<Rightarrow> int tool" where
  "cert_copy_finish d dir l_cert_name l_cert a_pvt_key_copy l_cert_new =
     bnd (call (CertSave l_cert_new dir) (\<lambda>h. dap_cert_save_to_folder d h l_cert_new dir)) (\<lambda>r.
     bnd (if r = 0 \<and> a_pvt_key_copy
          then call (CertDeleteFile l_cert_name dir) (\<lambda>h. dap_cert_delete_file d h l_cert_name dir)
          else ret r) (\<lambda>r2.
     seq (perform (CertDelete l_cert))
    (seq (perform (CertDelete (l_cert_new\<lparr>cert_key := (cert_key l_cert_new)
           \<lparr>pub_key_data := None, priv_key_data := None\<rparr>\<rparr>)))
         (ret r2))))"

definition s_cert_copy :: "tool_sdk \<Rightarrow> argv \<Rightarrow> bool \<Rightarrow> int tool" where
  "s_cert_copy d av a_pvt_key_copy =
    (if length av < 5 then die ''Incorrect arguments count'' (-7021)
     else bnd (arg av 3) (\<lambda>l_cert_name. bnd (arg av 4) (\<lambda>l_cert_new_name.
       bnd (get_state s_system_ca_dir) (\<lambda>dir.
       bnd (call (CertAddFile l_cert_name dir) (\<lambda>h. dap_cert_add_file d h l_cert_name dir)) (\<lambda>oc.
       case oc of
         None \<Rightarrow> die ''Can't read specified certificate'' (-7023)
       | Some l_cert \<Rightarrow>
         (case pub_key_data (cert_key l_cert) of
           None \<Rightarrow> die ''Invalid certificate key, no public key found'' (-7022)
         | Some pub \<Rightarrow>
           if pub_key_data_size (cert_key l_cert) = 0
           then die ''Invalid certificate key, no public key found'' (-7022)
           else bnd (query (\<lambda>h. dap_file_test d h (cert_file dir l_cert_new_name))) (\<lambda>ex.
             if ex then die (''The '' @ dquoted (cert_file dir l_cert_new_name) @ '' file already exists.'' @ nl) (-7023)
             else bnd (query (\<lambda>h. dap_cert_new d h l_cert_new_name)) (\<lambda>new0.
               bnd (query (\<lambda>h. dap_enc_key_new d h (key_type (cert_key l_cert)))) (\<lambda>ok. case ok of
                 None \<Rightarrow> crash NullDeref
               | Some k \<Rightarrow>
                 bnd (query (\<lambda>h. DAP_DUP_SIZE d h pub (pub_key_data_size (cert_key l_cert)))) (\<lambda>opub.
                 case opub of
                   None \<Rightarrow> seq (print (c_error_memory_alloc d)) (ret (-1))
                 | Some pub2 \<Rightarrow>
                   let new1 = with_pub (new0\<lparr>cert_key := k\<rparr>) pub2 (pub_key_data_size (cert_key l_cert)) in
                   (case priv_key_data (cert_key l_cert) of
                     Some priv \<Rightarrow>
                       if priv_key_data_size (cert_key l_cert) \<noteq> 0 \<and> a_pvt_key_copy then
                         bnd (query (\<lambda>h. DAP_DUP_SIZE d h priv (priv_key_data_size (cert_key l_cert)))) (\<lambda>opriv.
                         case opriv of
                           None \<Rightarrow> seq (print (c_error_memory_alloc d)) (ret (-1))
                         | Some priv2 \<Rightarrow> cert_copy_finish d dir l_cert_name l_cert a_pvt_key_copy
                             (with_priv new1 priv2 (priv_key_data_size (cert_key l_cert))))
                       else cert_copy_finish d dir l_cert_name l_cert a_pvt_key_copy new1
                   | None \<Rightarrow> cert_copy_finish d dir l_cert_name l_cert a_pvt_key_copy new1)))))))))))"

definition s_cert_create_cert_pkey :: "tool_sdk \<Rightarrow> argv \<Rightarrow> int tool" where
  "s_cert_create_cert_pkey d av =
     bnd (s_cert_copy d av False) (\<lambda>res.
     seq (if res = 0 then print (''A certificate with a public key has been created.'' @ nl)
          else print (nl @ ''Failed to create a certificate with a public key. Error code: '' @ show_int res @ ''.''))
         (ret res))"

definition s_cert_rename :: "tool_sdk \<Rightarrow> argv \<Rightarrow> int tool" where
  "s_cert_rename d av =
     bnd (s_cert_copy d av True) (\<lambda>res.
     seq (if res = 0 then print (''Certificate renaming has been completed.'' @ nl)
          else print (nl @ ''Failed to rename the certificate.''))
         (ret res))"

text \<open>
  \<open>l_params\<close> is the NULL-terminated array \<open>dap_strsplit\<close> returns, so it is read like \<open>argv\<close>.
\<close>

definition s_cert_add_metadata :: "tool_sdk \<Rightarrow> argv \<Rightarrow> int tool" where
  "s_cert_add_metadata d av =
    (if 5 \<le> length av then
       bnd (arg av 3) (\<lambda>l_cert_name. bnd (get_state s_system_ca_dir) (\<lambda>dir.
       bnd (call (CertAddFile l_cert_name dir) (\<lambda>h. dap_cert_add_file d h l_cert_name dir)) (\<lambda>oc.
       case oc of
         None \<Rightarrow> die (''Can't open '' @ l_cert_name @ '' certificate'') (-800)
       | Some l_cert \<Rightarrow>
         bnd (arg av 4) (\<lambda>a4. let l_params = dap_strsplit d a4 '':'' 4 in
         bnd (arg l_params 1) (\<lambda>p1. let l_type = atoi p1 in
         seq (if l_type = DAP_CERT_META_STRING d \<or> l_type = DAP_CERT_META_SIGN d \<or> l_type = DAP_CERT_META_CUSTOM d
              then bnd (arg l_params 0) (\<lambda>p0. bnd (arg l_params 2) (\<lambda>p2. bnd (arg_opt l_params 3) (\<lambda>p3.
                perform (CertAddMeta l_cert_name p0 l_type p3 (strtoul p2)))))
              else bnd (arg l_params 0) (\<lambda>p0. bnd (arg l_params 3) (\<lambda>p3. bnd (arg l_params 2) (\<lambda>p2.
                perform (CertAddMetaScalar l_cert_name p0 l_type (strtoul p3) (strtoul p2))))))
        (seq (perform (CertSave l_cert dir))
        (seq (perform (CertDeleteByName l_cert_name))
        (seq (print (''The metainformation was successfully added to '' @ l_cert_name @ '' certificate'' @ nl))
             (ret 0)))))))))
     else die (''Wrong '' @ quoted ''cert add_metadata'' @ '' command params'' @ nl) (-800))"

definition s_cert_sign :: "argv \<Rightarrow> int tool" where
  "s_cert_sign av = seq (print (''The command '' @ quoted ''cert sign'' @ '' is not implemented.'')) (ret (-1))"

definition s_cert_pkey_show :: "tool_sdk \<Rightarrow> argv \<Rightarrow> int tool" where
  "s_cert_pkey_show d av =
    (if length av \<noteq> 5 then die (''Wrong '' @ quoted ''cert pkey show'' @ '' command params'' @ nl) (-800)
     else bnd (arg av 4) (\<lambda>a4.
       bnd (call (CertFind a4) (\<lambda>h. dap_cert_find_by_name d h a4)) (\<lambda>oc. case oc of
         None \<Rightarrow> die (''Not found cert '' @ a4 @ nl) (-134)
       | Some l_cert \<Rightarrow>
         bnd (query (\<lambda>h. dap_cert_get_pkey_hash d h l_cert)) (\<lambda>(rc, l_hash).
         if rc \<noteq> 0 then die (''Can't serialize cert '' @ a4) (-135)
         else seq (print (dap_chain_hash_fast_to_str_static d l_hash @ nl)) (ret 0)))))"

definition s_cert_pkey_show_full :: "tool_sdk \<Rightarrow> argv \<Rightarrow> int tool" where
  "s_cert_pkey_show_full d av =
    (if length av \<noteq> 5 then die (''Wrong '' @ quoted ''cert pkey show'' @ '' command params'' @ nl) (-800)
     else bnd (arg av 4) (\<lambda>a4.
       bnd (call (CertFind a4) (\<lambda>h. dap_cert_find_by_name d h a4)) (\<lambda>oc. case oc of
         None \<Rightarrow> die (''Not found cert '' @ a4 @ nl) (-134)
       | Some l_cert \<Rightarrow>
         bnd (query (\<lambda>h. dap_cert_get_pkey_hash d h l_cert)) (\<lambda>(rc, l_hash).
         if rc \<noteq> 0 then die (''Can't serialize cert '' @ a4) (-135)
         else bnd (query (\<lambda>h. dap_cert_get_pkey_str d h l_cert)) (\<lambda>l_pkey_str.
           seq (print (''hash: '' @ dap_chain_hash_fast_to_str_static d l_hash @ nl
                       @ ''pkey: '' @ l_pkey_str @ nl)) (ret 0))))))"

definition s_cert_get_addr :: "tool_sdk \<Rightarrow> argv \<Rightarrow> int tool" where
  "s_cert_get_addr d av =
    (if length av \<noteq> 5 then die (''Wrong '' @ quoted ''cert pkey show'' @ '' command params'' @ nl) (-900)
     else bnd (arg av 4) (\<lambda>a4.
       bnd (call (CertFind a4) (\<lambda>h. dap_cert_find_by_name d h a4)) (\<lambda>oc. case oc of
         None \<Rightarrow> die (''Not found cert '' @ a4 @ nl) (-134)
       | Some l_cert \<Rightarrow>
         bnd (query (\<lambda>h. dap_stream_node_addr_from_cert d h l_cert)) (\<lambda>l_addr.
         seq (print (dap_stream_node_addr_to_str_static d l_addr @ nl)) (ret 0)))))"

section \<open>Runs of the copying commands\<close>

text \<open>
  \<open>cert_copy_of d h n l_cert priv c\<close>: \<open>c\<close> is what \<open>s_cert_copy\<close> builds from \<open>l_cert\<close>: a certificate with
  the new name and the same key type, with a copy of the public key, and with a copy of
  the private key when \<open>priv\<close> asks for it and there is one.
\<close>

definition cert_copy_of :: "tool_sdk \<Rightarrow> hist \<Rightarrow> string \<Rightarrow> cert \<Rightarrow> bool \<Rightarrow> cert \<Rightarrow> bool" where
  "cert_copy_of d h n l_cert priv c \<longleftrightarrow>
     (\<exists>k pub pub2. dap_enc_key_new d h (key_type (cert_key l_cert)) = Some k
        \<and> pub_key_data (cert_key l_cert) = Some pub \<and> pub_key_data_size (cert_key l_cert) \<noteq> 0
        \<and> DAP_DUP_SIZE d h pub (pub_key_data_size (cert_key l_cert)) = Some pub2
        \<and> (let new1 = with_pub ((dap_cert_new d h n)\<lparr>cert_key := k\<rparr>) pub2 (pub_key_data_size (cert_key l_cert)) in
            if priv \<and> priv_key_data (cert_key l_cert) \<noteq> None \<and> priv_key_data_size (cert_key l_cert) \<noteq> 0
            then \<exists>priv2. DAP_DUP_SIZE d h (the (priv_key_data (cert_key l_cert))) (priv_key_data_size (cert_key l_cert))
                   = Some priv2 \<and> c = with_priv new1 priv2 (priv_key_data_size (cert_key l_cert))
            else c = new1))"

definition wiped :: "cert \<Rightarrow> cert" where
  "wiped c = c\<lparr>cert_key := (cert_key c)\<lparr>pub_key_data := None, priv_key_data := None\<rparr>\<rparr>"

text \<open>The calls of \<open>cert_copy_finish\<close>, in order, and its result.\<close>

definition copy_calls :: "tool_sdk \<Rightarrow> hist \<Rightarrow> string \<Rightarrow> string \<Rightarrow> cert \<Rightarrow> bool \<Rightarrow> cert \<Rightarrow> call list" where
  "copy_calls d h dir n l_cert priv c =
     CertSave c dir #
     (if dap_cert_save_to_folder d h c dir = 0 \<and> priv then [CertDeleteFile n dir] else []) @
     [CertDelete l_cert, CertDelete (wiped c)]"

definition copy_result :: "tool_sdk \<Rightarrow> hist \<Rightarrow> string \<Rightarrow> string \<Rightarrow> bool \<Rightarrow> cert \<Rightarrow> int" where
  "copy_result d h dir n priv c =
     (let saved = dap_cert_save_to_folder d h c dir in
      if saved = 0 \<and> priv then dap_cert_delete_file d (h @ [Called (CertSave c dir)]) n dir else saved)"

lemma cert_copy_finish_run:
  "cert_copy_finish d dir n l_cert priv c s =
     (Ret (copy_result d (trace s) dir n priv c),
      s\<lparr>trace := trace s @ map Called (copy_calls d (trace s) dir n l_cert priv c)\<rparr>)"
  by (simp add: cert_copy_finish_def copy_result_def copy_calls_def wiped_def prog_simps Let_def)

abbreviation copy_exits :: "int set" where
  "copy_exits \<equiv> {-7021, -7022, -7023}"

lemma s_cert_copy_cases:
  fixes d av priv s
  defines "dir \<equiv> s_system_ca_dir s"
  defines "h \<equiv> trace s @ [Called (CertAddFile (av ! 3) dir)]"
  assumes run: "s_cert_copy d av priv s = (r, t)"
  shows "(\<exists>l_cert c. 5 \<le> length av \<and> dap_cert_add_file d (trace s) (av ! 3) dir = Some l_cert
           \<and> \<not> dap_file_test d h (cert_file dir (av ! 4)) \<and> cert_copy_of d h (av ! 4) l_cert priv c
           \<and> r = Ret (copy_result d h dir (av ! 3) priv c)
           \<and> t = s\<lparr>trace := h @ map Called (copy_calls d h dir (av ! 3) l_cert priv c)\<rparr>)
    \<or> (r = Ret (-1) \<or> (\<exists>e \<in> copy_exits. r = Exit e) \<or> r = Crash NullDeref)
      \<and> set (new_calls s t) \<subseteq> {CertAddFile (av ! 3) dir}"
proof (cases "length av < 5")
  case True
  with run show ?thesis by (auto simp: s_cert_copy_def die_app new_calls_def)
next
  case False
  note len = this
  show ?thesis
  proof (cases "dap_cert_add_file d (trace s) (av ! 3) dir")
    case None
    with run len show ?thesis
      by (auto simp: s_cert_copy_def dir_def prog_simps new_calls_def)
  next
    case (Some l_cert)
    with run len show ?thesis
      by (auto simp: s_cert_copy_def dir_def h_def prog_simps new_calls_def cert_copy_of_def
          cert_copy_finish_run Let_def split: option.splits if_splits)
  qed
qed

text \<open>What the code relies on in the SDK: a fresh key has no private part; \<open>DAP_DUP_SIZE\<close> copies.\<close>

definition fresh_key_ok :: "tool_sdk \<Rightarrow> bool" where
  "fresh_key_ok d \<longleftrightarrow> (\<forall>h ty k. dap_enc_key_new d h ty = Some k \<longrightarrow>
     key_type k = ty \<and> priv_key_data k = None \<and> priv_key_data_size k = 0)"

definition dup_ok :: "tool_sdk \<Rightarrow> bool" where
  "dup_ok d \<longleftrightarrow> (\<forall>h b n b2. DAP_DUP_SIZE d h b n = Some b2 \<longrightarrow> b2 = take n b)"

text \<open>The sizes stored in a key are the sizes of its buffers; no buffer, no size.\<close>

fun buffer_size :: "bytes option \<Rightarrow> nat" where
  "buffer_size None = 0"
| "buffer_size (Some b) = length b"

definition key_wf :: "enc_key \<Rightarrow> bool" where
  "key_wf k \<longleftrightarrow> pub_key_data_size k = buffer_size (pub_key_data k)
     \<and> priv_key_data_size k = buffer_size (priv_key_data k) \<and> priv_key_data k \<noteq> Some []"

lemma cert_copy_of_key:
  assumes "cert_copy_of d h n l_cert priv c" and "fresh_key_ok d" and "dup_ok d" and "key_wf (cert_key l_cert)"
  shows "cert_key c = (if priv then cert_key l_cert
      else (cert_key l_cert)\<lparr>priv_key_data := None, priv_key_data_size := 0\<rparr>)"
proof -
  let ?k = "cert_key l_cert"
  from assms(1) obtain k pub pub2 where k: "dap_enc_key_new d h (key_type ?k) = Some k"
    and pub: "pub_key_data ?k = Some pub" "DAP_DUP_SIZE d h pub (pub_key_data_size ?k) = Some pub2"
    and c: "let new1 = with_pub ((dap_cert_new d h n)\<lparr>cert_key := k\<rparr>) pub2 (pub_key_data_size ?k) in
        if priv \<and> priv_key_data ?k \<noteq> None \<and> priv_key_data_size ?k \<noteq> 0
        then \<exists>priv2. DAP_DUP_SIZE d h (the (priv_key_data ?k)) (priv_key_data_size ?k) = Some priv2
               \<and> c = with_priv new1 priv2 (priv_key_data_size ?k)
        else c = new1"
    unfolding cert_copy_of_def by blast
  have fresh: "key_type k = key_type ?k" "priv_key_data k = None" "priv_key_data_size k = 0"
    using assms(2) k by (auto simp: fresh_key_ok_def)
  have dup: "DAP_DUP_SIZE d h b m = Some b2 \<Longrightarrow> b2 = take m b" for b m b2
    using assms(3) by (auto simp: dup_ok_def)
  have sizes: "pub_key_data_size ?k = length pub" "pub2 = pub"
    using assms(4) pub dup [OF pub(2)] by (simp_all add: key_wf_def)
  show ?thesis
    using c assms(4) fresh pub(1) sizes
    by (cases "priv_key_data ?k")
      (auto simp: Let_def key_wf_def with_pub_def with_priv_def dest!: dup split: if_splits)
qed

lemma cert_copy_of_public:
  assumes "cert_copy_of d h n l_cert False c" and "fresh_key_ok d"
  shows "priv_key_data (cert_key c) = None \<and> priv_key_data_size (cert_key c) = 0"
  using assms by (auto simp: cert_copy_of_def fresh_key_ok_def with_pub_def Let_def)

lemma new_calls_ext:
  "t = s\<lparr>trace := trace s @ es\<rparr> \<Longrightarrow> new_calls s t = [c. Called c \<leftarrow> es]"
  by (simp add: new_calls_def)

lemma called_list [simp]:
  "concat (map (case_event (\<lambda>_. []) (\<lambda>c. [c]) \<circ> Called) cs) = cs"
  by (induction cs) simp_all

text \<open>The wrappers add one message to what \<open>s_cert_copy\<close> did.\<close>

lemma s_cert_create_cert_pkey_run:
  assumes "s_cert_create_cert_pkey d av s = (r, t)"
  shows "\<exists>u. s_cert_copy d av False s = (r, u) \<and> prints_only u t"
  using assms
  by (auto simp: s_cert_create_cert_pkey_def prog_simps prints_only_print printing.R_refl
      split: prod.splits res.splits if_splits)

lemma s_cert_rename_run:
  assumes "s_cert_rename d av s = (r, t)"
  shows "\<exists>u. s_cert_copy d av True s = (r, u) \<and> prints_only u t"
  using assms
  by (auto simp: s_cert_rename_def prog_simps prints_only_print printing.R_refl
      split: prod.splits res.splits if_splits)

lemma new_calls_prints: "prints_only u t \<Longrightarrow> grows s u \<Longrightarrow> new_calls s t = new_calls s u"
  by (auto simp: prints_only_def new_calls_def grows_def)

lemma s_cert_copy_grows: "s_cert_copy d av priv s = (r, t) \<Longrightarrow> grows s t"
proof -
  have "keeps grows (s_cert_copy d av priv)"
    unfolding s_cert_copy_def cert_copy_finish_def by (intro grows_rules)
  then show "s_cert_copy d av priv s = (r, t) \<Longrightarrow> grows s t"
    unfolding keeps_def by (metis snd_conv)
qed

section \<open>Properties\<close>

text \<open>
  C4. \<^verbatim>\<open>cert rename\<close> removes a certificate file only as the last step of a successful copy: the
  calls of the run are then exactly load, save, remove, free, free; the certificate was
  saved without error under a name no file had; and the saved key is the key that was
  loaded, private part included.
\<close>

theorem cert_rename_deletes_after_save:
  assumes "s_cert_rename d av s = (r, t)" and "CertDeleteFile n dir \<in> set (new_calls s t)"
    and "fresh_key_ok d" and "dup_ok d"
    and "\<forall>l_cert. dap_cert_add_file d (trace s) (av ! 3) (s_system_ca_dir s) = Some l_cert \<longrightarrow> key_wf (cert_key l_cert)"
  shows "n = av ! 3 \<and> dir = s_system_ca_dir s \<and> (\<exists>l_cert c. dap_cert_add_file d (trace s) n dir = Some l_cert
     \<and> new_calls s t = [CertAddFile n dir, CertSave c dir, CertDeleteFile n dir, CertDelete l_cert, CertDelete (wiped c)]
     \<and> dap_cert_save_to_folder d (trace s @ [Called (CertAddFile n dir)]) c dir = 0
     \<and> \<not> dap_file_test d (trace s @ [Called (CertAddFile n dir)]) (cert_file dir (av ! 4))
     \<and> cert_key c = cert_key l_cert)"
proof -
  obtain u where u: "s_cert_copy d av True s = (r, u)" "prints_only u t"
    using s_cert_rename_run [OF assms(1)] by blast
  have calls: "new_calls s t = new_calls s u"
    using new_calls_prints [OF u(2) s_cert_copy_grows [OF u(1)]] .
  from s_cert_copy_cases [OF u(1)] show ?thesis
  proof (elim disjE exE conjE)
    fix l_cert c
    let ?h = "trace s @ [Called (CertAddFile (av ! 3) (s_system_ca_dir s))]"
    assume l: "dap_cert_add_file d (trace s) (av ! 3) (s_system_ca_dir s) = Some l_cert"
      and f: "\<not> dap_file_test d ?h (cert_file (s_system_ca_dir s) (av ! 4))"
      and c: "cert_copy_of d ?h (av ! 4) l_cert True c"
      and t: "u = s\<lparr>trace := ?h @ map Called (copy_calls d ?h (s_system_ca_dir s) (av ! 3) l_cert True c)\<rparr>"
    have eq: "new_calls s u = CertAddFile (av ! 3) (s_system_ca_dir s)
        # copy_calls d ?h (s_system_ca_dir s) (av ! 3) l_cert True c"
      using t by (simp add: new_calls_def)
    have "cert_key c = cert_key l_cert"
      using cert_copy_of_key [OF c assms(3,4)] assms(5) l by simp
    with eq assms(2) l f show ?thesis
      by (auto simp: calls copy_calls_def split: if_splits)
  qed (use assms(2) calls in auto)
qed

text \<open>
  C5. \<^verbatim>\<open>cert create_cert_pkey\<close> never saves a private key: every certificate it saves has an empty
  private part, whatever the certificate it was made from holds, and it removes no file.
\<close>

theorem cert_export_public_only:
  assumes "s_cert_create_cert_pkey d av s = (r, t)" and "fresh_key_ok d"
  shows "(\<forall>c dir. CertSave c dir \<in> set (new_calls s t) \<longrightarrow>
            priv_key_data (cert_key c) = None \<and> priv_key_data_size (cert_key c) = 0)
     \<and> (\<forall>n dir. CertDeleteFile n dir \<notin> set (new_calls s t))"
proof -
  obtain u where u: "s_cert_copy d av False s = (r, u)" "prints_only u t"
    using s_cert_create_cert_pkey_run [OF assms(1)] by blast
  have calls: "new_calls s t = new_calls s u"
    using new_calls_prints [OF u(2) s_cert_copy_grows [OF u(1)]] .
  from s_cert_copy_cases [OF u(1)] show ?thesis
  proof (elim disjE exE conjE)
    fix l_cert c
    let ?h = "trace s @ [Called (CertAddFile (av ! 3) (s_system_ca_dir s))]"
    assume c: "cert_copy_of d ?h (av ! 4) l_cert False c"
      and t: "u = s\<lparr>trace := ?h @ map Called (copy_calls d ?h (s_system_ca_dir s) (av ! 3) l_cert False c)\<rparr>"
    have "new_calls s u = CertAddFile (av ! 3) (s_system_ca_dir s)
        # copy_calls d ?h (s_system_ca_dir s) (av ! 3) l_cert False c"
      using t by (simp add: new_calls_def)
    with cert_copy_of_public [OF c assms(2)] show ?thesis
      by (auto simp: calls copy_calls_def)
  qed (use calls in auto)
qed

lemma cert_create_path_full: "cert_create_path dir n = cert_file dir n"
  by (simp add: cert_create_path_def cert_file_def Let_def)

text \<open>
  C6. \<^verbatim>\<open>cert create\<close> returns normally only with 0, and then it saved without error a
  certificate it had just registered, into the certificate directory, where no file of
  that name existed: the path it tests is the full path, never cut by its buffer. In
  every other run it exits with one of the codes below; -601, the answer for
  \<^verbatim>\<open>sig_multi_chained\<close>, is not among them.
\<close>

theorem cert_create_outcome:
  assumes "s_cert_create d av s = (r, t)"
  shows "(r = Ret 0 \<and> \<not> access_F_OK d (trace s) (cert_file (s_system_ca_dir s) (av ! 3))
       \<and> (\<exists>g c. new_calls s t = [g, CertAdd c, CertSave c (s_system_ca_dir s), CertDelete c]
            \<and> dap_cert_add d (trace s @ [Called g]) c = 0
            \<and> dap_cert_save_to_folder d (trace s @ [Called g, Called (CertAdd c)]) c (s_system_ca_dir s) = 0))
     \<or> (\<exists>e \<in> {-500, -600, -602, -603, -700}. r = Exit e)"
proof (cases "length av < 5")
  case True
  with assms show ?thesis by (auto simp: s_cert_create_def dest: die_helpD)
next
  case False
  show ?thesis
  proof (cases "access_F_OK d (trace s) (cert_file (s_system_ca_dir s) (av ! 3))
      \<or> seed_scan (drop 5 av) None = None
      \<or> dap_sign_type_to_key_type d (dap_sign_type_from_str d (Some (av ! 4))) = DAP_ENC_KEY_TYPE_INVALID d")
    case True
    with assms False show ?thesis
      by (auto simp: s_cert_create_def cert_create_path_full prog_simps Let_def
          dest: die_helpD split: option.splits if_splits)
  next
    case False
    with assms \<open>\<not> length av < 5\<close> show ?thesis
      by (auto simp: s_cert_create_def cert_create_path_full prog_simps Let_def new_calls_def
          split: option.splits list.splits if_splits)
  qed
qed

text \<open>
  \<^verbatim>\<open>cert add_metadata\<close> on a certificate it can open dereferences a NULL pointer when the
  argument splits into fewer than three fields (four, for a type that is a number), and
  otherwise adds exactly one metadata item, saves the certificate and returns 0.
\<close>

theorem cert_add_metadata_fields:
  assumes "5 \<le> length av" and "dap_cert_add_file d (trace s) (av ! 3) (s_system_ca_dir s) = Some l_cert"
    and "dap_strsplit d (av ! 4) '':'' 4 = ps" and "2 \<le> length ps"
    and "textual = (atoi (ps ! 1) \<in> {DAP_CERT_META_STRING d, DAP_CERT_META_SIGN d, DAP_CERT_META_CUSTOM d})"
  shows "(if 4 \<le> length ps \<or> length ps = 3 \<and> textual
     then \<exists>t m. s_cert_add_metadata d av s = (Ret 0, t)
       \<and> new_calls s t = [CertAddFile (av ! 3) (s_system_ca_dir s), m,
            CertSave l_cert (s_system_ca_dir s), CertDeleteByName (av ! 3)]
       \<and> m = (if textual then CertAddMeta (av ! 3) (ps ! 0) (atoi (ps ! 1))
                  (if 4 \<le> length ps then Some (ps ! 3) else None) (strtoul (ps ! 2))
              else CertAddMetaScalar (av ! 3) (ps ! 0) (atoi (ps ! 1)) (strtoul (ps ! 3)) (strtoul (ps ! 2)))
     else is_crash (fst (s_cert_add_metadata d av s)))"
  using assms
  by (auto simp: s_cert_add_metadata_def prog_simps Let_def new_calls_def)

section \<open>Witnesses\<close>

lemma sample_sdk_ok: "fresh_key_ok sample_sdk" "dup_ok sample_sdk" "key_wf sample_key"
  by (simp_all add: fresh_key_ok_def dup_ok_def key_wf_def sample_sdk_def sample_key_def)

definition sample_rename :: argv where
  "sample_rename = [''tool'', ''cert'', ''rename'', ''root'', ''node'']"

lemma sample_rename_calls:
  "\<exists>r t. s_cert_rename sample_sdk sample_rename sample_state = (r, t)
     \<and> CertDeleteFile ''root'' ''/opt/ca'' \<in> set (new_calls sample_state t)"
  by (simp add: s_cert_rename_def s_cert_copy_def cert_copy_finish_def sample_rename_def sample_simps
      prog_simps Let_def new_calls_def)

theorem cert_rename_deletes_after_save_witness:
  "\<exists>r t c. s_cert_rename sample_sdk sample_rename sample_state = (r, t)
     \<and> CertSave c ''/opt/ca'' \<in> set (new_calls sample_state t) \<and> cert_key c = sample_key"
proof -
  obtain r t where run: "s_cert_rename sample_sdk sample_rename sample_state = (r, t)"
    and del: "CertDeleteFile ''root'' ''/opt/ca'' \<in> set (new_calls sample_state t)"
    using sample_rename_calls by blast
  have loaded: "dap_cert_add_file sample_sdk h ''root'' dir = Some \<lparr>cert_name = ''root'', cert_key = sample_key\<rparr>" for h dir
    by (simp add: sample_sdk_def)
  from cert_rename_deletes_after_save [OF run del sample_sdk_ok(1,2)] sample_sdk_ok(3) run show ?thesis
    by (auto simp: loaded sample_rename_def)
qed

theorem cert_export_public_only_witness:
  "\<exists>r t c. s_cert_create_cert_pkey sample_sdk sample_rename sample_state = (r, t)
     \<and> CertSave c ''/opt/ca'' \<in> set (new_calls sample_state t) \<and> priv_key_data (cert_key c) = None"
proof -
  obtain r t c where run: "s_cert_create_cert_pkey sample_sdk sample_rename sample_state = (r, t)"
    and save: "CertSave c ''/opt/ca'' \<in> set (new_calls sample_state t)"
    by (simp add: s_cert_create_cert_pkey_def s_cert_copy_def cert_copy_finish_def sample_rename_def
        sample_simps prog_simps Let_def new_calls_def)
  from cert_export_public_only [OF run sample_sdk_ok(1)] run save show ?thesis by blast
qed

definition sample_cert_create :: argv where
  "sample_cert_create = [''tool'', ''cert'', ''create'', ''node'', ''sig_dil'']"

theorem cert_create_outcome_witness:
  "fst (s_cert_create sample_sdk sample_cert_create sample_state) = Ret 0
   \<and> (\<exists>g c. new_calls sample_state (snd (s_cert_create sample_sdk sample_cert_create sample_state))
         = [g, CertAdd c, CertSave c ''/opt/ca'', CertDelete c])"
proof -
  have dir: "s_system_ca_dir sample_state = ''/opt/ca''" by (simp add: sample_state_def)
  obtain t where run: "s_cert_create sample_sdk sample_cert_create sample_state = (Ret 0, t)"
    by (simp add: s_cert_create_def sample_cert_create_def sample_simps prog_simps Let_def)
  from cert_create_outcome [OF run] show ?thesis by (auto simp: run dir)
qed

theorem cert_add_metadata_fields_witness:
  "\<exists>t. s_cert_add_metadata sample_sdk [''tool'', ''cert'', ''add_metadata'', ''root'', ''key:1:5:value''] sample_state
      = (Ret 0, t)"
proof -
  have "dap_cert_add_file sample_sdk h ''root'' dir = Some \<lparr>cert_name = ''root'', cert_key = sample_key\<rparr>"
    and "dap_strsplit sample_sdk a b n = [''key'', ''1'', ''5'', ''value'']" for h dir a b n
    by (simp_all add: sample_sdk_def)
  with cert_add_metadata_fields [where av = "[''tool'', ''cert'', ''add_metadata'', ''root'', ''key:1:5:value'']"
      and d = sample_sdk and s = sample_state, OF _ _ refl _ refl]
  show ?thesis by auto
qed

end
