(* ===== verification/Tool_Main.thy ===== *)
theory Tool_Main
  imports Tool_Cert
begin

text \<open>
  The entry point of \<^verbatim>\<open>sources/main_node_tool.c\<close>: \<open>s_init\<close>, the table \<open>s_opts\<close>, the loop of \<open>main\<close> that
  finds and runs a command, and two helpers no command uses. Then: the loop runs exactly
  the command the table gives for the words of the command line, what the option \<^verbatim>\<open>-B\<close>
  does to it, the exit status of every failing command, and which commands are free of
  undefined behaviour.
\<close>

section \<open>Initialisation\<close>

datatype platform = Windows | MacOS | Unix

definition default_sys_dir :: "platform \<Rightarrow> 'z base_sdk_scheme \<Rightarrow> string" where
  "default_sys_dir pl d = (case pl of
      Windows \<Rightarrow> regGetUsrPath d @ ''/'' @ dap_get_appname d
    | MacOS \<Rightarrow> ''/Library/Application Support/CellframeNode/''
    | Unix \<Rightarrow> ''/opt/'' @ dap_get_appname d)"

text \<open>
  The end of \<open>s_init\<close>: \<open>dap_strncpy\<close> returns the offset behind the copied string, and the
  character before it is cut when it is a slash; with an empty string that character lies
  in front of the array.
\<close>

definition store_ca_dir :: "'z base_sdk_scheme \<Rightarrow> string \<Rightarrow> unit tool" where
  "store_ca_dir d l_ca_path =
     (let (buf, l_pos) = dap_strncpy d l_ca_path (MAX_PATH d) in
      if l_pos = 0 then crash OutOfBounds
      else modify (\<lambda>s. s\<lparr>s_system_ca_dir :=
        (if l_pos - 1 < length buf \<and> buf ! (l_pos - 1) = CHR ''/'' then take (l_pos - 1) buf else buf)\<rparr>))"

definition s_init :: "'z base_sdk_scheme \<Rightarrow> int tool" where
  "s_init d =
     bnd (call (CommonInit (dap_get_appname d)) (\<lambda>h. dap_common_init d h (dap_get_appname d))) (\<lambda>rc.
     if rc \<noteq> 0 then seq (print ''Fatal Error: Can't init common functions module'') (ret (-2))
     else seq (perform (LogLevelSet ''L_ERROR''))
    (bnd (get_state g_sys_dir_path) (\<lambda>sys. case sys of
       None \<Rightarrow> crash NullDeref
     | Some dir \<Rightarrow>
       let l_config_dir = take (MAX_PATH d - 1) (dir @ ''/etc'');
           fail = seq (print (''Can't init general config '' @ dquoted (l_config_dir @ ''/'' @ dap_get_appname d @ ''.cfg'') @ nl))
                      (ret (-3)) in
       bnd (call (ConfigInit l_config_dir) (\<lambda>h. dap_config_init d h l_config_dir)) (\<lambda>ci.
       if ci \<noteq> 0 then fail
       else bnd (call (ConfigOpen (dap_get_appname d)) (\<lambda>h. dap_config_open d h (dap_get_appname d))) (\<lambda>co.
       if \<not> co then fail
       else bnd (query (\<lambda>h. dap_config_get_item_str_path_default d h ''resources'' ''ca_folders'' ''.'')) (\<lambda>l_ca_path.
         bnd (query (\<lambda>h. dap_config_get_item_str_path_default d h ''resources'' ''wallets_path'' ''.'')) (\<lambda>l_wal_path.
         seq (store_ca_dir d l_ca_path)
        (seq (modify (\<lambda>s. s\<lparr>s_system_wallet_dir := fst (dap_strncpy d l_wal_path (MAX_PATH d))\<rparr>))
             (ret 0)))))))))"

section \<open>The command table\<close>

type_synonym option_row = "string \<times> string list \<times> (argv \<Rightarrow> int tool)"

definition s_opts :: "tool_sdk \<Rightarrow> option_row list" where
  "s_opts d =
    [(''wallet'', [''create''], s_wallet_create d),
     (''wallet'', [''create_from''], s_wallet_create_from),
     (''wallet'', [''create_wp''], s_wallet_create_wp d),
     (''wallet'', [''pkey'', ''show''], s_wallet_pkey_show d),
     (''wallet'', [''pkey'', ''show_full''], s_wallet_pkey_show_full d),
     (''cert'', [''create''], s_cert_create d),
     (''cert'', [''dump''], s_cert_dump d),
     (''cert'', [''create_pkey''], s_cert_create_pkey d),
     (''cert'', [''create_cert_pkey''], s_cert_create_cert_pkey d),
     (''cert'', [''rename''], s_cert_rename d),
     (''cert'', [''add_metadata''], s_cert_add_metadata d),
     (''cert'', [''sign''], s_cert_sign),
     (''cert'', [''pkey'', ''show''], s_cert_pkey_show d),
     (''cert'', [''pkey'', ''show_full''], s_cert_pkey_show_full d),
     (''cert'', [''addr'', ''show''], s_cert_get_addr d)]"

section \<open>main\<close>

text \<open>The inner loop of \<open>main\<close> over the subcommands of a row; \<open>l_argvi\<close> is the last index read.\<close>

fun match_subs :: "argv \<Rightarrow> string list \<Rightarrow> nat \<Rightarrow> bool" where
  "match_subs av [] l_argvi = True"
| "match_subs av (x # xs) l_argvi =
     (let i = Suc l_argvi in
      if length av - 1 < i \<or> \<not> strncmp_0 x (av ! i) (Suc (length (av ! i))) then False
      else match_subs av xs i)"

text \<open>
  The loop over \<open>s_opts\<close>: the pair is \<open>l_err\<close> and \<open>l_ret_cmd\<close> when it is left. The guard
  \<open>argc >= l_argvi\<close> admits \<open>argv[argc]\<close>, the NULL pointer.
\<close>

fun dispatch :: "option_row list \<Rightarrow> argv \<Rightarrow> nat \<Rightarrow> int \<Rightarrow> (int \<times> int) tool" where
  "dispatch [] av start l_err = ret (l_err, -1)"
| "dispatch ((cmd, subs, handler) # opts) av start l_err =
     (if start \<le> length av then
        bnd (arg av start) (\<lambda>a.
          if strncmp_0 cmd a (Suc (length a)) then
            (if match_subs av subs start then bnd (handler av) (\<lambda>r. ret (0, r))
             else dispatch opts av start (-1))
          else dispatch opts av start l_err)
      else dispatch opts av start l_err)"

definition free_sys_dir :: "unit tool" where
  "free_sys_dir = modify (\<lambda>s. s\<lparr>g_sys_dir_path := None\<rparr>)"

text \<open>\<open>main\<close> behind the handling of \<^verbatim>\<open>-B\<close>.\<close>

definition tool_run :: "tool_sdk \<Rightarrow> argv \<Rightarrow> nat \<Rightarrow> int tool" where
  "tool_run d av l_argv_start =
    (if length av < 2 then seq (s_help d) (seq free_sys_dir (ret (-2)))
     else bnd (s_init d) (\<lambda>rc.
       if rc \<noteq> 0 then seq (print ''Can't init modules'') (seq free_sys_dir (ret (-3)))
       else bnd (dispatch (s_opts d) av l_argv_start (-2)) (\<lambda>(l_err, l_ret_cmd).
         seq (if l_err = -2 then seq (print (''Command '' @ dquoted (av ! 1) @ '' not found.'' @ nl)) (s_help d)
              else if l_err = -1
              then seq (print (''No subcommand was found for command '' @ dquoted (av ! 1) @ ''.'' @ nl)) (s_help d)
              else ret ())
        (seq (perform ConfigClose)
        (seq free_sys_dir
             (ret (if l_err \<noteq> 0 then l_err else l_ret_cmd)))))))"

definition tool_main :: "platform \<Rightarrow> tool_sdk \<Rightarrow> argv \<Rightarrow> int tool" where
  "tool_main pl d av =
    (if 2 < length av \<and> dap_strcmp d ''-B'' (av ! 1) = 0 then
       seq (modify (\<lambda>s. s\<lparr>g_sys_dir_path := Some (av ! 2)\<rparr>))
      (bnd (query (\<lambda>h. dap_dir_test d h (av ! 2))) (\<lambda>ok.
       if \<not> ok then seq (print (''Invalid path '' @ dquoted (av ! 2))) (seq free_sys_dir (ret (-1)))
       else tool_run d (drop 2 av) 3))
     else seq (modify (\<lambda>s. s\<lparr>g_sys_dir_path := Some (default_sys_dir pl d)\<rparr>))
         (tool_run d av 1))"

section \<open>Helpers without a caller\<close>

text \<open>\<open>s_is_file_available\<close>: a NULL extension is formatted by \<^verbatim>\<open>%s\<close>.\<close>

definition s_is_file_available :: "'z base_sdk_scheme \<Rightarrow> string \<Rightarrow> string \<Rightarrow> string option \<Rightarrow> int tool" where
  "s_is_file_available d l_path name ext = (case ext of
      None \<Rightarrow> crash NullDeref
    | Some e \<Rightarrow>
      bnd (query (\<lambda>h. access_F_OK d h (take (MAX_PATH d - 1) (l_path @ ''/'' @ name @ e)))) (\<lambda>ok.
        ret (if ok then 0 else -1)))"

text \<open>
  \<open>s_fill_hash_key_for_data\<close>: the SDK's sizes and serializations are arguments; \<open>data\<close> is the
  buffer behind \<open>l_data\<close>. The size of the public key is stored in 32 bits before the hash
  is taken.
\<close>

definition s_fill_hash_key_for_data ::
  "nat \<Rightarrow> bytes option \<Rightarrow> bytes option \<Rightarrow> (bytes \<Rightarrow> bytes) \<Rightarrow> nat \<Rightarrow> bytes \<Rightarrow> bytes res" where
  "s_fill_hash_key_for_data sign_size pub_key sign_ser hash_fast hash_size data =
    (if sign_size > 0 then
       (case pub_key of
         None \<Rightarrow> Ret data
       | Some l_pub_key \<Rightarrow>
         (case sign_ser of
           None \<Rightarrow> Ret data
         | Some l_sign_ser \<Rightarrow>
           let pkey_n_sign = l_pub_key @ l_sign_ser;
               sign_pkey_size = unat (word_of_nat (length l_pub_key) :: 32 word);
               raw = hash_fast (take sign_pkey_size pkey_n_sign) in
           if length data < hash_size \<or> length raw < hash_size then Crash OutOfBounds
           else Ret (take hash_size raw @ drop hash_size data)))
     else Ret data)"

section \<open>Dispatch finds the command\<close>

text \<open>The specification: the words behind position \<open>start\<close> are the words of the row.\<close>

definition row_at :: "argv \<Rightarrow> nat \<Rightarrow> option_row \<Rightarrow> bool" where
  "row_at av start row \<longleftrightarrow>
     (case row of (cmd, subs, h) \<Rightarrow> av ! start = cmd \<and> take (length subs) (drop (Suc start) av) = subs)"

lemma match_subs_iff:
  "i < length av \<Longrightarrow> match_subs av subs i \<longleftrightarrow> take (length subs) (drop (Suc i) av) = subs"
proof (induction subs arbitrary: i)
  case Nil
  then show ?case by simp
next
  case (Cons x xs)
  show ?case
  proof (cases "Suc i < length av")
    case True
    then have "drop (Suc i) av = av ! Suc i # drop (Suc (Suc i)) av"
      by (simp add: Cons_nth_drop_Suc)
    with True Cons.IH [of "Suc i"] show ?thesis
      by (auto simp: strncmp_0_full)
  next
    case False
    with Cons.prems have "length av - 1 < Suc i" by simp
    with False show ?thesis by simp
  qed
qed

lemma dispatch_find:
  "start < length av \<Longrightarrow> dispatch opts av start l_err =
     (case find (row_at av start) opts of
        Some (cmd, subs, h) \<Rightarrow> bnd (h av) (\<lambda>r. ret (0, r))
      | None \<Rightarrow> ret (if \<exists>row \<in> set opts. fst row = av ! start then -1 else l_err, -1))"
proof (induction opts arbitrary: l_err)
  case Nil
  then show ?case by simp
next
  case (Cons row opts)
  obtain cmd subs h where row: "row = (cmd, subs, h)" by (cases row) auto
  show ?case
    using Cons by (simp add: row row_at_def arg_def bnd_ret_left strncmp_0_full match_subs_iff split: option.split) auto
qed

lemma case_s_help:
  "(case s_help d s of (Ret a, t) \<Rightarrow> f a t | (Exit e, t) \<Rightarrow> g e t | (Crash u, t) \<Rightarrow> h u t)
     = f () (snd (s_help d s))"
  using s_help_run [of d s] by auto

lemmas run_simps = bnd_app seq_app ret_app perform_app modify_app free_sys_dir_def print_app case_s_help

lemma tool_run_spec:
  assumes "2 \<le> length av" and "start < length av" and "s_init d s = (Ret 0, s1)"
  shows "fst (tool_run d av start s) =
    (case find (row_at av start) (s_opts d) of
       Some (cmd, subs, h) \<Rightarrow> fst (h av s1)
     | None \<Rightarrow> Ret (if av ! start \<in> {''wallet'', ''cert''} then -1 else -2))"
proof -
  have cmds: "(\<exists>row \<in> set (s_opts d). fst row = av ! start) \<longleftrightarrow> av ! start \<in> {''wallet'', ''cert''}"
    by (auto simp: s_opts_def)
  show ?thesis
  proof (cases "find (row_at av start) (s_opts d)")
    case None
    with assms show ?thesis
      by (simp add: tool_run_def dispatch_find cmds run_simps)
  next
    case (Some row)
    obtain cmd subs h where row: "row = (cmd, subs, h)" by (cases row) auto
    obtain r s2 where h: "h av s1 = (r, s2)" by fastforce
    show ?thesis
      using assms Some row h
      by (cases r) (simp_all add: tool_run_def dispatch_find run_simps)
  qed
qed


text \<open>
  With \<^verbatim>\<open>-B <dir>\<close> the command is looked up two words too far: \<open>argv\<close> has already been
  advanced by two, and \<open>l_argv_start\<close> as well. A command with one more word dereferences NULL;
  with fewer words nothing is found; otherwise the word compared with the table is the third
  behind the directory, so \<^verbatim>\<open>wallet create <name> <type>\<close> runs no command.
\<close>

theorem tool_main_B_misses_command:
  assumes "strcmp_ok d" and "dap_dir_test d (trace s) dir"
    and "s_init d (s\<lparr>g_sys_dir_path := Some dir\<rparr>) = (Ret 0, s1)"
  shows "fst (tool_main pl d (prog # ''-B'' # dir # cmd # rest) s) =
    (if length rest = 0 then Ret (-2)
     else if length rest = 1 then Crash NullDeref
     else if rest ! 1 \<in> {''wallet'', ''cert''} then
       (case find (row_at (dir # cmd # rest) 3) (s_opts d) of
          Some (c, subs, h) \<Rightarrow> fst (h (dir # cmd # rest) s1) | None \<Rightarrow> Ret (-1))
     else Ret (-2))"
proof -
  have strcmp: "dap_strcmp d ''-B'' ''-B'' = 0"
    using assms(1) by (simp add: strcmp_ok_def)
  have main: "tool_main pl d (prog # ''-B'' # dir # cmd # rest) s
      = tool_run d (dir # cmd # rest) 3 (s\<lparr>g_sys_dir_path := Some dir\<rparr>)"
    using strcmp assms(2) by (simp add: tool_main_def prog_simps)
  consider "rest = []" | x where "rest = [x]" | x y zs where "rest = x # y # zs"
    by (metis list.exhaust)
  then show ?thesis
  proof cases
    case 1
    have "dispatch (s_opts d) [dir, cmd] 3 (-2) = ret (-2, -1)"
      by (simp add: s_opts_def)
    with 1 assms(3) main show ?thesis by (simp add: tool_run_def run_simps)
  next
    case 2
    have "dispatch (s_opts d) [dir, cmd, x] 3 (-2) s1 = (Crash NullDeref, s1)"
      by (simp add: s_opts_def bnd_app arg_app)
    with 2 assms(3) main show ?thesis by (simp add: tool_run_def run_simps)
  next
    case 3
    have none: "y \<notin> {''wallet'', ''cert''} \<Longrightarrow> find (row_at (dir # cmd # x # y # zs) 3) (s_opts d) = None"
      by (auto simp: find_None_iff row_at_def s_opts_def)
    from 3 main tool_run_spec [OF _ _ assms(3), of "dir # cmd # x # y # zs" 3] show ?thesis
      by (auto simp: none split: option.splits)
  qed
qed

section \<open>Exit codes\<close>

lemma exits_help: "exits E (s_help d)"
  using s_help_run [of d] unfolding exits_def by (metis Pair_inject res.distinct(1))

lemma exits_die_help: "e \<in> E \<Longrightarrow> exits E (die_help d m e)"
  unfolding die_help_def by (intro tool_exits exits_help)

lemma exits_multi_types: "{-2007, -2008} \<subseteq> E \<Longrightarrow> exits E (multi_types d as ts)"
  unfolding exits_def
proof (intro allI impI)
  fix s e t
  assume "{-2007, -2008} \<subseteq> E" and "multi_types d as ts s = (Exit e, t)"
  then show "e \<in> E" using multi_types_run [of d as ts s] by auto
qed

lemmas handler_exits = tool_exits exits_help exits_die_help exits_multi_types

definition tool_codes :: "int set" where
  "tool_codes = {-2003, -2004, -2006, -2007, -2008, -2009, -134, -135, -136, -500, -600, -601, -602, -603,
     -700, -702, -800, -900, -7021, -7022, -7023}"

lemma tool_codes_status: "e \<in> tool_codes \<Longrightarrow> exit_status e \<noteq> 0"
  by (auto simp: tool_codes_def exit_status_0_iff)

lemma wallet_handlers_exits:
  "exits tool_codes (s_wallet_create d av)" "exits tool_codes (s_wallet_create_wp d av)"
  "exits tool_codes (s_wallet_create_from av)" "exits tool_codes (s_wallet_pkey_show d av)"
  "exits tool_codes (s_wallet_pkey_show_full d av)"
  unfolding s_wallet_create_def s_wallet_create_wp_def s_wallet_create_from_def s_wallet_pkey_show_def
    s_wallet_pkey_show_full_def wallet_checks_def wallet_file_check_def wallet_make_def wallet_report_def
  by (intro handler_exits; simp add: tool_codes_def)+

lemma cert_handlers_exits:
  "exits tool_codes (s_cert_create d av)" "exits tool_codes (s_cert_dump d av)"
  "exits tool_codes (s_cert_create_pkey d av)" "exits tool_codes (s_cert_create_cert_pkey d av)"
  "exits tool_codes (s_cert_rename d av)" "exits tool_codes (s_cert_add_metadata d av)"
  "exits tool_codes (s_cert_sign av)" "exits tool_codes (s_cert_pkey_show d av)"
  "exits tool_codes (s_cert_pkey_show_full d av)" "exits tool_codes (s_cert_get_addr d av)"
  unfolding s_cert_create_def s_cert_dump_def s_cert_create_pkey_def s_cert_create_cert_pkey_def
    s_cert_rename_def s_cert_add_metadata_def s_cert_sign_def s_cert_pkey_show_def s_cert_pkey_show_full_def
    s_cert_get_addr_def s_cert_copy_def cert_copy_finish_def
  by (intro handler_exits; simp add: tool_codes_def)+

lemma s_opts_exits: "(cmd, subs, h) \<in> set (s_opts d) \<Longrightarrow> exits tool_codes (h av)"
  by (auto simp: s_opts_def wallet_handlers_exits cert_handlers_exits)

lemma dispatch_exits:
  assumes "\<And>cmd subs h. (cmd, subs, h) \<in> set opts \<Longrightarrow> exits E (h av)"
  shows "exits E (dispatch opts av start l_err)"
  using assms
proof (induction opts arbitrary: l_err)
  case Nil
  show ?case by (simp add: exits_ret)
next
  case (Cons row opts)
  obtain cmd subs h where row: "row = (cmd, subs, h)" by (cases row) auto
  have "exits E (h av)" using Cons.prems [of cmd subs h] row by simp
  moreover have "exits E (dispatch opts av start e)" for e
    by (rule Cons.IH) (use Cons.prems in auto)
  ultimately show ?case
    unfolding row dispatch.simps by (intro exits_rules exits_arg)
qed

lemma s_init_exits: "exits E (s_init d)"
  unfolding s_init_def store_ca_dir_def Let_def by (intro tool_exits)


section \<open>Absence of undefined behaviour\<close>

lemma safe_help: "safe (s_help d)"
  unfolding safe_def
proof
  fix s
  obtain t where "s_help d s = (Ret (), t)" using s_help_run by blast
  then show "\<not> is_crash (fst (s_help d s))" by simp
qed

lemma safe_die_help: "safe (die_help d m e)"
  unfolding die_help_def by (intro tool_safe safe_help)


text \<open>
  \<^verbatim>\<open>cert create_pkey\<close> reports success and returns 0 even when the output file cannot be
  opened: the run then writes nothing.
\<close>

theorem cert_create_pkey_unwritten:
  assumes "5 \<le> length av" and "dap_cert_add_file d (trace s) (av ! 3) (s_system_ca_dir s) = Some c"
    and "dap_enc_ser_pub_key_size d (cert_key c) \<noteq> 0" and "\<forall>h k. dap_pkey_from_enc_key d h k = Some pk"
    and "\<forall>h. \<not> dap_file_test d h (av ! 4)" and "\<forall>h. \<not> fopen_ok d h (av ! 4) ''wb''"
  shows "\<exists>t. s_cert_create_pkey d av s = (Ret 0, t) \<and> (\<forall>p b. Fwrite p b \<notin> set (new_calls s t))"
  using assms by (simp add: s_cert_create_pkey_def prog_simps Let_def new_calls_def)

section \<open>Directories\<close>

text \<open>What \<open>s_init\<close> relies on: \<open>dap_strncpy\<close> copies what fits and returns the end of the copy.\<close>

definition strncpy_ok :: "'z base_sdk_scheme \<Rightarrow> bool" where
  "strncpy_ok d \<longleftrightarrow> (\<forall>s n. dap_strncpy d s n = (take (n - 1) s, length (take (n - 1) s)))"

definition sdk_up :: "'z base_sdk_scheme \<Rightarrow> bool" where
  "sdk_up d \<longleftrightarrow> (\<forall>h n. dap_common_init d h n = 0 \<and> dap_config_init d h n = 0 \<and> dap_config_open d h n)"

definition cut_slash :: "string \<Rightarrow> string" where
  "cut_slash p = (if last p = CHR ''/'' then butlast p else p)"

lemma store_ca_dir_run:
  assumes "strncpy_ok d"
  shows "store_ca_dir d ca s =
    (if take (MAX_PATH d - 1) ca = [] then (Crash OutOfBounds, s)
     else (Ret (), s\<lparr>s_system_ca_dir := cut_slash (take (MAX_PATH d - 1) ca)\<rparr>))"
proof -
  define b where "b = take (MAX_PATH d - 1) ca"
  have "dap_strncpy d ca (MAX_PATH d) = (b, length b)"
    using assms by (simp add: strncpy_ok_def b_def)
  then show ?thesis
    unfolding b_def [symmetric] store_ca_dir_def Let_def cut_slash_def
    by (cases "b = []") (auto simp: prog_simps last_conv_nth butlast_conv_take)
qed

lemma s_init_run:
  assumes "sdk_up d" and "strncpy_ok d" and "g_sys_dir_path s = Some dir"
    and "\<forall>h. dap_config_get_item_str_path_default d h ''resources'' ''ca_folders'' ''.'' = ca"
    and "\<forall>h. dap_config_get_item_str_path_default d h ''resources'' ''wallets_path'' ''.'' = wal"
  shows "s_init d s =
    (let t = s\<lparr>trace := trace s @ [Called (CommonInit (dap_get_appname d)), Called (LogLevelSet ''L_ERROR''),
          Called (ConfigInit (take (MAX_PATH d - 1) (dir @ ''/etc''))), Called (ConfigOpen (dap_get_appname d))]\<rparr> in
     if take (MAX_PATH d - 1) ca = [] then (Crash OutOfBounds, t)
     else (Ret 0, t\<lparr>s_system_ca_dir := cut_slash (take (MAX_PATH d - 1) ca),
                    s_system_wallet_dir := take (MAX_PATH d - 1) wal\<rparr>))"
  using assms
  by (simp add: s_init_def store_ca_dir_run prog_simps sdk_up_def Let_def)
    (simp add: strncpy_ok_def)

text \<open>
  \<open>s_init\<close>, when the SDK starts, stores both configured directories cut to the size of
  their buffers; one trailing slash of the certificate directory is removed. An empty
  certificate directory makes it read in front of the buffer.
\<close>

theorem tool_init_directories:
  assumes "sdk_up d" and "strncpy_ok d" and "g_sys_dir_path s = Some dir"
    and "\<forall>h. dap_config_get_item_str_path_default d h ''resources'' ''ca_folders'' ''.'' = ca"
    and "\<forall>h. dap_config_get_item_str_path_default d h ''resources'' ''wallets_path'' ''.'' = wal"
  shows "\<exists>t. (if take (MAX_PATH d - 1) ca = [] then s_init d s = (Crash OutOfBounds, t)
     else s_init d s = (Ret 0, t) \<and> s_system_ca_dir t = cut_slash (take (MAX_PATH d - 1) ca)
       \<and> s_system_wallet_dir t = take (MAX_PATH d - 1) wal)"
  by (rule exI [of _ "snd (s_init d s)"]) (simp add: s_init_run [OF assms] Let_def)

section \<open>Witnesses\<close>

lemma sample_sdk_base: "strcmp_ok sample_sdk" "strncpy_ok sample_sdk" "sdk_up sample_sdk"
  by (auto simp: strcmp_ok_def strncpy_ok_def sdk_up_def sample_sdk_def)

lemma sample_config:
  "dap_config_get_item_str_path_default sample_sdk h g k v = ''/opt/'' @ k" "MAX_PATH sample_sdk = 4096"
  by (simp_all add: sample_sdk_def)

lemma sample_init: "\<exists>t. s_init sample_sdk (sample_state\<lparr>g_sys_dir_path := Some dir\<rparr>) = (Ret 0, t)"
  using s_init_run [OF sample_sdk_base(3,2), of "sample_state\<lparr>g_sys_dir_path := Some dir\<rparr>" dir
      "''/opt/ca_folders''" "''/opt/wallets_path''"]
  by (simp add: sample_config Let_def)

theorem tool_init_directories_witness:
  "\<exists>t. s_init sample_sdk sample_state = (Ret 0, t) \<and> s_system_ca_dir t = ''/opt/ca_folders''"
proof -
  have "g_sys_dir_path sample_state = Some ''/opt/cellframe-node''" by (simp add: sample_state_def)
  from tool_init_directories [OF sample_sdk_base(3,2) this, of "''/opt/ca_folders''" "''/opt/wallets_path''"]
  show ?thesis by (auto simp: sample_config cut_slash_def)
qed


theorem tool_main_B_misses_command_witness:
  "fst (tool_main Unix sample_sdk [''tool'', ''-B'', ''/opt/x'', ''wallet'', ''create'', ''w1'', ''sig_dil''] sample_state)
     = Ret (-2)"
proof -
  obtain t where init: "s_init sample_sdk (sample_state\<lparr>g_sys_dir_path := Some ''/opt/x''\<rparr>) = (Ret 0, t)"
    using sample_init by blast
  have "dap_dir_test sample_sdk (trace sample_state) ''/opt/x''" by (simp add: sample_sdk_def)
  from tool_main_B_misses_command [OF sample_sdk_base(1) this init] show ?thesis by simp
qed

definition sample_bad_create :: argv where
  "sample_bad_create = [''tool'', ''wallet'', ''create'']"


theorem cert_create_pkey_unwritten_witness:
  "\<exists>t. s_cert_create_pkey (sample_sdk\<lparr>fopen_ok := (\<lambda>_ _ _. False), dap_pkey_from_enc_key := (\<lambda>_ _. Some [1])\<rparr>)
      [''tool'', ''cert'', ''create_pkey'', ''root'', ''/ro/key''] sample_state = (Ret 0, t)"
proof -
  let ?d = "sample_sdk\<lparr>fopen_ok := (\<lambda>_ _ _. False), dap_pkey_from_enc_key := (\<lambda>_ _. Some [1])\<rparr>"
  have "dap_cert_add_file ?d h ''root'' dir = Some \<lparr>cert_name = ''root'', cert_key = sample_key\<rparr>"
    and "dap_enc_ser_pub_key_size ?d k = 3" "\<not> dap_file_test ?d h p" "\<not> fopen_ok ?d h p m"
    and "dap_pkey_from_enc_key ?d h k = Some [1]" for h dir k p m
    by (simp_all add: sample_sdk_def)
  with cert_create_pkey_unwritten [of "[''tool'', ''cert'', ''create_pkey'', ''root'', ''/ro/key'']" ?d sample_state
      "\<lparr>cert_name = ''root'', cert_key = sample_key\<rparr>" "[1]"]
  show ?thesis by auto
qed

end
