(* ===== verification/Pid_File.thy ===== *)
theory Pid_File
  imports Node_Prelude
begin

text \<open>
  \<open>s_proc_running_check\<close> of \<^verbatim>\<open>sources/cellframe-node.c\<close> (the POSIX branch): the pid file and its
  advisory record locks decide whether another node runs. The file and the locks are
  modelled with the byte ranges \<open>lockf\<close> works on, first as one call, then as a machine whose
  steps are the system calls of any number of processes in any order.
\<close>

section \<open>The pid file and its locks\<close>

type_synonym pid = nat

text \<open>
  \<open>content\<close> is the file (\<open>None\<close>: there is none), \<open>locks\<close> the locked sections, each with its
  owner, first byte and length. \<open>readable\<close> and \<open>writable\<close> say whether \<open>fopen\<close> succeeds.
\<close>

record pidfs =
  content :: "string option"
  readable :: bool
  writable :: bool
  locks :: "(pid \<times> nat \<times> nat) list"

text \<open>
  \<open>fscanf(f, "%d", ...)\<close>: -1 at the end of the input, 1 when a number was read, 0 otherwise.
\<close>

definition fscanf_d :: "string \<Rightarrow> int" where
  "fscanf_d s = (let r = dropWhile is_space s; ds = snd (strip_sign r) in
     if r = [] then -1 else if ds = [] then 0 else if is_digit (hd ds) then 1 else 0)"

text \<open>
  A stream reads its file in blocks, so after the scan the descriptor stands behind the
  first block: behind the whole text of a pid file.
\<close>

definition stdio_block :: nat where
  "stdio_block = 4096"

definition scan_offset :: "string \<Rightarrow> nat" where
  "scan_offset c = min (length c) stdio_block"

text \<open>\<open>lockf(fd, F_TEST, 0) == -1\<close>: another process locked a byte at or behind the offset.\<close>

definition test_blocked :: "pidfs \<Rightarrow> pid \<Rightarrow> nat \<Rightarrow> bool" where
  "test_blocked fs me off \<longleftrightarrow> list_ex (\<lambda>(q, b, n). q \<noteq> me \<and> off < b + n) (locks fs)"

text \<open>\<open>lockf(fd, F_TLOCK, len)\<close> fails: another process locked a byte of the section.\<close>

definition lock_blocked :: "pidfs \<Rightarrow> pid \<Rightarrow> nat \<Rightarrow> nat \<Rightarrow> bool" where
  "lock_blocked fs me off len \<longleftrightarrow>
     list_ex (\<lambda>(q, b, n). q \<noteq> me \<and> off < b + n \<and> b < off + len) (locks fs)"

definition sizeof_pid_t :: nat where
  "sizeof_pid_t = 4"

definition pid_text :: "pid \<Rightarrow> string" where
  "pid_text p = show_nat p"

section \<open>The check as one call\<close>

text \<open>
  The part behind \<open>fopen(path, "w")\<close> or \<open>freopen(path, "w", f)\<close>, which truncate the file: write
  the own pid, lock four bytes from the position behind it.
\<close>

definition write_and_lock :: "pid \<Rightarrow> pidfs \<Rightarrow> int \<times> pidfs" where
  "write_and_lock me fs =
    (if \<not> writable fs then (2, fs)
     else let fs1 = fs\<lparr>content := Some (pid_text me)\<rparr>; off = length (pid_text me) in
       if lock_blocked fs1 me off sizeof_pid_t then (-1, fs1)
       else (0, fs1\<lparr>locks := (me, off, sizeof_pid_t) # locks fs1\<rparr>))"

definition s_proc_running_check :: "pid \<Rightarrow> pidfs \<Rightarrow> int \<times> pidfs" where
  "s_proc_running_check me fs = (case content fs of
      Some c \<Rightarrow>
        if readable fs then
          (if fscanf_d c \<noteq> 0 \<and> test_blocked fs me (scan_offset c) then (1, fs)
           else write_and_lock me fs)
        else write_and_lock me fs
    | None \<Rightarrow> write_and_lock me fs)"

section \<open>The check as a machine of system calls\<close>

text \<open>
  Where a process stands: before \<open>fopen\<close>, before \<open>fscanf\<close>, before \<open>lockf(F_TEST)\<close> at an offset,
  before the truncating open, before the flush of the pid, before \<open>lockf(F_TLOCK)\<close> at an
  offset, behind the check with its result, ended.
\<close>

datatype pc = Start | Scan | Test nat | Trunc | Write | Lock nat | Done int | Gone

record node_sys =
  fs :: pidfs
  pcs :: "pid \<Rightarrow> pc"

text \<open>Writing at offset 0 overwrites the beginning of what is there.\<close>

definition overwrite :: "string \<Rightarrow> string \<Rightarrow> string" where
  "overwrite new old = new @ drop (length new) old"

definition set_pc :: "pid \<Rightarrow> pc \<Rightarrow> node_sys \<Rightarrow> node_sys" where
  "set_pc p c s = s\<lparr>pcs := (pcs s)(p := c)\<rparr>"

fun pid_step :: "pid \<Rightarrow> pc \<Rightarrow> node_sys \<Rightarrow> node_sys" where
  "pid_step p Start s =
     (if content (fs s) \<noteq> None \<and> readable (fs s) then set_pc p Scan s else set_pc p Trunc s)"
| "pid_step p Scan s = (case content (fs s) of
      Some c \<Rightarrow> if fscanf_d c \<noteq> 0 then set_pc p (Test (scan_offset c)) s else set_pc p Trunc s
    | None \<Rightarrow> set_pc p Trunc s)"
| "pid_step p (Test off) s =
     (if test_blocked (fs s) p off then set_pc p (Done 1) s else set_pc p Trunc s)"
| "pid_step p Trunc s =
     (if \<not> writable (fs s) then set_pc p (Done 2) s
      else set_pc p Write (s\<lparr>fs := (fs s)\<lparr>content := Some []\<rparr>\<rparr>))"
| "pid_step p Write s =
     set_pc p (Lock (length (pid_text p)))
       (s\<lparr>fs := (fs s)\<lparr>content := Some (overwrite (pid_text p) (case content (fs s) of Some c \<Rightarrow> c | None \<Rightarrow> []))\<rparr>\<rparr>)"
| "pid_step p (Lock off) s =
     (if lock_blocked (fs s) p off sizeof_pid_t then set_pc p (Done (-1)) s
      else set_pc p (Done 0) (s\<lparr>fs := (fs s)\<lparr>locks := (p, off, sizeof_pid_t) # locks (fs s)\<rparr>\<rparr>))"
| "pid_step p (Done r) s = set_pc p Gone (s\<lparr>fs := (fs s)\<lparr>locks := filter (\<lambda>(q, _). q \<noteq> p) (locks (fs s))\<rparr>\<rparr>)"
| "pid_step p Gone s = s"

text \<open>One step of the system: some process makes its next system call; a process behind its
  check may end, which releases its locks.\<close>

inductive sys_step :: "node_sys \<Rightarrow> node_sys \<Rightarrow> bool" where
  move: "pcs s p \<noteq> Gone \<Longrightarrow> sys_step s (pid_step p (pcs s p) s)"

text \<open>At the beginning nobody holds a lock and everybody stands before the check.\<close>

inductive reachable :: "node_sys \<Rightarrow> bool" where
  start: "locks (fs s) = [] \<Longrightarrow> (\<forall>p. pcs s p = Start) \<Longrightarrow> reachable s"
| step: "reachable s \<Longrightarrow> sys_step s t \<Longrightarrow> reachable t"

inductive_cases sys_stepE [elim!]: "sys_step s t"

section \<open>The machine run alone is the call\<close>

fun run_alone :: "nat \<Rightarrow> pid \<Rightarrow> node_sys \<Rightarrow> node_sys" where
  "run_alone 0 p s = s"
| "run_alone (Suc n) p s = (case pcs s p of Done r \<Rightarrow> s | c \<Rightarrow> run_alone n p (pid_step p c s))"

lemma set_pc_simps [simp]:
  "fs (set_pc p c s) = fs s" "pcs (set_pc p c s) p = c" "q \<noteq> p \<Longrightarrow> pcs (set_pc p c s) q = pcs s q"
  by (simp_all add: set_pc_def)

lemma overwrite_empty [simp]: "overwrite new [] = new"
  by (simp add: overwrite_def)

lemma run_alone_done: "pcs s p = Done r \<Longrightarrow> run_alone n p s = s"
  by (cases n) simp_all

lemma run_alone_trunc:
  assumes "pcs s p = Trunc"
  shows "pcs (run_alone (Suc (Suc (Suc n))) p s) p = Done (fst (write_and_lock p (fs s)))
    \<and> fs (run_alone (Suc (Suc (Suc n))) p s) = snd (write_and_lock p (fs s))"
proof -
  have lb: "lock_blocked (fs s\<lparr>content := c\<rparr>) p off len = lock_blocked (fs s) p off len" for c off len
    by (simp add: lock_blocked_def)
  show ?thesis
    using assms by (simp add: write_and_lock_def Let_def run_alone_done lb)
qed

text \<open>Six system calls are enough for any branch, so fuel 6 always reaches the result.\<close>

lemma run_alone_check:
  assumes "pcs s p = Start"
  shows "pcs (run_alone 6 p s) p = Done (fst (s_proc_running_check p (fs s)))
    \<and> fs (run_alone 6 p s) = snd (s_proc_running_check p (fs s))"
proof (cases "content (fs s)")
  case None
  then have "run_alone 6 p s = run_alone 5 p (set_pc p Trunc s)"
    using assms by (simp add: numeral_eq_Suc)
  with None run_alone_trunc [of "set_pc p Trunc s" p 2] show ?thesis
    by (simp add: s_proc_running_check_def numeral_eq_Suc)
next
  case (Some c)
  consider "\<not> readable (fs s)" | "readable (fs s)" "fscanf_d c = 0"
    | "readable (fs s)" "fscanf_d c \<noteq> 0" by blast
  then show ?thesis
  proof cases
    case 1
    with Some assms run_alone_trunc [of "set_pc p Trunc s" p 2] show ?thesis
      by (simp add: s_proc_running_check_def numeral_eq_Suc)
  next
    case 2
    with Some assms run_alone_trunc [of "set_pc p Trunc (set_pc p Scan s)" p 1] show ?thesis
      by (simp add: s_proc_running_check_def numeral_eq_Suc)
  next
    case 3
    with Some assms
      run_alone_trunc [of "set_pc p Trunc (set_pc p (Test (scan_offset c)) (set_pc p Scan s))" p 0]
    show ?thesis
      by (auto simp: s_proc_running_check_def numeral_eq_Suc)
  qed
qed

section \<open>Locks never overlap\<close>

text \<open>
  The locked sections are exactly those of the processes whose check returned 0, each of
  them four bytes behind the text of its pid, and sections of different processes are
  disjoint.
\<close>

definition lock_inv :: "node_sys \<Rightarrow> bool" where
  "lock_inv s \<longleftrightarrow>
     (\<forall>p b n. (p, b, n) \<in> set (locks (fs s)) \<longleftrightarrow>
        pcs s p = Done 0 \<and> b = length (pid_text p) \<and> n = sizeof_pid_t)
     \<and> (\<forall>p q. pcs s p = Done 0 \<and> pcs s q = Done 0 \<and> p \<noteq> q \<longrightarrow>
          length (pid_text p) + sizeof_pid_t \<le> length (pid_text q)
          \<or> length (pid_text q) + sizeof_pid_t \<le> length (pid_text p))
     \<and> (\<forall>p off. pcs s p = Lock off \<longrightarrow> off = length (pid_text p))"

lemma lock_invI:
  assumes "\<And>p b n. (p, b, n) \<in> set (locks (fs s)) \<longleftrightarrow>
      pcs s p = Done 0 \<and> b = length (pid_text p) \<and> n = sizeof_pid_t"
    and "\<And>p q. pcs s p = Done 0 \<Longrightarrow> pcs s q = Done 0 \<Longrightarrow> p \<noteq> q \<Longrightarrow>
      length (pid_text p) + sizeof_pid_t \<le> length (pid_text q)
      \<or> length (pid_text q) + sizeof_pid_t \<le> length (pid_text p)"
    and "\<And>p off. pcs s p = Lock off \<Longrightarrow> off = length (pid_text p)"
  shows "lock_inv s"
  using assms by (simp add: lock_inv_def)

lemma lock_inv_owned:
  "lock_inv s \<Longrightarrow> (p, b, n) \<in> set (locks (fs s)) \<longleftrightarrow>
      pcs s p = Done 0 \<and> b = length (pid_text p) \<and> n = sizeof_pid_t"
  and lock_inv_apart:
  "lock_inv s \<Longrightarrow> pcs s p = Done 0 \<Longrightarrow> pcs s q = Done 0 \<Longrightarrow> p \<noteq> q \<Longrightarrow>
      length (pid_text p) + sizeof_pid_t \<le> length (pid_text q)
      \<or> length (pid_text q) + sizeof_pid_t \<le> length (pid_text p)"
  and lock_inv_offset: "lock_inv s \<Longrightarrow> pcs s p = Lock off \<Longrightarrow> off = length (pid_text p)"
  by (simp_all add: lock_inv_def)

text \<open>A step of a process that neither takes nor drops a lock keeps the invariant.\<close>

lemma lock_inv_frame:
  assumes "lock_inv s" and "locks (fs t) = locks (fs s)" and "pcs t = (pcs s)(p := c)"
    and "pcs s p \<noteq> Done 0" and "c \<noteq> Done 0" and "\<And>off. c = Lock off \<Longrightarrow> off = length (pid_text p)"
  shows "lock_inv t"
  using assms unfolding lock_inv_def by auto

lemma lock_inv_acquire:
  assumes inv: "lock_inv s" and pc: "pcs s p = Lock off" and free: "\<not> lock_blocked (fs s) p off sizeof_pid_t"
  shows "lock_inv (set_pc p (Done 0) (s\<lparr>fs := (fs s)\<lparr>locks := (p, off, sizeof_pid_t) # locks (fs s)\<rparr>\<rparr>))"
proof -
  have off: "off = length (pid_text p)" using inv pc by (simp add: lock_inv_def)
  have apart: "length (pid_text q) + sizeof_pid_t \<le> off \<or> off + sizeof_pid_t \<le> length (pid_text q)"
    if "pcs s q = Done 0" "q \<noteq> p" for q
  proof -
    from inv that have "(q, length (pid_text q), sizeof_pid_t) \<in> set (locks (fs s))"
      by (simp add: lock_inv_def)
    with free that(2) show ?thesis by (fastforce simp: lock_blocked_def list_ex_iff)
  qed
  show ?thesis (is "lock_inv ?t")
  proof (rule lock_invI)
    fix q b n
    show "(q, b, n) \<in> set (locks (fs ?t)) \<longleftrightarrow>
        pcs ?t q = Done 0 \<and> b = length (pid_text q) \<and> n = sizeof_pid_t"
      using off pc lock_inv_owned [OF inv, of q b n] by (cases "q = p") auto
  next
    fix q r
    assume "pcs ?t q = Done 0" "pcs ?t r = Done 0" "q \<noteq> r"
    then show "length (pid_text q) + sizeof_pid_t \<le> length (pid_text r)
        \<or> length (pid_text r) + sizeof_pid_t \<le> length (pid_text q)"
      using apart [of q] apart [of r] lock_inv_apart [OF inv, of q r] off
      by (cases "q = p"; cases "r = p") auto
  next
    fix q o2
    assume "pcs ?t q = Lock o2"
    then show "o2 = length (pid_text q)"
      using lock_inv_offset [OF inv, of q o2] by (cases "q = p") auto
  qed
qed

lemma lock_inv_release:
  assumes inv: "lock_inv s" and pc: "pcs s p = Done r"
  shows "lock_inv (set_pc p Gone (s\<lparr>fs := (fs s)\<lparr>locks := filter (\<lambda>(q, _). q \<noteq> p) (locks (fs s))\<rparr>\<rparr>))"
    (is "lock_inv ?t")
proof (rule lock_invI)
  fix q b n
  show "(q, b, n) \<in> set (locks (fs ?t)) \<longleftrightarrow>
      pcs ?t q = Done 0 \<and> b = length (pid_text q) \<and> n = sizeof_pid_t"
    using lock_inv_owned [OF inv, of q b n] by (cases "q = p") auto
next
  fix q r
  assume "pcs ?t q = Done 0" "pcs ?t r = Done 0" "q \<noteq> r"
  then show "length (pid_text q) + sizeof_pid_t \<le> length (pid_text r)
      \<or> length (pid_text r) + sizeof_pid_t \<le> length (pid_text q)"
    using lock_inv_apart [OF inv, of q r] by (cases "q = p"; cases "r = p") auto
next
  fix q o2
  assume "pcs ?t q = Lock o2"
  then show "o2 = length (pid_text q)"
    using lock_inv_offset [OF inv, of q o2] by (cases "q = p") auto
qed

lemma lock_inv_step:
  assumes "lock_inv s" and "pcs s p \<noteq> Gone"
  shows "lock_inv (pid_step p (pcs s p) s)"
proof (cases "pcs s p")
  case (Lock off)
  with assms lock_inv_acquire show ?thesis
    by (auto simp: set_pc_def intro: lock_inv_frame [OF assms(1)])
next
  case (Done r)
  with assms lock_inv_release show ?thesis by simp
qed (use assms in \<open>auto simp: set_pc_def split: option.split intro!: lock_inv_frame [OF assms(1)]\<close>)

lemma reachable_lock_inv: "reachable s \<Longrightarrow> lock_inv s"
proof (induction rule: reachable.induct)
  case (start s)
  then show ?case by (simp add: lock_inv_def)
next
  case (step s t)
  then show ?case by (auto intro: lock_inv_step)
qed

section \<open>Length of a pid\<close>

lemma show_nat_length_le: "n < 10 ^ Suc k \<Longrightarrow> length (show_nat n) \<le> Suc k"
proof (induction k arbitrary: n)
  case 0
  then show ?case by (subst show_nat.simps) simp
next
  case (Suc k)
  then have "n div 10 < 10 ^ Suc k" by (simp add: less_mult_imp_div_less mult.commute)
  with Suc.IH have "length (show_nat (n div 10)) \<le> Suc k" by blast
  then show ?case by (subst show_nat.simps) simp
qed

lemma show_nat_length_ge: "10 ^ k \<le> n \<Longrightarrow> k < length (show_nat n)"
proof (induction k arbitrary: n)
  case 0
  then show ?case using show_nat_nonempty by simp
next
  case (Suc k)
  then have "10 ^ k \<le> n div 10" by (simp add: less_eq_div_iff_mult_less_eq mult.commute)
  with Suc.IH have "k < length (show_nat (n div 10))" by blast
  moreover have "\<not> n < 10"
    using order_trans [OF mult_le_mono2 [OF one_le_power [of "10 :: nat" k], of 10], of n] Suc.prems
    by simp
  ultimately show ?case by (subst show_nat.simps) simp
qed

lemma pid_text_length:
  assumes "1000 \<le> p" and "p \<le> 4194304"
  shows "4 \<le> length (pid_text p) \<and> length (pid_text p) \<le> 7"
  using show_nat_length_ge [of 3 p] show_nat_length_le [of p 6] assms by (simp add: pid_text_def)

lemma fscanf_pid_text: "fscanf_d (pid_text p) = 1"
proof -
  obtain c cs where c: "pid_text p = c # cs"
    using show_nat_nonempty by (metis neq_Nil_conv pid_text_def)
  then have d: "is_digit c" using show_nat_digits [of p] by (simp add: pid_text_def)
  then have "\<not> is_space c" "c \<noteq> CHR ''-''" "c \<noteq> CHR ''+''"
    by (auto simp: is_digit_def is_space_def)
  with c d show ?thesis by (simp add: fscanf_d_def strip_sign_def)
qed

lemma running_blocks:
  assumes "s_proc_running_check q fs0 = (0, fs1)" and "readable fs0" and "p \<noteq> q"
  shows "s_proc_running_check p fs1 = (1, fs1)"
proof -
  have "write_and_lock q fs0 = (0, fs1)"
    using assms(1) by (auto simp: s_proc_running_check_def split: option.splits if_splits)
  then have "content fs1 = Some (pid_text q)" "readable fs1"
    and "(q, length (pid_text q), sizeof_pid_t) \<in> set (locks fs1)"
    using assms(2) by (auto simp: write_and_lock_def Let_def split: if_splits)
  moreover from this(3) assms(3) have "test_blocked fs1 p (scan_offset (pid_text q))"
    by (force simp: test_blocked_def list_ex_iff scan_offset_def sizeof_pid_t_def)
  ultimately show ?thesis
    by (simp add: s_proc_running_check_def fscanf_pid_text)
qed

lemma free_file_taken:
  assumes "\<forall>(q, b, n) \<in> set (locks fs0). q = p" and "writable fs0"
  shows "\<exists>fs1. s_proc_running_check p fs0 = (0, fs1) \<and> content fs1 = Some (pid_text p)
     \<and> read_digits 0 (pid_text p) = p"
proof -
  have "\<not> test_blocked fs0 p off" "\<not> lock_blocked (fs0\<lparr>content := c\<rparr>) p off len" for off c len
    using assms(1) by (fastforce simp: test_blocked_def lock_blocked_def list_ex_iff)+
  then show ?thesis
    using assms(2)
    by (auto simp: s_proc_running_check_def write_and_lock_def Let_def pid_text_def read_show_nat
        split: option.split)
qed

section \<open>Properties\<close>

text \<open>
  C10. Two nodes never both pass the check, whatever the order of their system calls: in
  every reachable state of the machine, processes whose check returned 0 and whose pids
  have four to seven digits (the kernel's limit is 4194304) are the same process.
\<close>

theorem pid_mutual_exclusion:
  assumes "reachable s" and "pcs s p = Done 0" and "pcs s q = Done 0"
    and "1000 \<le> p" and "p \<le> 4194304" and "1000 \<le> q" and "q \<le> 4194304"
  shows "p = q"
proof (rule ccontr)
  assume "p \<noteq> q"
  from lock_inv_apart [OF reachable_lock_inv [OF assms(1)] assms(2,3) this]
    pid_text_length [OF assms(4,5)] pid_text_length [OF assms(6,7)]
  show False by (auto simp: sizeof_pid_t_def)
qed

text \<open>
  The restriction on the length of the pids is necessary: each process locks the four
  bytes behind its own pid, so a process with a one-digit pid and one with a five-digit pid
  that start together both pass the check.
\<close>

theorem pid_race_short_pid:
  "\<exists>s. reachable s \<and> pcs s 7 = Done 0 \<and> pcs s 70000 = Done 0"
proof -
  define s0 :: node_sys where
    "s0 = \<lparr>fs = \<lparr>content = None, readable = True, writable = True, locks = []\<rparr>, pcs = (\<lambda>_. Start)\<rparr>"
  define st where "st p s = pid_step p (pcs s p) s" for p s
  have r: "reachable s \<Longrightarrow> pcs s p \<noteq> Gone \<Longrightarrow> reachable (st p s)" for p s
    unfolding st_def by (auto intro: reachable.step sys_step.move)
  have len: "length (pid_text 7) = 1" "length (pid_text 70000) = 5"
    by (simp_all add: pid_text_def show_nat.simps)
  define s1 where "s1 = st 70000 (st 70000 (st 7 (st 70000 s0)))"
  have "reachable s0" by (rule reachable.start) (simp_all add: s0_def)
  then have "reachable s1"
    unfolding s1_def by (intro r) (simp_all add: s0_def st_def set_pc_def len)
  moreover have pc1: "pcs s1 7 = Trunc" "pcs s1 70000 = Lock 5" "locks (fs s1) = []" "writable (fs s1)"
    by (simp_all add: s1_def s0_def st_def set_pc_def len)
  ultimately have "reachable (st 70000 s1)" by (auto intro: r)
  define s3 where "s3 = st 70000 s1"
  have pc3: "pcs s3 7 = Trunc" "pcs s3 70000 = Done 0" "locks (fs s3) = [(70000, 5, 4)]" "writable (fs s3)"
    using pc1 by (simp_all add: s3_def st_def set_pc_def lock_blocked_def sizeof_pid_t_def)
  define s4 where "s4 = st 7 (st 7 (st 7 s3))"
  have "reachable s3" using \<open>reachable (st 70000 s1)\<close> by (simp add: s3_def)
  then have "reachable s4"
    unfolding s4_def using pc3 by (intro r) (simp_all add: st_def set_pc_def len)
  moreover have "pcs s4 7 = Done 0" "pcs s4 70000 = Done 0"
    using pc3 by (simp_all add: s4_def st_def set_pc_def len lock_blocked_def sizeof_pid_t_def)
  ultimately show ?thesis by blast
qed

text \<open>
  C11. The machine is a refinement of the call: a process that makes its system calls
  undisturbed ends, after at most six of them, with the result and the pid file of
  \<open>s_proc_running_check\<close>.
\<close>

theorem pid_machine_refines_call:
  assumes "pcs s p = Start"
  shows "pcs (run_alone 6 p s) p = Done (fst (s_proc_running_check p (fs s)))
    \<and> fs (run_alone 6 p s) = snd (s_proc_running_check p (fs s))"
  using assms by (rule run_alone_check)

text \<open>
  A running node is detected: when the check of one process returned 0 and the file can
  be read, the check of any other process returns 1 and leaves the file and the locks
  alone.
\<close>

theorem pid_running_detected:
  assumes "s_proc_running_check q fs0 = (0, fs1)" and "readable fs0" and "p \<noteq> q"
  shows "s_proc_running_check p fs1 = (1, fs1)"
  using assms by (rule running_blocks)

text \<open>
  A stale pid file does not stop the node: without a lock of another process the check
  of a writable file returns 0, whatever the file holds; afterwards the file holds exactly
  the own pid, and reading it back gives that pid.
\<close>

theorem pid_stale_file_taken:
  assumes "\<forall>(q, b, n) \<in> set (locks fs0). q = p" and "writable fs0"
  shows "\<exists>fs1. s_proc_running_check p fs0 = (0, fs1) \<and> content fs1 = Some (pid_text p)
     \<and> read_digits 0 (pid_text p) = p"
  using assms by (rule free_file_taken)

text \<open>
  No false alarm: the check reports a running node (1) or fails to lock (-1) only when
  another process holds a lock on the file; with an unwritable file it returns 1 or 2.
\<close>

theorem pid_no_false_alarm:
  assumes "s_proc_running_check p fs0 = (r, fs1)"
  shows "r \<in> {0, 1, 2, -1} \<and> (r \<in> {1, -1} \<longrightarrow> (\<exists>q b n. (q, b, n) \<in> set (locks fs0) \<and> q \<noteq> p))
     \<and> (\<not> writable fs0 \<longrightarrow> r \<in> {1, 2} \<and> fs1 = fs0)"
  using assms
  by (auto simp: s_proc_running_check_def write_and_lock_def Let_def test_blocked_def lock_blocked_def
      list_ex_iff split: option.splits if_splits)

section \<open>Witnesses\<close>

definition sample_pidfs :: pidfs where
  "sample_pidfs = \<lparr>content = Some ''4711'', readable = True, writable = True, locks = []\<rparr>"

lemma sample_check:
  "s_proc_running_check 1234 sample_pidfs =
     (0, sample_pidfs\<lparr>content := Some (pid_text 1234), locks := [(1234, length (pid_text 1234), 4)]\<rparr>)"
  by (simp add: s_proc_running_check_def write_and_lock_def sample_pidfs_def Let_def test_blocked_def
      lock_blocked_def sizeof_pid_t_def)

theorem pid_running_detected_witness:
  "fst (s_proc_running_check 5678 (snd (s_proc_running_check 1234 sample_pidfs))) = 1"
  using pid_running_detected [OF sample_check, of 5678] by (simp add: sample_check) (simp add: sample_pidfs_def)

theorem pid_stale_file_taken_witness:
  "\<exists>fs1. s_proc_running_check 1234 sample_pidfs = (0, fs1) \<and> content fs1 = Some (pid_text 1234)"
  using pid_stale_file_taken [of sample_pidfs 1234] by (auto simp: sample_pidfs_def)

theorem pid_no_false_alarm_witness:
  "(0 :: int) \<in> {0, 1, 2, -1} \<and> fst (s_proc_running_check 1234 sample_pidfs) = 0"
  using pid_no_false_alarm [OF sample_check] by (simp add: sample_check)

theorem pid_machine_refines_call_witness:
  "pcs (run_alone 6 1234 \<lparr>fs = sample_pidfs, pcs = (\<lambda>_. Start)\<rparr>) 1234 = Done 0"
  using pid_machine_refines_call [of "\<lparr>fs = sample_pidfs, pcs = (\<lambda>_. Start)\<rparr>" 1234]
  by (simp add: sample_check)

lemma sample_reachable:
  "\<exists>s. reachable s \<and> pcs s 1234 = Done 0 \<and> (\<forall>x. x \<noteq> 1234 \<longrightarrow> pcs s x = Start) \<and> writable (fs s)"
proof -
  define s0 :: node_sys where
    "s0 = \<lparr>fs = \<lparr>content = None, readable = True, writable = True, locks = []\<rparr>, pcs = (\<lambda>_. Start)\<rparr>"
  define st where "st s = pid_step 1234 (pcs s 1234) s" for s
  have r: "reachable s \<Longrightarrow> pcs s 1234 \<noteq> Gone \<Longrightarrow> reachable (st s)" for s
    unfolding st_def by (auto intro: reachable.step sys_step.move)
  have "reachable s0" by (rule reachable.start) (simp_all add: s0_def)
  then have "reachable (st (st (st (st s0))))"
    by (intro r) (simp_all add: s0_def st_def set_pc_def)
  moreover have "pcs (st (st (st (st s0)))) 1234 = Done 0"
    by (simp add: s0_def st_def set_pc_def lock_blocked_def)
  moreover have "\<forall>x. x \<noteq> 1234 \<longrightarrow> pcs (st (st (st (st s0)))) x = Start" "writable (fs (st (st (st (st s0)))))"
    by (simp_all add: s0_def st_def set_pc_def lock_blocked_def)
  ultimately show ?thesis by blast
qed

theorem pid_mutual_exclusion_witness:
  "\<exists>s. reachable s \<and> pcs s 1234 = Done 0 \<and> (pcs s 5678 = Done 0 \<longrightarrow> (1234 :: nat) = 5678)"
proof -
  obtain s where "reachable s" "pcs s 1234 = Done 0" using sample_reachable by blast
  with pid_mutual_exclusion [of s 1234 5678] show ?thesis by auto
qed

end
