(* ===== verification/Sig_Handler.thy ===== *)
theory Sig_Handler
  imports Pid_File
begin

text \<open>
  The signal handlers: \<^verbatim>\<open>sources/sig_unix_handler.c\<close> (installation for five signals, \<open>exit(0)\<close> on
  delivery, the pid file path it keeps, the unused \<open>clear_pid_file\<close>), the console handler of
  \<^verbatim>\<open>sources/sig_win32_handler.c\<close> and the exception filter of \<^verbatim>\<open>sources/exh_win32.c\<close>.
\<close>

section \<open>Unix\<close>

datatype signum = SIGINT | SIGHUP | SIGTERM | SIGQUIT | SIGTSTP | SIG_OTHER nat

datatype handler = SIG_DFL | SigExitHandler

text \<open>
  \<open>s_pid_path\<close> is a pointer to a copy of the path: NULL before the first initialisation,
  and dangling when the copy was freed and the variable kept its value.
\<close>

datatype cptr = Null | Live string | Dangling string

record sig_state =
  s_pid_path :: cptr
  disposition :: "signum \<Rightarrow> handler"

definition sig_start :: sig_state where
  "sig_start = \<lparr>s_pid_path = Null, disposition = (\<lambda>_. SIG_DFL)\<rparr>"

definition signal :: "signum \<Rightarrow> handler \<Rightarrow> sig_state \<Rightarrow> sig_state" where
  "signal g h st = st\<lparr>disposition := (disposition st)(g := h)\<rparr>"

definition sig_unix_handler_init :: "string \<Rightarrow> sig_state \<Rightarrow> int \<times> sig_state" where
  "sig_unix_handler_init a_pid_path st =
     (let st = st\<lparr>s_pid_path := Live a_pid_path\<rparr>;
          st = signal SIGINT SigExitHandler st;
          st = signal SIGHUP SigExitHandler st;
          st = signal SIGTERM SigExitHandler st;
          st = signal SIGQUIT SigExitHandler st;
          st = signal SIGTSTP SigExitHandler st
      in (0, st))"

text \<open>
  \<open>DAP_DELETE\<close> is a macro of the SDK; \<open>nulls\<close> says whether it also resets the variable. A pointer
  that still dangles is freed a second time.
\<close>

definition sig_unix_handler_deinit :: "bool \<Rightarrow> (sig_state, int) prog" where
  "sig_unix_handler_deinit nulls =
     seq (\<lambda>st. case s_pid_path st of
            Null \<Rightarrow> (Ret (), st)
          | Live p \<Rightarrow> (Ret (), st\<lparr>s_pid_path := (if nulls then Null else Dangling p)\<rparr>)
          | Dangling p \<Rightarrow> (Crash DoubleFree, st))
    (seq (modify (signal SIGTERM SIG_DFL))
    (seq (modify (signal SIGINT SIG_DFL))
    (seq (modify (signal SIGHUP SIG_DFL))
    (seq (modify (signal SIGQUIT SIG_DFL))
    (seq (modify (signal SIGTSTP SIG_DFL))
         (ret 0))))))"

text \<open>
  The handler: what it logs and the code it ends the process with. The rest of its body,
  the clearing of the pid file and the module shutdown, is commented out in the source.
\<close>

definition sig_exit_handler :: "int \<Rightarrow> (string list, unit) prog" where
  "sig_exit_handler sig_code =
     seq (modify (\<lambda>log. log @ [''Got exit code: '' @ show_int sig_code])) (exit_with 0)"

text \<open>Delivery of a signal: \<open>None\<close> when the default action of the system applies.\<close>

definition deliver :: "sig_state \<Rightarrow> signum \<Rightarrow> int \<Rightarrow> (unit res \<times> string list) option" where
  "deliver st g code = (case disposition st g of
      SIG_DFL \<Rightarrow> None
    | SigExitHandler \<Rightarrow> Some (sig_exit_handler code []))"

text \<open>
  \<open>clear_pid_file\<close>: truncates the file behind \<open>s_pid_path\<close>. Closing the stream releases every lock the
  process holds on that file, as POSIX record locks do.
\<close>

definition clear_pid_file :: "pid \<Rightarrow> sig_state \<Rightarrow> (string \<Rightarrow> pidfs, string option) prog" where
  "clear_pid_file me st = (case s_pid_path st of
      Live p \<Rightarrow> (\<lambda>files.
        if writable (files p)
        then (Ret None, files(p := (files p)\<lparr>content := Some [], locks := filter (\<lambda>(q, _). q \<noteq> me) (locks (files p))\<rparr>))
        else (Ret (Some ''Pid file not cleared''), files))
    | _ \<Rightarrow> crash NullDeref)"

section \<open>Windows\<close>

datatype ctrl_event = CTRL_C_EVENT | CTRL_CLOSE_EVENT | CTRL_BREAK_EVENT | CTRL_LOGOFF_EVENT
  | CTRL_SHUTDOWN_EVENT | CTRL_OTHER nat

datatype console = TextAttribute nat | Beep nat nat | ConPrint string

definition ctrl_actions :: "ctrl_event \<Rightarrow> console list" where
  "ctrl_actions e = (case e of
      CTRL_C_EVENT \<Rightarrow> [ConPrint (''Ctrl-C event'' @ [CHR 0x0A, CHR 0x0A]), Beep 750 300]
    | CTRL_CLOSE_EVENT \<Rightarrow> [Beep 600 200, ConPrint (''Ctrl-Close event'' @ [CHR 0x0A, CHR 0x0A])]
    | CTRL_BREAK_EVENT \<Rightarrow> [Beep 900 200, ConPrint (''Ctrl-Break event'' @ [CHR 0x0A, CHR 0x0A])]
    | CTRL_LOGOFF_EVENT \<Rightarrow> [Beep 1000 200, ConPrint (''Ctrl-Logoff event'' @ [CHR 0x0A, CHR 0x0A])]
    | CTRL_SHUTDOWN_EVENT \<Rightarrow> [Beep 750 500, ConPrint (''Ctrl-Shutdown event'' @ [CHR 0x0A, CHR 0x0A])]
    | CTRL_OTHER n \<Rightarrow> [])"

definition win32_exit_handler :: "ctrl_event \<Rightarrow> (console list, unit) prog" where
  "win32_exit_handler e =
     seq (modify (\<lambda>c. c @ [TextAttribute 12]))
    (seq (modify (\<lambda>c. c @ ctrl_actions e))
    (seq (modify (\<lambda>c. c @ [TextAttribute 7]))
         (exit_with 2)))"

text \<open>\<open>SetConsoleCtrlHandler\<close> succeeds or not; \<open>installed\<close> says whether the handler is in the list.\<close>

definition sig_win32_handler_init :: "bool \<Rightarrow> bool \<Rightarrow> int \<times> bool" where
  "sig_win32_handler_init ok installed = (if \<not> ok then (1, installed) else (0, True))"

definition sig_win32_handler_deinit :: "bool \<Rightarrow> int \<times> bool" where
  "sig_win32_handler_deinit installed = (0, False)"

datatype winapi = SetErrorMode "string list" | AddVectoredExceptionHandler nat | SetUnhandledExceptionFilter

definition S_SetExceptionFilter :: "bool \<Rightarrow> winapi list" where
  "S_SetExceptionFilter win64 =
     SetErrorMode [''SEM_FAILCRITICALERRORS'', ''SEM_NOGPFAULTERRORBOX'', ''SEM_NOOPENFILEERRORBOX'']
     # (if win64 then [AddVectoredExceptionHandler 1] else [SetUnhandledExceptionFilter])"

section \<open>Lemmas\<close>

definition handled :: "signum set" where
  "handled = {SIGINT, SIGHUP, SIGTERM, SIGQUIT, SIGTSTP}"

lemma signal_simps [simp]:
  "disposition (signal g h st) = (disposition st)(g := h)" "s_pid_path (signal g h st) = s_pid_path st"
  by (simp_all add: signal_def)

lemma init_disposition:
  "disposition (snd (sig_unix_handler_init p st)) g =
     (if g \<in> handled then SigExitHandler else disposition st g)"
  and init_path: "s_pid_path (snd (sig_unix_handler_init p st)) = Live p"
  by (simp_all add: sig_unix_handler_init_def Let_def handled_def)

lemma deinit_run:
  "s_pid_path st = Live p \<Longrightarrow>
   \<exists>st'. sig_unix_handler_deinit nulls st = (Ret 0, st')
     \<and> s_pid_path st' = (if nulls then Null else Dangling p)
     \<and> (\<forall>g. disposition st' g = (if g \<in> handled then SIG_DFL else disposition st g))"
  by (simp add: sig_unix_handler_deinit_def prog_simps handled_def)

section \<open>Properties\<close>

text \<open>
  C12. After the initialisation exactly the five signals end the process, always with exit
  status 0; every other signal keeps its action. Taking the handlers down gives the five
  signals their default action again.
\<close>

theorem sig_handlers_installed:
  "(\<forall>g. deliver (snd (sig_unix_handler_init p st)) g code =
       (if g \<in> handled then Some (Exit 0, [''Got exit code: '' @ show_int code])
        else deliver st g code))
   \<and> (\<exists>st'. sig_unix_handler_deinit nulls (snd (sig_unix_handler_init p st)) = (Ret 0, st')
       \<and> (\<forall>g. deliver st' g code = (if g \<in> handled then None else deliver st g code)))"
proof -
  obtain st' where "sig_unix_handler_deinit nulls (snd (sig_unix_handler_init p st)) = (Ret 0, st')"
    and "\<forall>g. disposition st' g = (if g \<in> handled then SIG_DFL
           else disposition (snd (sig_unix_handler_init p st)) g)"
    using deinit_run [of "snd (sig_unix_handler_init p st)" p nulls] by (auto simp: init_path)
  then show ?thesis
    by (auto simp: deliver_def init_disposition sig_exit_handler_def prog_simps)
qed

text \<open>
  A second \<open>sig_unix_handler_deinit\<close> without an initialisation between frees the path twice
  when \<open>DAP_DELETE\<close> leaves the variable alone, and is harmless when it resets it.
\<close>

lemma sig_deinit_twice:
  "fst (bnd (sig_unix_handler_deinit nulls) (\<lambda>_. sig_unix_handler_deinit nulls)
      (snd (sig_unix_handler_init p st)))
   = (if nulls then Ret 0 else Crash DoubleFree)"
  by (simp add: sig_unix_handler_deinit_def prog_simps init_path)

end
