(* ===== verification/Node_Main.thy ===== *)
theory Node_Main
  imports Sig_Handler "HOL-Library.Sublist"
begin

text \<open>
  The node process: \<open>main\<close> of \<^verbatim>\<open>sources/cellframe-node.c\<close> from the command line over the
  initialisation of the modules, the server, the VPN service and the plugins to the event
  loop and the shutdown. The SDK is a record of functions; the result of a module's
  initialisation may depend on everything that happened before it. A \<open>return\<close> of \<open>main\<close> before
  its end is \<open>exit\<close>, which is what C makes of it.
\<close>

section \<open>The build, the SDK, the state\<close>

text \<open>The preprocessor symbols the source asks for.\<close>

record build =
  WIN32 :: bool
  NDEBUG :: bool
  DAP_OS_WINDOWS :: bool
  DAP_OS_MAC :: bool
  DAP_OS_UNIX :: bool
  DAP_OS_LINUX :: bool
  DAP_OS_DARWIN :: bool
  DAP_OS_ANDROID :: bool
  DAP_SUPPORT_PYTHON_PLUGINS :: bool

text \<open>A call of the SDK with its arguments and its answer, a call without an answer, a line of output.\<close>

datatype nevent = NCall string "string list" int | NVoid string "string list" | NLog string

type_synonym nhist = "nevent list"

record node_sdk =
  NODE_NAME :: string
  DAP_VERSION :: string
  node_version :: string
  MAX_PATH :: nat
  getpid :: pid
  regGetUsrPath :: string
  getenv_HOME :: "string option"
  dap_strcmp :: "string \<Rightarrow> string \<Rightarrow> int"
  find_option_val :: "argv \<Rightarrow> nat \<Rightarrow> nat \<Rightarrow> string \<Rightarrow> nat \<times> string option"
  dap_dir_test :: "string option \<Rightarrow> bool"
  config_open :: bool
  config_bool :: "string \<Rightarrow> string \<Rightarrow> bool \<Rightarrow> bool"
  config_int :: "string \<Rightarrow> string \<Rightarrow> int \<Rightarrow> int"
  config_str :: "string \<Rightarrow> string \<Rightarrow> string option"
  config_item_path :: "string \<Rightarrow> string \<Rightarrow> string \<Rightarrow> string"
  event_exists :: "string \<Rightarrow> bool"
  set_ctrl_handler_ok :: bool
  answer :: "nhist \<Rightarrow> string \<Rightarrow> string list \<Rightarrow> int"

record node_state =
  sys_dir :: "string option"
  pid_files :: "string \<Rightarrow> pidfs"
  sigs :: sig_state
  win_handler :: bool
  ntrace :: nhist

type_synonym 'a node = "(node_state, 'a) prog"

definition emit :: "nevent \<Rightarrow> unit node" where
  "emit e = modify (\<lambda>s. s\<lparr>ntrace := ntrace s @ [e]\<rparr>)"

definition log_it :: "string \<Rightarrow> unit node" where
  "log_it m = emit (NLog m)"

definition void :: "string \<Rightarrow> string list \<Rightarrow> unit node" where
  "void f xs = emit (NVoid f xs)"

definition ncall :: "node_sdk \<Rightarrow> string \<Rightarrow> string list \<Rightarrow> int node" where
  "ncall d f xs = bnd (get_state (\<lambda>s. answer d (ntrace s) f xs)) (\<lambda>rc.
     seq (emit (NCall f xs rc)) (ret rc))"

definition delete_sys_dir :: "unit node" where
  "delete_sys_dir = modify (\<lambda>s. s\<lparr>sys_dir := None\<rparr>)"

definition config_str_default :: "node_sdk \<Rightarrow> string \<Rightarrow> string \<Rightarrow> string \<Rightarrow> string" where
  "config_str_default d sec key def = (case config_str d sec key of None \<Rightarrow> def | Some v \<Rightarrow> v)"

section \<open>The command line\<close>

definition dap_node_version :: "node_sdk \<Rightarrow> string" where
  "dap_node_version d = node_version d"

definition set_global_sys_dir :: "string \<Rightarrow> unit node" where
  "set_global_sys_dir dir = modify (\<lambda>s. s\<lparr>sys_dir := Some dir\<rparr>)"

text \<open>\<^verbatim>\<open>--plugins-path\<close> and \<^verbatim>\<open>-P\<close>: a search that finds nothing leaves the pointer alone.\<close>

definition plugins_path_arg :: "build \<Rightarrow> node_sdk \<Rightarrow> argv \<Rightarrow> string option" where
  "plugins_path_arg b d av =
    (if DAP_OS_ANDROID b then None
     else let (rc, v) = find_option_val d av 1 (length av) ''--plugins-path'' in
       if rc = 0 then (case snd (find_option_val d av 1 (length av) ''-P'') of None \<Rightarrow> v | Some w \<Rightarrow> Some w)
       else v)"

text \<open>The tilde in front of a slash or alone stands for \<open>HOME\<close>.\<close>

definition plugins_path_override :: "string option \<Rightarrow> string option \<Rightarrow> string option" where
  "plugins_path_override home path = (case path of
      None \<Rightarrow> None
    | Some p \<Rightarrow>
        if p \<noteq> [] \<and> hd p = CHR ''~'' \<and> (tl p = [] \<or> hd (tl p) = CHR ''/'')
        then (case home of Some l_home \<Rightarrow> Some (l_home @ tl p) | None \<Rightarrow> Some p)
        else Some p)"

definition choose_sys_dir :: "build \<Rightarrow> node_sdk \<Rightarrow> argv \<Rightarrow> unit node" where
  "choose_sys_dir b d av =
     seq (if \<not> DAP_OS_ANDROID b \<and> 2 < length av \<and> dap_strcmp d ''-B'' (av ! 1) = 0
          then set_global_sys_dir (av ! 2) else ret ())
    (bnd (get_state sys_dir) (\<lambda>dir. if dir \<noteq> None then ret ()
      else if DAP_OS_WINDOWS b then set_global_sys_dir (regGetUsrPath d @ ''/'' @ NODE_NAME d)
      else if DAP_OS_MAC b then set_global_sys_dir ''/Library/Application Support/CellframeNode/''
      else if DAP_OS_UNIX b then set_global_sys_dir (''/opt/'' @ NODE_NAME d)
      else ret ()))"

section \<open>Before the modules\<close>

text \<open>
  The buffer \<open>l_path\<close> has \<open>MAX_PATH + 1\<close> bytes. \<open>pos\<close> is the length \<open>snprintf\<close> would have written, so
  behind a cut path the second \<open>snprintf\<close> writes out of the buffer. Messages are modelled
  without the value of \<open>errno\<close>.
\<close>

definition node_dirs :: "build \<Rightarrow> node_sdk \<Rightarrow> unit node" where
  "node_dirs b d =
     bnd (get_state sys_dir) (\<lambda>sd.
     if \<not> dap_dir_test d sd then
       seq (log_it (''Invalid path '' @ [CHR 0x22] @ (case sd of None \<Rightarrow> ''(null)'' | Some dir \<Rightarrow> dir) @ [CHR 0x22]))
           (seq delete_sys_dir (exit_with (-1)))
     else case sd of None \<Rightarrow> crash NullDeref | Some dir \<Rightarrow>
       let log_dir = dir @ ''/var/log''; l_path = take (MAX_PATH d) log_dir; pos = length log_dir in
       bnd (ncall d ''dap_mkdir_with_parents'' [l_path]) (\<lambda>rc.
       if rc \<noteq> 0 then seq (log_it (''Can't create directory '' @ l_path)) (seq delete_sys_dir (exit_with (-2)))
       else if MAX_PATH d + 1 < pos then crash OutOfBounds
       else let l_path = take (MAX_PATH d) (log_dir @ ''/'' @ NODE_NAME d @ ''.log'') in
         bnd (ncall d ''dap_common_init'' [NODE_NAME d, l_path]) (\<lambda>rc.
         if rc \<noteq> 0 then seq (log_it ''Fatal Error: Can't init common functions module'')
                        (seq delete_sys_dir (exit_with (-3)))
         else seq (void ''dap_log_set_external_output'' [])
           (seq (log_it (''Use main path: '' @ dir))
           (let l_path = take (MAX_PATH d) (dir @ ''/etc'') in
            bnd (ncall d ''dap_config_init'' [l_path]) (\<lambda>rc.
            if rc \<noteq> 0 then seq (log_it (''Can't init general config '' @ l_path @ ''/'' @ NODE_NAME d @ ''.cfg''))
                           (seq delete_sys_dir (exit_with (-4)))
            else if \<not> config_open d then seq (log_it (''Can't open general config '' @ NODE_NAME d @ ''.cfg''))
                           (seq delete_sys_dir (exit_with (-5)))
            else ret ()))))))"

text \<open>The path of the pid file, and the check on it; the result is \<open>l_pid_check\<close>.\<close>

definition pid_file_path :: "node_sdk \<Rightarrow> string \<Rightarrow> string" where
  "pid_file_path d dir = config_item_path d ''resources'' ''pid_path'' (take (MAX_PATH d) (dir @ ''/tmp''))"

definition win_event_name :: string where
  "win_event_name = ''DAP_CELLFRAME_NODE_74E9201D33F7F7F684D2FEF1982799A79B6BF94''
     @ ''B568446A8D1DE947B00E3C75060F3FD5BF277592D02F77D7E50935E56''"

definition pid_check :: "build \<Rightarrow> node_sdk \<Rightarrow> unit node" where
  "pid_check b d =
    (if \<not> DAP_OS_WINDOWS b then
       bnd (get_state sys_dir) (\<lambda>sd. case sd of None \<Rightarrow> crash NullDeref | Some dir \<Rightarrow>
       let p = pid_file_path d dir in
       bnd (get_state (\<lambda>s. fst (s_proc_running_check (getpid d) (pid_files s p)))) (\<lambda>l_pid_check.
       seq (modify (\<lambda>s. s\<lparr>pid_files := (pid_files s)(p := snd (s_proc_running_check (getpid d) (pid_files s p)))\<rparr>))
           (if l_pid_check \<noteq> 0 then exit_with 2 else ret ())))
     else if event_exists d win_event_name
       then seq (log_it ''dap_server is already running'') (seq delete_sys_dir (exit_with 2))
       else ret ())"

definition node_log_mode :: "node_sdk \<Rightarrow> string option \<Rightarrow> unit node" where
  "node_log_mode d override =
     seq (log_it ''Parsing command line args'')
    (seq (case override of None \<Rightarrow> ret () | Some p \<Rightarrow> log_it (''Plugins path overridden from command line: '' @ p))
    (let l_debug_mode = config_bool d ''general'' ''debug_mode'' False in
     seq (log_it (if l_debug_mode then ''*** DEBUG MODE ***'' else ''*** NORMAL MODE ***''))
    (seq (void ''dap_log_level_set'' [if l_debug_mode then ''L_DEBUG'' else ''L_NOTICE''])
    (seq (log_it (''*** CellFrame Node version: '' @ DAP_VERSION d @ '' ***''))
         (if config_bool d ''log'' ''rotate_enabled'' False then
            let l_timeout_minutes = (word_of_int (config_int d ''log'' ''rotate_timeout'' 0) :: 64 word);
                l_max_file_size = (word_of_int (config_int d ''log'' ''rotate_size'' 0) :: 64 word) in
            seq (log_it (''Log rotation every '' @ show_nat (unat l_timeout_minutes)
                   @ '' min enabled, max log file size '' @ show_nat (unat l_max_file_size) @ '' MB''))
                (void ''dap_common_enable_cleaner_log''
                   [show_nat (unat (l_timeout_minutes * 60000)), show_nat (unat l_max_file_size)])
          else ret ())))))"

section \<open>The modules\<close>

text \<open>
  A module's initialisation in the source is one of three statements: a failure ends \<open>main\<close> with a
  code (behind a message, in all cases but one), a failure is only logged, or there is no
  result to look at.
\<close>

datatype stage =
    Fatal string "string list" "string option" int
  | Warn string "string list" string
  | Void string "string list"

definition run_stage :: "node_sdk \<Rightarrow> stage \<Rightarrow> unit node" where
  "run_stage d st = (case st of
      Fatal f xs msg code \<Rightarrow> bnd (ncall d f xs) (\<lambda>rc.
        if rc \<noteq> 0 then seq (case msg of None \<Rightarrow> ret () | Some m \<Rightarrow> log_it m) (exit_with code) else ret ())
    | Warn f xs msg \<Rightarrow> bnd (ncall d f xs) (\<lambda>rc. if rc \<noteq> 0 then log_it msg else ret ())
    | Void f xs \<Rightarrow> void f xs)"

fun run_stages :: "node_sdk \<Rightarrow> stage list \<Rightarrow> unit node" where
  "run_stages d [] = ret ()"
| "run_stages d (st # sts) = seq (run_stage d st) (run_stages d sts)"

text \<open>Encryption, the event loop and the HTTP and stream servers.\<close>

definition server_enabled :: "node_sdk \<Rightarrow> bool" where
  "server_enabled d = config_bool d ''server'' ''enabled'' False"

definition net_stages :: "build \<Rightarrow> node_sdk \<Rightarrow> stage list" where
  "net_stages b d =
    [Fatal ''dap_enc_init'' [] (Some ''Can't init encryption module'') (-56),
     Void ''dap_events_init'' [show_nat (unat (word_of_int (config_int d ''resources'' ''threads_cnt'' 0) :: 32 word)), ''0''],
     Void ''dap_events_start'' []] @
    (if server_enabled d then [Fatal ''dap_server_init'' [] (Some ''Can't init socket server module'') (-4)] else []) @
    [Fatal ''dap_http_init'' [] (Some ''Can't init http server module'') (-5)] @
    (if \<not> DAP_OS_ANDROID b then [Fatal ''dap_http_folder_init'' [] (Some ''Can't init http server module'') (-55)] else []) @
    [Fatal ''dap_http_simple_module_init'' [] (Some ''Can't init http simple module'') (-9),
     Fatal ''enc_http_init'' [] (Some ''Can't init encryption http session storage module'') (-81),
     Fatal ''dap_stream_init'' [''g_config''] (Some ''Can't init stream server module'') (-82),
     Fatal ''dap_stream_ctl_init'' [] (Some ''Can't init stream control module'') (-83),
     Void ''dap_client_init'' [],
     Warn ''dap_notify_server_init'' [] ''Can't init notify server module'',
     Fatal ''dap_global_db_init'' [] (Some ''Can't init global db module'') (-58)]"

text \<open>The mempool, the chains and their consensus modules, and the services of the networks.\<close>

definition chain_stages :: "stage list" where
  "chain_stages =
    [Fatal ''dap_datum_mempool_init'' [] (Some ''Can't init mempool module'') (-59),
     Fatal ''dap_chain_init'' [] (Some ''Can't init dap chain modules'') (-60),
     Warn ''dap_chain_net_srv_stake_pos_delegate_init'' [] ''Can't start delegated PoS stake service'',
     Fatal ''dap_chain_cs_dag_init'' [] (Some ''Can't init dap chain dag consensus module'') (-62),
     Fatal ''dap_chain_cs_dag_poa_init'' [] (Some ''Can't init dap chain dag consensus PoA module'') (-63),
     Fatal ''dap_chain_cs_blocks_init'' [] (Some ''Can't init dap chain blocks consensus module'') (-62),
     Fatal ''dap_chain_cs_esbocs_init'' []
       (Some ''Can't init enhanced stake-based blocks operating consensus module'') (-69),
     Fatal ''dap_nonconsensus_init'' [] (Some ''Can't init nonconsensus chain module'') (-71),
     Fatal ''dap_chain_net_init'' [] (Some ''Can't init dap chain network module'') (-65),
     Fatal ''dap_chain_policy_init'' [] (Some ''Can't init dap chain policy module'') (-66),
     Fatal ''dap_chain_wallet_init'' [] (Some ''Can't init dap chain wallet module'') (-61),
     Fatal ''dap_chain_net_srv_init'' [] (Some ''Can't init dap chain network service module'') (-66),
     Warn ''dap_chain_net_srv_xchange_init'' [] ''Can't provide exchange capability'',
     Warn ''dap_chain_net_srv_dex_init'' [] ''Can't provide DEX v2 capability'',
     Warn ''dap_chain_net_srv_voting_init'' [] ''Can't provide voting capability'',
     Warn ''dap_chain_net_srv_bridge_init'' [] ''Can't provide bridge capability'',
     Warn ''dap_chain_net_srv_stake_ext_init'' [] ''Can't provide stake-ext capability'',
     Warn ''dap_chain_net_srv_stake_lock_init'' [] ''Can't start stake lock service'']"

definition vpn_pre_stages :: "build \<Rightarrow> stage list" where
  "vpn_pre_stages b =
    (if \<not> WIN32 b \<and> \<not> DAP_OS_ANDROID b
     then [Warn ''dap_chain_net_srv_vpn_pre_init'' [] ''Can't pre-init vpn service''] else [])"

text \<open>The signal handlers. The Unix one gets the configured pid path, or \<^verbatim>\<open>/tmp\<close>.\<close>

definition sig_stage :: "build \<Rightarrow> node_sdk \<Rightarrow> unit node" where
  "sig_stage b d =
    (if \<not> WIN32 b then
       let p = config_str_default d ''resources'' ''pid_path'' ''/tmp'' in
       bnd (get_state (\<lambda>s. fst (sig_unix_handler_init p (sigs s)))) (\<lambda>rc.
       seq (modify (\<lambda>s. s\<lparr>sigs := snd (sig_unix_handler_init p (sigs s))\<rparr>))
           (if rc \<noteq> 0 then seq (log_it ''Can't init sig unix handler module'') (exit_with (-12)) else ret ()))
     else
       bnd (get_state (\<lambda>s. fst (sig_win32_handler_init (set_ctrl_handler_ok d) (win_handler s)))) (\<lambda>rc.
       seq (modify (\<lambda>s. s\<lparr>win_handler := snd (sig_win32_handler_init (set_ctrl_handler_ok d) (win_handler s))\<rparr>))
           (if rc \<noteq> 0 then seq (log_it ''Can't init sig win32 handler module'') (exit_with (-12)) else ret ())))"

definition cli_stages :: "stage list" where
  "cli_stages =
    [Fatal ''dap_chain_node_cli_init'' [''g_config''] (Some ''Can't init server for console'') (-11),
     Fatal ''dap_chain_wallet_cache_init'' [] (Some ''Can't init dap chain wallet module'') (-61)]"

text \<open>The plugins: the result says whether they stay enabled.\<close>

definition plugins_dir :: "build \<Rightarrow> node_sdk \<Rightarrow> string option \<Rightarrow> string \<Rightarrow> string" where
  "plugins_dir b d override dir = (case override of
      Some p \<Rightarrow> p
    | None \<Rightarrow> config_str_default d ''plugins'' ''path''
        (if DAP_OS_WINDOWS b then dir @ ''/var/lib/plugins/'' else dir @ ''/var/lib/plugins''))"

definition load_plugins :: "build \<Rightarrow> node_sdk \<Rightarrow> string option \<Rightarrow> bool node" where
  "load_plugins b d override =
    (if config_bool d ''plugins'' ''enabled'' False then
       bnd (get_state sys_dir) (\<lambda>sd. case sd of None \<Rightarrow> crash NullDeref | Some dir \<Rightarrow>
       bnd (ncall d ''dap_plugin_init'' [plugins_dir b d override dir]) (\<lambda>rc.
       if rc \<noteq> 0 then
         seq (log_it (''The initial initialization for working with manifests and binary plugins failed. Error code ''
                @ show_int rc)) (ret False)
       else seq (if DAP_SUPPORT_PYTHON_PLUGINS b
                 then seq (log_it ''Registering python plugin type'')
                          (bnd (ncall d ''dap_chain_plugins_init'' [''g_config'']) (\<lambda>_. ret ()))
                 else ret ())
           (seq (void ''dap_plugin_load_all'' []) (seq (void ''dap_plugin_preinit_all'' []) (ret True)))))
     else ret False)"

definition late_stages :: "stage list" where
  "late_stages =
    [Void ''dap_chain_net_load_all'' [],
     Fatal ''dap_chain_wallet_shared_notify_init'' [] (Some ''Can't init dap chain wallet module'') (-61),
     Fatal ''dap_chain_net_srv_order_init'' [] None (-67),
     Fatal ''dap_chain_node_list_clean_init'' [] (Some ''Can't init node list clean'') (-131),
     Fatal ''dap_global_db_clean_init'' [] (Some ''Can't init gdb clean and pin'') (-133)]"

section \<open>The server\<close>

definition autoproc :: "node_sdk \<Rightarrow> unit node" where
  "autoproc d = bnd (ncall d ''dap_chain_node_mempool_autoproc_init'' []) (\<lambda>r.
     log_it (''Automatic mempool processing '' @ (if r \<noteq> 0 then ''enabled'' else ''disabled'')))"

text \<open>\<open>dap_http_server_new\<close> answers with a pointer; 0 is NULL. The result says whether there is a server.\<close>

definition new_server :: "node_sdk \<Rightarrow> bool node" where
  "new_server d =
    (if server_enabled d
     then bnd (ncall d ''dap_http_server_new'' [''server'', NODE_NAME d]) (\<lambda>p. ret (p \<noteq> 0))
     else ret False)"

definition server_stages :: "build \<Rightarrow> node_sdk \<Rightarrow> stage list" where
  "server_stages b d =
    [Void ''enc_http_add_proc'' [''DAP_UPLINK_PATH_ENC_INIT''],
     Void ''dap_stream_add_proc_http'' [''DAP_UPLINK_PATH_STREAM''],
     Void ''dap_stream_ctl_add_proc'' [''DAP_UPLINK_PATH_STREAM_CTL'']] @
    (if config_str d ''mempool'' ''accept'' = Some ''true''
     then [Void ''dap_chain_mempool_add_proc'' [''/mempool'']] else []) @
    [Fatal ''dap_json_rpc_init'' [''g_config''] (Some ''Can't init json-rpc'') (-12)] @
    (if \<not> DAP_OS_ANDROID b \<and> config_bool d ''www'' ''enabled'' False
     then [Void ''dap_http_folder_add''
             [''/'', case config_str d ''resources'' ''www_root'' of None \<Rightarrow> ''(null)'' | Some v \<Rightarrow> v]] else []) @
    [Void ''dap_server_set_default'' [],
     Void ''dap_http_simple_proc_add'' [''DAP_UPLINK_PATH_NODE_LIST'', ''2048'']] @
    (if config_bool d ''bootstrap_balancer'' ''http_server'' False
     then [Void ''dap_http_simple_proc_add'' [''DAP_UPLINK_PATH_BALANCER'', ''DAP_BALANCER_MAX_REPLY_SIZE'']] else []) @
    (if config_bool d ''bootstrap_balancer'' ''dns_server'' False
     then [Void ''dap_dns_server_start'' [''bootstrap_balancer'']] else [])"

definition start_server :: "build \<Rightarrow> node_sdk \<Rightarrow> bool \<Rightarrow> unit node" where
  "start_server b d l_server =
    (if l_server then run_stages d (server_stages b d)
     else log_it ''No enabled server, working in client mode only'')"

definition vpn_stages :: "build \<Rightarrow> node_sdk \<Rightarrow> stage list" where
  "vpn_stages b d =
    (if DAP_OS_DARWIN b \<or> DAP_OS_LINUX b \<and> \<not> DAP_OS_ANDROID b then
       (if config_bool d ''srv_vpn'' ''enabled'' False
        then [Fatal ''dap_chain_net_srv_vpn_init'' [''g_config'']
                (Some ''Can't init dap chain network service vpn module'') (-70)] else []) @
       [Fatal ''dap_chain_net_vpn_client_init'' [''g_config'']
          (Some ''Can't init dap chain network service vpn client'') (-72)] @
       (if config_bool d ''srv_vpn'' ''geoip_enabled'' False
        then [Fatal ''chain_net_geoip_init'' [''g_config''] (Some ''Can't init geoip module'') (-73)] else [])
     else [])"

section \<open>The loop and the shutdown\<close>

definition plugin_start_stages :: "build \<Rightarrow> bool \<Rightarrow> stage list" where
  "plugin_start_stages b l_plugins_enabled =
    (if l_plugins_enabled then
       (if DAP_SUPPORT_PYTHON_PLUGINS b then [Void ''dap_plugins_python_app_content_init'' []] else []) @
       [Void ''dap_plugin_start_all'' []] @
       (if DAP_SUPPORT_PYTHON_PLUGINS b then [Void ''dap_chain_plugins_save_thread'' [''g_config'']] else [])
     else []) @ [Void ''dap_chain_net_try_online_all'' []]"

definition deinit_stages :: "build \<Rightarrow> node_sdk \<Rightarrow> bool \<Rightarrow> stage list" where
  "deinit_stages b d l_plugins_enabled =
    (if l_plugins_enabled then [Void ''dap_plugin_stop_all'' [], Void ''dap_plugin_deinit'' []] else []) @
    [Void ''dap_dns_server_stop'' [], Void ''dap_stream_deinit'' [], Void ''dap_stream_ctl_deinit'' []] @
    (if \<not> DAP_OS_ANDROID b then [Void ''dap_http_folder_deinit'' []] else []) @
    [Void ''dap_http_deinit'' []] @
    (if server_enabled d then [Void ''dap_server_deinit'' []] else []) @
    [Void ''dap_enc_ks_deinit'' [], Void ''dap_chain_node_mempool_autoproc_deinit'' [],
     Void ''dap_chain_net_srv_xchange_deinit'' [], Void ''dap_chain_net_srv_stake_pos_delegate_deinit'' [],
     Void ''dap_chain_net_srv_stake_lock_deinit'' [], Void ''dap_chain_net_srv_bridge_deinit'' [],
     Void ''dap_chain_net_srv_voting_deinit'' [], Void ''dap_chain_net_deinit'' [],
     Void ''dap_global_db_deinit'' [], Void ''dap_chain_deinit'' [], Void ''dap_config_close'' [''g_config''],
     Void ''dap_interval_timer_deinit'' [], Void ''dap_common_deinit'' []]"

definition run_loop :: "build \<Rightarrow> node_sdk \<Rightarrow> bool \<Rightarrow> int node" where
  "run_loop b d l_plugins_enabled =
     seq (run_stages d (plugin_start_stages b l_plugins_enabled))
    (bnd (ncall d ''dap_events_wait'' []) (\<lambda>rc.
     seq (log_it (''Server loop stopped with return code '' @ show_int rc))
    (seq (run_stages d (deinit_stages b d l_plugins_enabled))
         (ret (rc * 10)))))"

section \<open>main\<close>

text \<open>\<open>main\<close> behind the pid check.\<close>

definition start_modules :: "build \<Rightarrow> node_sdk \<Rightarrow> unit node" where
  "start_modules b d =
     seq (run_stages d (net_stages b d))
    (seq (run_stages d chain_stages)
    (seq (run_stages d (vpn_pre_stages b))
    (seq (sig_stage b d)
         (run_stages d cli_stages))))"

definition node_up :: "build \<Rightarrow> node_sdk \<Rightarrow> string option \<Rightarrow> int node" where
  "node_up b d override =
     seq (node_log_mode d override)
    (seq (start_modules b d)
    (bnd (load_plugins b d override) (\<lambda>l_plugins_enabled.
     seq (run_stages d late_stages)
    (seq (autoproc d)
    (bnd (new_server d) (\<lambda>l_server.
     seq (start_server b d l_server)
    (seq (run_stages d (vpn_stages b d))
         (run_loop b d l_plugins_enabled))))))))"

definition node_main :: "build \<Rightarrow> node_sdk \<Rightarrow> argv \<Rightarrow> int node" where
  "node_main b d av =
     bnd (arg_opt av 1) (\<lambda>a1.
     if a1 \<noteq> None \<and> dap_strcmp d ''-version'' (the a1) = 0
     then seq (log_it (dap_node_version d)) (exit_with 0)
     else seq (void ''dap_set_appname'' [NODE_NAME d])
    (seq (if WIN32 b \<and> NDEBUG b then void ''S_SetExceptionFilter'' [] else ret ())
    (seq (choose_sys_dir b d av)
    (let override = plugins_path_override (getenv_HOME d) (plugins_path_arg b d av) in
     seq (node_dirs b d)
    (seq (pid_check b d)
         (node_up b d override))))))"

section \<open>Programs that follow a script of calls\<close>

text \<open>
  \<open>scripted m S\<close>: a run of \<open>m\<close> only appends to the trace; when it returns \<open>a\<close>, the functions it called
  are the list \<open>S\<close> pairs with \<open>a\<close>; when it ends the process, they are a beginning of one of the
  lists.
\<close>

definition calls_of :: "nhist \<Rightarrow> string list" where
  "calls_of h = concat (map (\<lambda>e. case e of NCall f _ _ \<Rightarrow> [f] | NVoid f _ \<Rightarrow> [f] | NLog _ \<Rightarrow> []) h)"

lemma calls_of_append [simp]: "calls_of (g @ h) = calls_of g @ calls_of h"
  by (simp add: calls_of_def)

lemma calls_of_simps [simp]:
  "calls_of [] = []" "calls_of (NCall f xs rc # h) = f # calls_of h"
  "calls_of (NVoid f xs # h) = f # calls_of h" "calls_of (NLog m # h) = calls_of h"
  by (simp_all add: calls_of_def)

definition scripted :: "'a node \<Rightarrow> ('a \<times> string list) set \<Rightarrow> bool" where
  "scripted m S \<longleftrightarrow> (\<forall>s r t. m s = (r, t) \<longrightarrow>
     (\<exists>new. ntrace t = ntrace s @ new \<and>
        (case r of Ret a \<Rightarrow> (a, calls_of new) \<in> S | _ \<Rightarrow> (\<exists>a cs. (a, cs) \<in> S \<and> prefix (calls_of new) cs))))"

abbreviation fixed :: "'a node \<Rightarrow> string list \<Rightarrow> bool" where
  "fixed m cs \<equiv> scripted m (UNIV \<times> {cs})"

lemma scripted_mono:
  assumes "scripted m S" and "S \<subseteq> T"
  shows "scripted m T"
  unfolding scripted_def
proof (intro allI impI)
  fix s r t assume "m s = (r, t)"
  with assms(1) obtain new where "ntrace t = ntrace s @ new"
    and "case r of Ret a \<Rightarrow> (a, calls_of new) \<in> S | _ \<Rightarrow> (\<exists>a cs. (a, cs) \<in> S \<and> prefix (calls_of new) cs)"
    unfolding scripted_def by blast
  then show "\<exists>new. ntrace t = ntrace s @ new \<and>
      (case r of Ret a \<Rightarrow> (a, calls_of new) \<in> T | _ \<Rightarrow> (\<exists>a cs. (a, cs) \<in> T \<and> prefix (calls_of new) cs))"
    using assms(2) by (intro exI [of _ new], cases r) auto
qed

lemma scripted_ret: "(a, []) \<in> S \<Longrightarrow> scripted (ret a) S"
  by (simp add: scripted_def prog_simps)

lemma scripted_exit: "S \<noteq> {} \<Longrightarrow> scripted (exit_with c) S"
  and scripted_crash: "S \<noteq> {} \<Longrightarrow> scripted (crash u) S"
  by (auto simp: scripted_def prog_simps)

lemma scripted_get: "fixed (get_state f) []"
  by (simp add: scripted_def prog_simps)

lemma scripted_modify: "(\<And>s. ntrace (g s) = ntrace s) \<Longrightarrow> fixed (modify g) []"
  by (simp add: scripted_def prog_simps)

lemma scripted_log: "fixed (log_it m) []"
  and scripted_void: "fixed (void f xs) [f]"
  and scripted_call: "fixed (ncall d f xs) [f]"
  by (auto simp: scripted_def log_it_def void_def ncall_def emit_def prog_simps)

lemma scripted_bnd:
  assumes "scripted m S" and "\<And>a. scripted (k a) (T a)" and "\<And>a. T a \<noteq> {}"
    and sub: "\<And>a b x y. (a, x) \<in> S \<Longrightarrow> (b, y) \<in> T a \<Longrightarrow> (b, x @ y) \<in> U"
  shows "scripted (bnd m k) U"
  unfolding scripted_def
proof (intro allI impI)
  fix s r t assume run: "bnd m k s = (r, t)"
  obtain q u where q: "m s = (q, u)" by fastforce
  obtain new where new: "ntrace u = ntrace s @ new"
    and S: "case q of Ret a \<Rightarrow> (a, calls_of new) \<in> S | _ \<Rightarrow> (\<exists>a cs. (a, cs) \<in> S \<and> prefix (calls_of new) cs)"
    using assms(1) q unfolding scripted_def by blast
  have U: "\<exists>b cs. (b, cs) \<in> U \<and> prefix (calls_of new) cs" if "\<forall>a. q \<noteq> Ret a"
  proof -
    from S that obtain a cs where cs: "(a, cs) \<in> S" "prefix (calls_of new) cs" by (cases q) auto
    obtain b y where "(b, y) \<in> T a" using assms(3) by fastforce
    with cs sub show ?thesis by (meson prefix_prefix)
  qed
  show "\<exists>new. ntrace t = ntrace s @ new \<and>
      (case r of Ret b \<Rightarrow> (b, calls_of new) \<in> U | _ \<Rightarrow> (\<exists>b cs. (b, cs) \<in> U \<and> prefix (calls_of new) cs))"
  proof (cases q)
    case (Ret a)
    with run q have k: "k a u = (r, t)" by (simp add: prog_simps)
    obtain new2 where "ntrace t = ntrace u @ new2"
      and "case r of Ret b \<Rightarrow> (b, calls_of new2) \<in> T a | _ \<Rightarrow> (\<exists>b cs. (b, cs) \<in> T a \<and> prefix (calls_of new2) cs)"
      using assms(2) k unfolding scripted_def by blast
    with new S Ret sub show ?thesis
      by (intro exI [of _ "new @ new2"]) (fastforce split: res.splits)
  next
    case (Exit c)
    with run q have "r = Exit c" "t = u" by (auto simp: prog_simps)
    with new U Exit show ?thesis by (intro exI [of _ new]) simp
  next
    case (Crash c)
    with run q have "r = Crash c" "t = u" by (auto simp: prog_simps)
    with new U Crash show ?thesis by (intro exI [of _ new]) simp
  qed
qed

lemma scripted_seq:
  assumes "fixed m cs" and "scripted k T" and "T \<noteq> {}" and "\<And>b y. (b, y) \<in> T \<Longrightarrow> (b, cs @ y) \<in> U"
  shows "scripted (seq m k) U"
  unfolding seq_def by (rule scripted_bnd [OF assms(1,2,3)]) (use assms(4) in auto)

lemma scripted_seq1:
  assumes "fixed m cs" and "scripted k {(a, ds)}"
  shows "scripted (seq m k) {(a, cs @ ds)}"
  by (rule scripted_seq [OF assms]) simp_all

text \<open>Families of scripts: the rest of the script depends on an answer, or on two.\<close>

lemma scripted_seq_family:
  assumes "fixed m cs" and "scripted k (UNIV \<times> range D)"
  shows "scripted (seq m k) (UNIV \<times> range (\<lambda>i. cs @ D i))"
  by (rule scripted_seq [OF assms]) auto

lemma scripted_bnd_family:
  assumes "scripted m (range (\<lambda>a. (a, C a)))" and "\<And>a. scripted (k a) (UNIV \<times> range (D a))"
  shows "scripted (bnd m k) (UNIV \<times> range (\<lambda>(a, i). C a @ D a i))"
proof (rule scripted_bnd [OF assms])
  fix a b x y
  assume "(a, x) \<in> range (\<lambda>a. (a, C a))" and "(b, y) \<in> UNIV \<times> range (D a)"
  then obtain i where "x @ y = (\<lambda>(a, i). C a @ D a i) (a, i)" by auto
  then show "(b, x @ y) \<in> UNIV \<times> range (\<lambda>(a, i). C a @ D a i)" by blast
qed auto

lemma scripted_bnd_fixed:
  assumes "scripted m (range (\<lambda>a. (a, C a)))" and "\<And>a. fixed (k a) (D a)"
  shows "scripted (bnd m k) (UNIV \<times> range (\<lambda>a. C a @ D a))"
  by (rule scripted_bnd [OF assms]) auto

lemma fixed_bnd: "fixed m cs \<Longrightarrow> (\<And>a. fixed (k a) ds) \<Longrightarrow> fixed (bnd m k) (cs @ ds)"
  by (rule scripted_bnd) auto

lemma fixed_seq: "fixed m cs \<Longrightarrow> fixed k ds \<Longrightarrow> fixed (seq m k) (cs @ ds)"
  by (rule scripted_seq) auto

lemma fixed_bnd0: "fixed m [] \<Longrightarrow> (\<And>a. fixed (k a) ds) \<Longrightarrow> fixed (bnd m k) ds"
  using fixed_bnd [of m "[]" k ds] by simp

lemma fixed_seq0: "fixed m [] \<Longrightarrow> fixed k ds \<Longrightarrow> fixed (seq m k) ds"
  using fixed_seq [of m "[]" k ds] by simp

lemma fixed_if: "fixed p cs \<Longrightarrow> fixed q cs \<Longrightarrow> fixed (if b then p else q) cs"
  by simp

lemma fixed_exit: "fixed (exit_with c) cs"
  and fixed_crash: "fixed (crash u) cs"
  and fixed_ret: "fixed (ret a) []"
  by (auto intro: scripted_exit scripted_crash scripted_ret)

fun stage_name :: "stage \<Rightarrow> string" where
  "stage_name (Fatal f xs m c) = f"
| "stage_name (Warn f xs m) = f"
| "stage_name (Void f xs) = f"

lemma fixed_log_exit: "fixed (seq (log_it m) (exit_with c)) cs"
  by (rule fixed_seq0 [OF scripted_log fixed_exit])

lemma fixed_stage: "fixed (run_stage d st) [stage_name st]"
proof (cases st)
  case (Fatal f xs m c)
  have "fixed (seq (case m of None \<Rightarrow> ret () | Some m \<Rightarrow> log_it m) (exit_with c)) []"
    by (rule fixed_seq0 [OF _ fixed_exit]) (simp add: scripted_log fixed_ret split: option.split)
  then have "fixed (bnd (ncall d f xs) (\<lambda>rc. if rc \<noteq> 0
      then seq (case m of None \<Rightarrow> ret () | Some m \<Rightarrow> log_it m) (exit_with c) else ret ())) ([f] @ [])"
    by (intro fixed_bnd scripted_call fixed_if fixed_ret)
  with Fatal show ?thesis by (simp add: run_stage_def)
next
  case (Warn f xs m)
  have "fixed (bnd (ncall d f xs) (\<lambda>rc. if rc \<noteq> 0 then log_it m else ret ())) ([f] @ [])"
    by (intro fixed_bnd scripted_call fixed_if fixed_ret scripted_log)
  with Warn show ?thesis by (simp add: run_stage_def)
next
  case (Void f xs)
  then show ?thesis by (simp add: run_stage_def scripted_void)
qed

lemma fixed_stages: "fixed (run_stages d sts) (map stage_name sts)"
proof (induction sts)
  case Nil
  show ?case by (simp add: fixed_ret)
next
  case (Cons st sts)
  with fixed_seq [OF fixed_stage] show ?case by force
qed

subsection \<open>The script of the node\<close>

definition log_script :: "node_sdk \<Rightarrow> string list" where
  "log_script d = ''dap_log_level_set'' #
     (if config_bool d ''log'' ''rotate_enabled'' False then [''dap_common_enable_cleaner_log''] else [])"

definition load_script :: "build \<Rightarrow> node_sdk \<Rightarrow> bool \<Rightarrow> string list" where
  "load_script b d plug =
    (if config_bool d ''plugins'' ''enabled'' False then
       ''dap_plugin_init'' #
       (if plug then (if DAP_SUPPORT_PYTHON_PLUGINS b then [''dap_chain_plugins_init''] else [])
           @ [''dap_plugin_load_all'', ''dap_plugin_preinit_all''] else [])
     else [])"

definition boot_script :: "string list" where
  "boot_script = [''dap_mkdir_with_parents'', ''dap_common_init'', ''dap_log_set_external_output'', ''dap_config_init'']"

definition module_script :: "build \<Rightarrow> node_sdk \<Rightarrow> string list" where
  "module_script b d = map stage_name (net_stages b d @ chain_stages @ vpn_pre_stages b @ cli_stages)"

definition server_script :: "build \<Rightarrow> node_sdk \<Rightarrow> bool \<Rightarrow> string list" where
  "server_script b d srv = (if srv then map stage_name (server_stages b d) else [])"

definition up_script :: "build \<Rightarrow> node_sdk \<Rightarrow> bool \<Rightarrow> bool \<Rightarrow> string list" where
  "up_script b d plug srv =
     log_script d @ module_script b d @ load_script b d plug @ map stage_name late_stages
     @ [''dap_chain_node_mempool_autoproc_init'']
     @ (if server_enabled d then [''dap_http_server_new''] else [])
     @ server_script b d srv @ map stage_name (vpn_stages b d @ plugin_start_stages b plug)
     @ [''dap_events_wait''] @ map stage_name (deinit_stages b d plug)"

definition node_script :: "build \<Rightarrow> node_sdk \<Rightarrow> bool \<Rightarrow> bool \<Rightarrow> string list" where
  "node_script b d plug srv =
     ''dap_set_appname'' # (if WIN32 b \<and> NDEBUG b then [''S_SetExceptionFilter''] else [])
     @ boot_script @ up_script b d plug srv"

lemma fixed_log_mode: "fixed (node_log_mode d override) (log_script d)"
proof -
  let ?rot = "if config_bool d ''log'' ''rotate_enabled'' False then [''dap_common_enable_cleaner_log''] else []"
  have rot: "fixed (if config_bool d ''log'' ''rotate_enabled'' False then
      let l_timeout_minutes = (word_of_int (config_int d ''log'' ''rotate_timeout'' 0) :: 64 word);
          l_max_file_size = (word_of_int (config_int d ''log'' ''rotate_size'' 0) :: 64 word) in
      seq (log_it (''Log rotation every '' @ show_nat (unat l_timeout_minutes)
             @ '' min enabled, max log file size '' @ show_nat (unat l_max_file_size) @ '' MB''))
          (void ''dap_common_enable_cleaner_log''
             [show_nat (unat (l_timeout_minutes * 60000)), show_nat (unat l_max_file_size)])
    else ret ()) ?rot"
    unfolding Let_def by (simp add: fixed_ret fixed_seq0 [OF scripted_log scripted_void])
  show ?thesis
    unfolding node_log_mode_def log_script_def Let_def [of "config_bool d ''general'' ''debug_mode'' False"]
    by (rule fixed_seq0 [OF scripted_log], rule fixed_seq0, simp add: scripted_log fixed_ret split: option.split,
        rule fixed_seq0 [OF scripted_log], rule fixed_seq [of _ "[_]", simplified], rule scripted_void,
        rule fixed_seq0 [OF scripted_log], rule rot)
qed

lemma fixed_sig_stage: "fixed (sig_stage b d) []"
  unfolding sig_stage_def Let_def
  by (intro fixed_if fixed_bnd0 fixed_seq0 scripted_get scripted_modify fixed_log_exit fixed_ret) simp_all

lemma fixed_start_modules: "fixed (start_modules b d) (module_script b d)"
  unfolding start_modules_def module_script_def map_append
  by (intro fixed_seq fixed_stages fixed_seq0 [OF fixed_sig_stage])

lemma fixed_choose: "fixed (choose_sys_dir b d av) []"
  unfolding choose_sys_dir_def set_global_sys_dir_def
  by (intro fixed_seq0 fixed_bnd0 fixed_if scripted_get scripted_modify fixed_ret) simp_all

lemma fixed_fail: "fixed (seq (log_it m) (seq delete_sys_dir (exit_with c))) cs"
  unfolding delete_sys_dir_def by (intro fixed_seq0 scripted_log scripted_modify fixed_exit) simp

lemma fixed_pid_check: "fixed (pid_check b d) []"
proof -
  have "fixed (case sd of None \<Rightarrow> crash NullDeref | Some dir \<Rightarrow>
       let p = pid_file_path d dir in
       bnd (get_state (\<lambda>s. fst (s_proc_running_check (getpid d) (pid_files s p)))) (\<lambda>l_pid_check.
       seq (modify (\<lambda>s. s\<lparr>pid_files := (pid_files s)(p := snd (s_proc_running_check (getpid d) (pid_files s p)))\<rparr>))
           (if l_pid_check \<noteq> 0 then exit_with 2 else ret ()))) []" for sd
    by (cases sd) (auto simp: Let_def intro!: fixed_crash fixed_bnd0 fixed_seq0 scripted_get scripted_modify
        fixed_if fixed_exit fixed_ret)
  then show ?thesis
    unfolding pid_check_def by (intro fixed_if fixed_bnd0 scripted_get fixed_fail fixed_ret)
qed

lemma fixed_node_dirs: "fixed (node_dirs b d) boot_script"
proof -
  have cons: "fixed m [f] \<Longrightarrow> (\<And>a. fixed (k a) cs) \<Longrightarrow> fixed (bnd m k) (f # cs)" for m :: "int node" and k f cs
    using fixed_bnd [of m "[f]" k cs] by simp
  have "fixed (seq (void f []) k) (f # cs)" if "fixed k cs" for f cs and k :: "unit node"
    using fixed_seq [OF scripted_void that, of f "[]"] by simp
  note steps = scripted_get fixed_fail fixed_crash scripted_call fixed_ret scripted_log
  show ?thesis
    unfolding node_dirs_def boot_script_def Let_def
    by (rule fixed_bnd0 [OF scripted_get]) (auto split: option.split intro!: steps cons
        fixed_seq0 [OF scripted_log] \<open>\<And>k f cs. fixed k cs \<Longrightarrow> fixed (seq (void f []) k) (f # cs)\<close>)
qed

lemma load_plugins_scripted: "scripted (load_plugins b d override) (range (\<lambda>p. (p, load_script b d p)))"
proof (cases "config_bool d ''plugins'' ''enabled'' False")
  case False
  then have "load_plugins b d override = ret False" "(False, []) \<in> range (\<lambda>p. (p, load_script b d p))"
    by (auto simp: load_plugins_def load_script_def image_def)
  then show ?thesis by (simp add: scripted_ret)
next
  case True
  define py :: "unit node" where "py = (if DAP_SUPPORT_PYTHON_PLUGINS b
                 then seq (log_it ''Registering python plugin type'')
                          (bnd (ncall d ''dap_chain_plugins_init'' [''g_config'']) (\<lambda>_. ret ()))
                 else ret ())"
  define ps where "ps = (if DAP_SUPPORT_PYTHON_PLUGINS b then [''dap_chain_plugins_init''] else [])"
  have "fixed (bnd (ncall d ''dap_chain_plugins_init'' [''g_config'']) (\<lambda>_. ret ())) ([''dap_chain_plugins_init''] @ [])"
    by (intro fixed_bnd scripted_call fixed_ret)
  then have py: "fixed py ps"
    unfolding py_def ps_def by (simp add: fixed_ret) (intro impI fixed_seq0 scripted_log)
  have r: "scripted (ret a) {(a, [])}" for a
    by (simp add: scripted_ret)
  have True_only: "scripted (seq py (seq (void ''dap_plugin_load_all'' []) (seq (void ''dap_plugin_preinit_all'' []) (ret True))))
      {(True, ps @ [''dap_plugin_load_all'', ''dap_plugin_preinit_all''])}"
    using scripted_seq1 [OF py scripted_seq1 [OF scripted_void [of "''dap_plugin_load_all''" "[]"]
          scripted_seq1 [OF scripted_void [of "''dap_plugin_preinit_all''" "[]"] r [of True]]]]
    by simp
  have failed: "scripted (seq (log_it m) (ret False)) {(False, [])}" for m
    using scripted_seq1 [OF scripted_log r] by simp
  have rng: "range (\<lambda>p. (p, load_script b d p)) =
      {(False, [''dap_plugin_init'']), (True, ''dap_plugin_init'' # ps @ [''dap_plugin_load_all'', ''dap_plugin_preinit_all''])}"
    by (simp add: UNIV_bool True load_script_def ps_def)
  let ?T = "{(False, []), (True, ps @ [''dap_plugin_load_all'', ''dap_plugin_preinit_all''])}"
  have "scripted (bnd (ncall d ''dap_plugin_init'' [plugins_dir b d override dir]) (\<lambda>rc.
       if rc \<noteq> 0 then
         seq (log_it (''The initial initialization for working with manifests and binary plugins failed. Error code ''
                @ show_int rc)) (ret False)
       else seq py (seq (void ''dap_plugin_load_all'' []) (seq (void ''dap_plugin_preinit_all'' []) (ret True)))))
      (range (\<lambda>p. (p, load_script b d p)))" for dir
    unfolding rng
    by (rule scripted_bnd [OF scripted_call, of _ "\<lambda>_. ?T"],
        simp add: scripted_mono [OF failed] scripted_mono [OF True_only], simp, auto)
  then show ?thesis
    unfolding load_plugins_def py_def [symmetric]
    by (simp add: True, intro scripted_bnd [OF scripted_get, where T = "\<lambda>_. range (\<lambda>p. (p, load_script b d p))"])
      (auto intro: scripted_crash split: option.split)
qed

lemma new_server_scripted:
  "scripted (new_server d) (range (\<lambda>v. (v, if server_enabled d then [''dap_http_server_new''] else [])))"
  unfolding new_server_def
  by (auto intro!: scripted_ret scripted_bnd [OF scripted_call, where T = "\<lambda>p. {(p \<noteq> 0, [])}"])

lemma fixed_start_server: "fixed (start_server b d srv) (server_script b d srv)"
  unfolding start_server_def server_script_def by (simp add: fixed_stages scripted_log)

lemma fixed_autoproc: "fixed (autoproc d) ([''dap_chain_node_mempool_autoproc_init''] @ [])"
  unfolding autoproc_def by (intro fixed_bnd scripted_call scripted_log)

lemma fixed_run_loop:
  "fixed (run_loop b d plug) (map stage_name (plugin_start_stages b plug) @ [''dap_events_wait'']
     @ map stage_name (deinit_stages b d plug) @ [])"
  unfolding run_loop_def by (intro fixed_seq fixed_bnd fixed_stages scripted_call fixed_seq0 [OF scripted_log] fixed_ret)

lemma node_up_scripted:
  "scripted (node_up b d override) (UNIV \<times> range (\<lambda>(plug, srv). up_script b d plug srv))"
proof -
  define new where "new = (if server_enabled d then [''dap_http_server_new''] else [])"
  define fin where "fin plug srv = server_script b d srv @ map stage_name (vpn_stages b d)
      @ map stage_name (plugin_start_stages b plug) @ [''dap_events_wait'']
      @ map stage_name (deinit_stages b d plug) @ []" for plug srv
  have tail: "fixed (seq (start_server b d srv) (seq (run_stages d (vpn_stages b d)) (run_loop b d plug)))
      (fin plug srv)" for plug srv
    unfolding fin_def by (intro fixed_seq fixed_start_server fixed_stages fixed_run_loop)
  note mid = scripted_seq_family [OF fixed_stages scripted_seq_family [OF fixed_autoproc
      scripted_bnd_fixed [OF new_server_scripted [of d, folded new_def] tail]]]
  note all = scripted_seq_family [OF fixed_log_mode scripted_seq_family [OF fixed_start_modules
      scripted_bnd_family [OF load_plugins_scripted mid]]]
  have eq: "(\<lambda>(plug, srv). up_script b d plug srv) = (\<lambda>i. log_script d @ module_script b d @
      (case i of (plug, srv) \<Rightarrow> load_script b d plug @ map stage_name late_stages @
        ([''dap_chain_node_mempool_autoproc_init''] @ []) @ new @ fin plug srv))"
    by (rule ext) (simp add: up_script_def fin_def new_def split: prod.split)
  show ?thesis unfolding node_up_def eq by (rule all)
qed

lemma node_main_scripted:
  "scripted (node_main b d av) (UNIV \<times> range (\<lambda>(plug, srv). node_script b d plug srv))"
    (is "scripted _ ?U")
proof -
  define win where "win = (if WIN32 b \<and> NDEBUG b then [''S_SetExceptionFilter''] else [])"
  have win: "fixed (if WIN32 b \<and> NDEBUG b then void ''S_SetExceptionFilter'' [] else ret ()) win"
    by (simp add: scripted_void fixed_ret win_def)
  have arg: "fixed (arg_opt av 1) []"
    unfolding arg_opt_def by (intro fixed_if fixed_ret fixed_crash)
  have version: "scripted (seq (log_it m) (exit_with 0)) ?U" for m
    by (rule scripted_seq [OF scripted_log scripted_exit, of ?U]) simp_all
  have eq: "(\<lambda>(plug, srv). node_script b d plug srv)
      = (\<lambda>i. [''dap_set_appname''] @ win @ [] @ boot_script @ [] @ (case i of (plug, srv) \<Rightarrow> up_script b d plug srv))"
    by (rule ext) (simp add: node_script_def win_def split: prod.split)
  have rest: "scripted (seq (void ''dap_set_appname'' [NODE_NAME d])
      (seq (if WIN32 b \<and> NDEBUG b then void ''S_SetExceptionFilter'' [] else ret ())
      (seq (choose_sys_dir b d av) (seq (node_dirs b d) (seq (pid_check b d) (node_up b d ov)))))) ?U" for ov
    unfolding eq
    by (intro scripted_seq_family scripted_void win fixed_choose fixed_node_dirs fixed_pid_check node_up_scripted)
  show ?thesis
    unfolding node_main_def Let_def
    by (rule scripted_bnd [OF arg, of _ "\<lambda>_. ?U"]) (simp_all add: version rest)
qed


end
