(* ===== verification/Node_Cli.thy ===== *)
theory Node_Cli
  imports Node_Main
begin

text \<open>
  The command line client: \<open>main\<close> of \<^verbatim>\<open>sources/main_node_cli.c\<close>. It chooses the system directory and hands
  its arguments to the SDK's client; the theorems say which arguments arrive there and
  what the process returns.
\<close>

text \<open>The error codes of the SDK's client.\<close>

record cli_codes =
  DAP_CLI_ERROR_FORMAT :: int
  DAP_CLI_ERROR_SOCKET :: int
  DAP_CLI_ERROR_TIMEOUT :: int
  DAP_CLI_ERROR_INCOMPLETE :: int

definition cli_message :: "cli_codes \<Rightarrow> int \<Rightarrow> string option" where
  "cli_message e res =
    (if res = DAP_CLI_ERROR_FORMAT e then Some ''Response format error!''
     else if res = DAP_CLI_ERROR_SOCKET e then Some ''Socket read error!''
     else if res = DAP_CLI_ERROR_TIMEOUT e then Some ''No response recieved''
     else if res = DAP_CLI_ERROR_INCOMPLETE e then Some ''Connection closed by peer''
     else None)"

definition cli_run :: "build \<Rightarrow> cli_codes \<Rightarrow> node_sdk \<Rightarrow> argv \<Rightarrow> int node" where
  "cli_run b e d av =
     seq (if DAP_OS_WINDOWS b then
            seq (void ''SetConsoleCP'' [''1252'']) (seq (void ''SetConsoleOutputCP'' [''1252''])
              (void ''WSAStartup'' []))
          else ret ())
    (seq (void ''dap_log_level_set'' [''L_CRITICAL''])
    (bnd (ncall d ''dap_app_cli_main'' (NODE_NAME d # av)) (\<lambda>res.
     seq (case cli_message e res of None \<Rightarrow> ret () | Some m \<Rightarrow> log_it (m @ [CHR 0x0A]))
    (seq delete_sys_dir
    (seq (if DAP_OS_WINDOWS b then void ''WSACleanup'' [] else ret ())
         (ret res))))))"

definition cli_main :: "build \<Rightarrow> cli_codes \<Rightarrow> node_sdk \<Rightarrow> argv \<Rightarrow> int node" where
  "cli_main b e d av =
     seq (void ''dap_chain_node_cli_parser_init'' [])
    (seq (void ''dap_set_appname'' [NODE_NAME d @ ''-cli''])
    (if 2 < length av \<and> dap_strcmp d ''-B'' (av ! 1) = 0 then
       seq (set_global_sys_dir (av ! 2))
      (if \<not> dap_dir_test d (Some (av ! 2))
       then seq (log_it (''Invalid path '' @ [CHR 0x22] @ av ! 2 @ [CHR 0x22])) (seq delete_sys_dir (exit_with (-1)))
       else cli_run b e d (drop 2 av))
     else
       seq (if DAP_OS_WINDOWS b then set_global_sys_dir (regGetUsrPath d @ ''/'' @ NODE_NAME d)
            else if DAP_OS_MAC b then set_global_sys_dir ''/Library/Application Support/CellframeNode/''
            else if DAP_OS_UNIX b then set_global_sys_dir (''/opt/'' @ NODE_NAME d)
            else ret ())
           (cli_run b e d av)))"

text \<open>The arguments that reach the client: behind \<^verbatim>\<open>-B <dir>\<close>, the directory stands for the program name.\<close>

definition cli_args :: "node_sdk \<Rightarrow> argv \<Rightarrow> argv" where
  "cli_args d av = (if 2 < length av \<and> dap_strcmp d ''-B'' (av ! 1) = 0 then drop 2 av else av)"

lemma cli_run_result:
  "\<exists>t h. cli_run b e d av s = (Ret (answer d h ''dap_app_cli_main'' (NODE_NAME d # av)), t)
     \<and> NCall ''dap_app_cli_main'' (NODE_NAME d # av) (answer d h ''dap_app_cli_main'' (NODE_NAME d # av)) \<in> set (ntrace t)
     \<and> (\<forall>m. cli_message e (answer d h ''dap_app_cli_main'' (NODE_NAME d # av)) = Some m
           \<longrightarrow> NLog (m @ [CHR 0x0A]) \<in> set (ntrace t))
     \<and> sys_dir t = None"
  by (cases "DAP_OS_WINDOWS b")
    (auto simp: cli_run_def void_def log_it_def emit_def ncall_def delete_sys_dir_def prog_simps split: option.split)

text \<open>
  The client returns exactly what the SDK's client returned for the arguments of the command
  line (without \<^verbatim>\<open>-B <dir>\<close>), prints the message of an error code when it is one, and frees the
  directory; with \<^verbatim>\<open>-B\<close> and a directory that does not exist it returns -1 and calls nothing.
\<close>

theorem cli_main_forwards:
  "(if 2 < length av \<and> dap_strcmp d ''-B'' (av ! 1) = 0 \<and> \<not> dap_dir_test d (Some (av ! 2))
    then \<exists>t. cli_main b e d av s = (Exit (-1), t) \<and> sys_dir t = None
       \<and> calls_of (ntrace t) = calls_of (ntrace s) @ [''dap_chain_node_cli_parser_init'', ''dap_set_appname'']
    else \<exists>res t. cli_main b e d av s = (Ret res, t) \<and> sys_dir t = None
       \<and> NCall ''dap_app_cli_main'' (NODE_NAME d # cli_args d av) res \<in> set (ntrace t)
       \<and> (case cli_message e res of None \<Rightarrow> True | Some m \<Rightarrow> NLog (m @ [CHR 0x0A]) \<in> set (ntrace t)))"
proof (cases "2 < length av \<and> dap_strcmp d ''-B'' (av ! 1) = 0 \<and> \<not> dap_dir_test d (Some (av ! 2))")
  case True
  then show ?thesis
    by (auto simp: cli_main_def void_def log_it_def emit_def delete_sys_dir_def set_global_sys_dir_def prog_simps)
next
  case False
  have "\<exists>u. cli_main b e d av s = cli_run b e d (cli_args d av) u"
    using False
    by (auto simp: cli_main_def cli_args_def void_def emit_def set_global_sys_dir_def seq_app [of "modify _"]
        seq_app [of "ret ()"] modify_app ret_app)
  then obtain u where u: "cli_main b e d av s = cli_run b e d (cli_args d av) u" by blast
  from cli_run_result [of b e d "cli_args d av" u] False show ?thesis
    unfolding u by (auto split: option.split)
qed

end
