(* ===== verification/Node_Manager.thy ===== *)
theory Node_Manager
  imports Node_Main
begin

text \<open>
  \<^verbatim>\<open>sources/node_manager.c\<close> and \<^verbatim>\<open>sources/node_manager.h\<close>: an older entry point that the build files
  do not list. Initialisation and shutdown, the start of the UDP and the stream server, and
  the callbacks of a client and of a channel, over the same events as the node.
\<close>

record node_manager =
  nm_config :: bool

text \<open>The callbacks that only log.\<close>

definition channel_new :: "unit node" where
  "channel_new = log_it ''Channel new''"

definition channel_delete :: "unit node" where
  "channel_delete = log_it ''Channel delete''"

definition client_new :: "unit node" where
  "client_new = log_it ''Client connected''"

definition client_write :: "unit node" where
  "client_write = log_it ''Client write''"

definition client_disconnect :: "unit node" where
  "client_disconnect = log_it ''Client disconnect''"

text \<open>
  Blocks of memory: a list of bytes, each written or not. The answer of \<open>malloc\<close> is a pointer, 0 is NULL. A write, and a
  read up to a NUL, stay inside the block or are undefined.
\<close>

type_synonym mem_block = "char option list"

definition alloc :: "node_sdk \<Rightarrow> nat \<Rightarrow> mem_block option node" where
  "alloc d n = bnd (ncall d ''malloc'' [show_nat n]) (\<lambda>p. ret (if p = 0 then None else Some (replicate n None)))"

definition memcpy :: "mem_block option \<Rightarrow> string \<Rightarrow> mem_block node" where
  "memcpy dst src = (case dst of
      None \<Rightarrow> if src = [] then ret [] else crash NullDeref
    | Some b \<Rightarrow> if length src \<le> length b then ret (map Some src @ drop (length src) b) else crash OutOfBounds)"

definition store_byte :: "mem_block option \<Rightarrow> nat \<Rightarrow> char \<Rightarrow> mem_block node" where
  "store_byte dst i c = (case dst of
      None \<Rightarrow> crash NullDeref
    | Some b \<Rightarrow> if i < length b then ret (b[i := Some c]) else crash OutOfBounds)"

fun read_str :: "mem_block \<Rightarrow> string node" where
  "read_str [] = crash OutOfBounds"
| "read_str (None # b) = crash Uninit"
| "read_str (Some c # b) = (if c = CHR 0x00 then ret [] else bnd (read_str b) (\<lambda>t. ret (c # t)))"

text \<open>
  The copy of a packet has exactly \<open>hdr.size\<close> bytes and is printed with \<^verbatim>\<open>%s\<close>: without a NUL among
  them the print runs off the copy. The copy is never freed. \<open>host\<close> is the result of \<open>itoa\<close> on the host key.
\<close>

definition channel_packet_in :: "node_sdk \<Rightarrow> string \<Rightarrow> string \<Rightarrow> unit node" where
  "channel_packet_in d pkt host =
     bnd (alloc d (length pkt)) (\<lambda>p.
     bnd (memcpy p pkt) (\<lambda>data.
     bnd (read_str data) (\<lambda>text.
     seq (log_it (''Income data: '' @ text @ '' from '' @ host @ '' '' @ [CHR 0x0A]))
    (seq (void ''stream_ch_set_ready_to_write'' [''false''])
    (seq (void ''stream_ch_pkt_write_f'' [''1'', ''ping''])
         (void ''stream_ch_set_ready_to_write'' [''true'']))))))"

fun channel_packets :: "node_sdk \<Rightarrow> (string \<times> string) list \<Rightarrow> unit node" where
  "channel_packets d [] = ret ()"
| "channel_packets d ((pkt, host) # ps) = seq (channel_packet_in d pkt host) (channel_packets d ps)"

definition channel_packet_out :: "unit node" where
  "channel_packet_out = void ''stream_ch_set_ready_to_write'' [''false'']"

text \<open>\<open>client_read\<close> allocates \<open>buf_in_size\<close> bytes and writes the one with that index.\<close>

definition client_read :: "node_sdk \<Rightarrow> nat \<Rightarrow> bool \<Rightarrow> unit node" where
  "client_read d buf_in_size ready =
     seq (log_it (''Client read '' @ show_nat buf_in_size))
    (bnd (alloc d buf_in_size) (\<lambda>p.
     bnd (store_byte p buf_in_size (CHR 0x00)) (\<lambda>data.
     seq (if ready then void ''dap_client_read'' [show_nat buf_in_size] else ret ())
    (seq (void ''dap_client_write'' [''ping''])
    (seq (void ''dap_udp_client_ready_to_write'' [''true''])
         (void ''free'' []))))))"

definition node_manager_init :: "node_sdk \<Rightarrow> int node" where
  "node_manager_init d =
     bnd (ncall d ''dap_common_init'' [''build/log.txt'']) (\<lambda>rc.
     if rc \<noteq> 0 then seq (log_it ''Can't init common functions module'') (ret (-2))
     else seq (void ''dap_log_set_external_output'' [])
    (bnd (ncall d ''dap_config_init'' [''build/config'']) (\<lambda>rc.
     if rc \<noteq> 0 then seq (log_it ''Can't init configurations module'') (ret (-1))
     else bnd (ncall d ''dap_enc_init'' []) (\<lambda>rc.
     if rc \<noteq> 0 then seq (log_it ''Can't init encryption module'') (ret (-56))
     else bnd (ncall d ''dap_enc_key_init'' []) (\<lambda>rc.
     if rc \<noteq> 0 then seq (log_it ''Can't init encryption key module'') (ret (-57))
     else bnd (ncall d ''dap_server_init'' [''0'']) (\<lambda>rc.
     if rc \<noteq> 0 then seq (log_it ''Can't init udp server module'') (ret (-4))
     else seq (void ''stream_init'' []) (seq (void ''stream_session_init'' [])
         (seq (void ''dap_http_init'' []) (seq (void ''dap_http_simple_module_init'' []) (ret 0))))))))))"

definition node_manager_deinit :: "unit node" where
  "node_manager_deinit =
     seq (void ''stream_session_deinit'' []) (seq (void ''dap_server_deinit'' [])
    (seq (void ''dap_server_client_deinit'' []) (seq (void ''dap_enc_key_deinit'' [])
    (seq (void ''dap_enc_deinit'' []) (seq (void ''dap_common_deinit'' []) (void ''dap_config_deinit'' []))))))"

definition new_node_manager :: "node_sdk \<Rightarrow> string \<Rightarrow> node_manager node" where
  "new_node_manager d config_file =
     seq (void ''dap_config_open'' [config_file]) (ret \<lparr>nm_config = config_open d\<rparr>)"

text \<open>A missing \<open>port\<close> is a NULL string for \<open>atoi\<close>. \<open>dap_udp_server_listen\<close> answers with a pointer, 0 is NULL.\<close>

definition node_manager_start :: "node_sdk \<Rightarrow> node_manager \<Rightarrow> unit node" where
  "node_manager_start d manager =
    (if nm_config manager then
       (case config_str d ''general'' ''port'' of
         None \<Rightarrow> crash NullDeref
       | Some v \<Rightarrow> let port = atoi v in
         if port = 0 then log_it ''Unable to read port value''
         else bnd (ncall d ''dap_udp_server_listen'' [show_int port]) (\<lambda>sh.
           if sh = 0 then crash NullDeref
           else seq (void ''dap_udp_server_loop'' []) (void ''dap_udp_server_delete'' [])))
     else log_it ''Unable to find config file'')"

definition node_manager_start_stream :: "unit node" where
  "node_manager_start_stream =
     seq (void ''dap_server_listen'' [''localhost'', ''56001'', ''DAP_SERVER_TCP''])
    (seq (void ''dap_http_new'' [''KelvinNode''])
    (seq (void ''enc_http_add_proc'' [''/handshake''])
         (void ''dap_server_loop'' [])))"

section \<open>Properties\<close>

text \<open>
  Every read of a client writes one byte behind the buffer it allocated, whatever the size of
  the input, before it reads anything; without memory it writes through a NULL pointer.
\<close>

lemma client_read_overruns:
  "\<exists>p. fst (client_read d n ready s) = Crash (if p = 0 then NullDeref else OutOfBounds)
   \<and> calls_of (ntrace (snd (client_read d n ready s))) = calls_of (ntrace s) @ [''malloc'']
   \<and> p = answer d (ntrace s @ [NLog (''Client read '' @ show_nat n)]) ''malloc'' [show_nat n]"
  by (simp add: client_read_def alloc_def store_byte_def log_it_def emit_def ncall_def prog_simps)

text \<open>
  A packet is safe exactly when it has a NUL (given memory), and a channel that received packets keeps a block for
  each of them: every packet allocates and nothing is freed.
\<close>

lemma read_str_copy:
  "read_str (map Some pkt) = (if CHR 0x00 \<in> set pkt then ret (takeWhile (\<lambda>c. c \<noteq> CHR 0x00) pkt) else crash OutOfBounds)"
  by (induction pkt) (auto simp: fun_eq_iff prog_simps)

lemma packet_in_run:
  assumes "\<forall>h xs. answer d h ''malloc'' xs \<noteq> 0"
  shows "fst (channel_packet_in d pkt host s) = (if CHR 0x00 \<in> set pkt then Ret () else Crash OutOfBounds)
     \<and> filter (\<lambda>f. f \<in> {''malloc'', ''free''}) (calls_of (ntrace (snd (channel_packet_in d pkt host s))))
        = filter (\<lambda>f. f \<in> {''malloc'', ''free''}) (calls_of (ntrace s)) @ [''malloc'']"
  using assms
  by (simp add: channel_packet_in_def alloc_def memcpy_def read_str_copy log_it_def void_def emit_def ncall_def prog_simps)

lemma channel_packets_leak:
  assumes "\<forall>h xs. answer d h ''malloc'' xs \<noteq> 0" and "\<forall>(pkt, host) \<in> set ps. CHR 0x00 \<in> set pkt"
  shows "fst (channel_packets d ps s) = Ret ()
     \<and> filter (\<lambda>f. f \<in> {''malloc'', ''free''}) (calls_of (ntrace (snd (channel_packets d ps s))))
        = filter (\<lambda>f. f \<in> {''malloc'', ''free''}) (calls_of (ntrace s)) @ replicate (length ps) ''malloc''"
  using assms(2)
proof (induction ps arbitrary: s)
  case (Cons x ps)
  obtain pkt host where x: "x = (pkt, host)" by fastforce
  obtain r t where run: "channel_packet_in d pkt host s = (r, t)" by fastforce
  with packet_in_run [OF assms(1), of pkt host s] Cons.prems x
  have "r = Ret ()" "filter (\<lambda>f. f \<in> {''malloc'', ''free''}) (calls_of (ntrace t))
      = filter (\<lambda>f. f \<in> {''malloc'', ''free''}) (calls_of (ntrace s)) @ [''malloc'']" by simp_all
  with Cons.IH [of t] Cons.prems run x show ?case by (simp add: seq_def bnd_def)
qed (simp add: prog_simps)

text \<open>
  The initialisation of the manager returns 0 exactly when the five modules it checks answer 0,
  and then it has started the stream and HTTP modules; otherwise it returns the code of the
  first module that failed and starts nothing behind it.
\<close>

lemma node_manager_init_result:
  "\<exists>c t new. node_manager_init d s = (Ret c, t) \<and> ntrace t = ntrace s @ new
     \<and> (if c = 0
        then calls_of new = [''dap_common_init'', ''dap_log_set_external_output'', ''dap_config_init'', ''dap_enc_init'',
            ''dap_enc_key_init'', ''dap_server_init'', ''stream_init'', ''stream_session_init'', ''dap_http_init'',
            ''dap_http_simple_module_init'']
          \<and> NCall ''dap_server_init'' [''0''] 0 \<in> set new
        else (c, last (calls_of new)) \<in> {(-2, ''dap_common_init''), (-1, ''dap_config_init''), (-56, ''dap_enc_init''),
          (-57, ''dap_enc_key_init''), (-4, ''dap_server_init'')})"
  by (simp add: node_manager_init_def log_it_def void_def emit_def ncall_def prog_simps)

end
