(* ===== verification/Node_Start.thy ===== *)
theory Node_Start
  imports Node_Main
begin

text \<open>
  What the model of \<open>main\<close> in \<^verbatim>\<open>sources/cellframe-node.c\<close> guarantees beyond the order of its calls: no
  event loop without the modules it needs, the exit status of every run, the absence of
  undefined behaviour, and that a node which can start does start.
\<close>

section \<open>What a module that failed means\<close>

definition ngrows :: "node_state \<Rightarrow> node_state \<Rightarrow> bool" where
  "ngrows s t \<longleftrightarrow> set (ntrace s) \<subseteq> set (ntrace t)"

interpretation ngrowth: state_preorder ngrows
  by unfold_locales (auto simp: ngrows_def)

lemma scripted_grows: "scripted m S \<Longrightarrow> keeps ngrows m"
  unfolding keeps_def ngrows_def scripted_def
  by (metis Un_upper1 prod.collapse set_append)

lemma keepsD: "keeps R m \<Longrightarrow> m s = (r, t) \<Longrightarrow> R s t"
  unfolding keeps_def by (metis snd_conv)

lemma seq_RetD: "seq m k s = (Ret a, t) \<Longrightarrow> \<exists>u. m s = (Ret (), u) \<and> k u = (Ret a, t)"
  by (auto simp: seq_app split: prod.splits res.splits)

lemma bnd_RetD: "bnd m k s = (Ret a, t) \<Longrightarrow> \<exists>b u. m s = (Ret b, u) \<and> k b u = (Ret a, t)"
  by (auto simp: bnd_app split: prod.splits res.splits)

fun fatal_call :: "stage \<Rightarrow> (string \<times> string list) list" where
  "fatal_call (Fatal f xs m c) = [(f, xs)]"
| "fatal_call (Warn f xs m) = []"
| "fatal_call (Void f xs) = []"

definition all_zero :: "stage list \<Rightarrow> nhist \<Rightarrow> bool" where
  "all_zero sts h \<longleftrightarrow> (\<forall>(f, xs) \<in> set (concat (map fatal_call sts)). NCall f xs 0 \<in> set h)"

lemma all_zero_mono: "all_zero sts (ntrace s) \<Longrightarrow> ngrows s t \<Longrightarrow> all_zero sts (ntrace t)"
  by (fastforce simp: all_zero_def ngrows_def)

lemma run_stage_Ret: "run_stage d st s = (Ret (), t) \<Longrightarrow> all_zero [st] (ntrace t)"
  by (cases st) (auto simp: run_stage_def all_zero_def ncall_def emit_def log_it_def prog_simps split: if_splits option.splits)

lemma run_stages_Ret: "run_stages d sts s = (Ret (), t) \<Longrightarrow> all_zero sts (ntrace t)"
proof (induction sts arbitrary: s)
  case Nil
  show ?case by (simp add: all_zero_def)
next
  case (Cons st sts)
  from Cons.prems obtain u where u: "run_stage d st s = (Ret (), u)" "run_stages d sts u = (Ret (), t)"
    using seq_RetD by fastforce
  have "all_zero [st] (ntrace t)"
    using all_zero_mono [OF run_stage_Ret [OF u(1)] keepsD [OF scripted_grows [OF fixed_stages] u(2)]] .
  with Cons.IH [OF u(2)] show ?case by (auto simp: all_zero_def)
qed

definition required :: "build \<Rightarrow> node_sdk \<Rightarrow> stage list" where
  "required b d = net_stages b d @ chain_stages @ cli_stages @ late_stages @ vpn_stages b d"

lemma all_zero_append: "all_zero (xs @ ys) h \<longleftrightarrow> all_zero xs h \<and> all_zero ys h"
  by (auto simp: all_zero_def)

lemma run_loop_Ret:
  "run_loop b d plug s = (Ret c, t) \<Longrightarrow> \<exists>rc. c = rc * 10 \<and> NCall ''dap_events_wait'' [] rc \<in> set (ntrace t)"
proof -
  assume "run_loop b d plug s = (Ret c, t)"
  then obtain u v w x rc m where 1: "ncall d ''dap_events_wait'' [] u = (Ret rc, v)"
    and 2: "log_it m v = (Ret (), w)" and 3: "run_stages d (deinit_stages b d plug) w = (Ret (), x)"
    and 4: "ret (rc * 10) x = (Ret c, t)"
    unfolding run_loop_def by (blast dest!: seq_RetD bnd_RetD)
  have "NCall ''dap_events_wait'' [] rc \<in> set (ntrace v)"
    using 1 by (auto simp: ncall_def emit_def prog_simps)
  moreover have "ngrows v x"
    using keepsD [OF scripted_grows [OF scripted_log] 2] keepsD [OF scripted_grows [OF fixed_stages] 3]
    by (rule ngrowth.R_trans)
  ultimately show ?thesis using 4 by (auto simp: ngrows_def ret_app)
qed

lemma start_modules_Ret:
  assumes "start_modules b d s = (Ret (), t)"
  shows "all_zero (net_stages b d @ chain_stages @ cli_stages) (ntrace t)"
proof -
  from assms obtain u1 u2 u3 u4 where
    u: "run_stages d (net_stages b d) s = (Ret (), u1)" "run_stages d chain_stages u1 = (Ret (), u2)"
      "run_stages d (vpn_pre_stages b) u2 = (Ret (), u3)" "sig_stage b d u3 = (Ret (), u4)"
      "run_stages d cli_stages u4 = (Ret (), t)"
    unfolding start_modules_def by (auto dest!: seq_RetD)
  note g = keepsD [OF scripted_grows [OF fixed_stages]]
  have "ngrows u2 t"
    using g [OF u(3)] keepsD [OF scripted_grows [OF fixed_sig_stage] u(4)] g [OF u(5)]
    by (meson ngrowth.R_trans)
  with g [OF u(2)] show ?thesis
    using run_stages_Ret [OF u(1)] run_stages_Ret [OF u(2)] run_stages_Ret [OF u(5)]
    by (auto simp: all_zero_append intro: all_zero_mono ngrowth.R_trans)
qed

lemma node_up_Ret:
  assumes "node_up b d ov s = (Ret c, t)"
  shows "all_zero (required b d) (ntrace t)
    \<and> (\<exists>rc. c = rc * 10 \<and> NCall ''dap_events_wait'' [] rc \<in> set (ntrace t))"
proof -
  from assms obtain plug srv u1 u2 u3 u4 u5 u6 u7 u8 where
    u: "start_modules b d u1 = (Ret (), u2)" "load_plugins b d ov u2 = (Ret plug, u3)"
      "run_stages d late_stages u3 = (Ret (), u4)" "autoproc d u4 = (Ret (), u5)"
      "new_server d u5 = (Ret srv, u6)" "start_server b d srv u6 = (Ret (), u7)"
      "run_stages d (vpn_stages b d) u7 = (Ret (), u8)" "run_loop b d plug u8 = (Ret c, t)"
    unfolding node_up_def by (auto dest!: seq_RetD bnd_RetD)
  have g8: "ngrows u8 t" using keepsD [OF scripted_grows [OF fixed_run_loop] u(8)] .
  have g4: "ngrows u4 t"
    using keepsD [OF scripted_grows [OF fixed_autoproc] u(4)] keepsD [OF scripted_grows [OF new_server_scripted] u(5)]
      keepsD [OF scripted_grows [OF fixed_start_server] u(6)] keepsD [OF scripted_grows [OF fixed_stages] u(7)] g8
    by (meson ngrowth.R_trans)
  have g2: "ngrows u2 t"
    using keepsD [OF scripted_grows [OF load_plugins_scripted] u(2)] keepsD [OF scripted_grows [OF fixed_stages] u(3)] g4
    by (meson ngrowth.R_trans)
  show ?thesis
    using all_zero_mono [OF start_modules_Ret [OF u(1)] g2] all_zero_mono [OF run_stages_Ret [OF u(3)] g4]
      all_zero_mono [OF run_stages_Ret [OF u(7)] g8] run_loop_Ret [OF u(8)]
    by (simp add: required_def all_zero_append)
qed

lemma node_main_Ret:
  assumes "node_main b d av s = (Ret c, t)"
  shows "all_zero (required b d) (ntrace t)
    \<and> (\<exists>rc. c = rc * 10 \<and> NCall ''dap_events_wait'' [] rc \<in> set (ntrace t))"
proof -
  from assms obtain ov u where "node_up b d ov u = (Ret c, t)"
    unfolding node_main_def Let_def
    by (auto dest!: seq_RetD bnd_RetD simp: exit_app split: if_splits)
  then show ?thesis by (rule node_up_Ret)
qed


section \<open>Exit status\<close>

definition node_codes :: "int set" where
  "node_codes = {2, -1, -2, -3, -4, -5, -9, -11, -12, -55, -56, -58, -59, -60, -61, -62, -63, -65, -66, -67, -69,
     -70, -71, -72, -73, -81, -82, -83, -131, -133}"

lemma node_codes_status: "c \<in> node_codes \<Longrightarrow> exit_status c \<noteq> 0"
  by (auto simp: node_codes_def exit_status_0_iff)

lemma node_exits_basic: "exits E (log_it m)" "exits E (void f xs)" "exits E (ncall d f xs)" "exits E delete_sys_dir"
  "exits E (set_global_sys_dir p)"
  by (simp_all add: exits_def log_it_def void_def ncall_def emit_def delete_sys_dir_def set_global_sys_dir_def prog_simps)

lemmas node_exits = exits_rules node_exits_basic exits_arg_opt

fun stage_code_ok :: "stage \<Rightarrow> bool" where
  "stage_code_ok (Fatal f xs m c) = (c \<in> node_codes)"
| "stage_code_ok (Warn f xs m) = True"
| "stage_code_ok (Void f xs) = True"

lemma exits_run_stages: "list_all stage_code_ok sts \<Longrightarrow> exits node_codes (run_stages d sts)"
proof (induction sts)
  case Nil
  show ?case by (simp add: exits_ret)
next
  case (Cons st sts)
  then have "exits node_codes (run_stage d st)"
    by (cases st) (auto simp: run_stage_def split: option.split intro!: node_exits)
  with Cons show ?case by (simp add: exits_seq)
qed

lemma stage_codes:
  "list_all stage_code_ok (net_stages b d)" "list_all stage_code_ok chain_stages"
  "list_all stage_code_ok (vpn_pre_stages b)" "list_all stage_code_ok cli_stages"
  "list_all stage_code_ok late_stages" "list_all stage_code_ok (server_stages b d)"
  "list_all stage_code_ok (vpn_stages b d)" "list_all stage_code_ok (plugin_start_stages b plug)"
  "list_all stage_code_ok (deinit_stages b d plug)"
  by (simp_all add: net_stages_def chain_stages_def vpn_pre_stages_def cli_stages_def late_stages_def
      server_stages_def vpn_stages_def plugin_start_stages_def deinit_stages_def node_codes_def)

lemma node_dirs_exits: "exits node_codes (node_dirs b d)"
  unfolding node_dirs_def Let_def by (intro node_exits) (simp_all add: node_codes_def)

lemma pid_check_exits: "exits node_codes (pid_check b d)"
  unfolding pid_check_def Let_def by (intro node_exits) (simp_all add: node_codes_def)

lemma node_up_exits: "exits node_codes (node_up b d ov)"
  unfolding node_up_def node_log_mode_def start_modules_def sig_stage_def load_plugins_def autoproc_def
    new_server_def start_server_def run_loop_def Let_def
  by (intro node_exits exits_run_stages stage_codes; simp add: node_codes_def)

lemma tenfold_status: "rc * 10 mod 256 = 0 \<longleftrightarrow> rc mod 128 = (0 :: int)"
proof -
  have "(256 :: int) dvd rc * 10 \<longleftrightarrow> 2 * 128 dvd 2 * (rc * 5)" by (simp add: mult.commute)
  also have "\<dots> \<longleftrightarrow> 128 dvd rc * 5" by (simp only: dvd_mult_cancel_left) simp
  also have "coprime (2 ^ 7 :: int) 5" by (simp only: coprime_power_left_iff) simp
  then have "coprime (128 :: int) 5" by simp
  then have "128 dvd rc * 5 \<longleftrightarrow> 128 dvd rc" by (rule coprime_dvd_mult_left_iff)
  finally show ?thesis by (simp add: mod_eq_0_iff_dvd)
qed

text \<open>
  C15. The status the shell sees: a run that gives up early returns one of the listed codes, whose
  low byte is never 0, unless it was asked for the version; a run that comes back from the
  event loop with \<open>rc\<close> has status 0 exactly when 128 divides \<open>rc\<close>.
\<close>

theorem node_exit_status:
  assumes "node_main b d av s = (r, t)"
  shows "(\<forall>c. r = Exit c \<longrightarrow> c = 0 \<and> 1 < length av \<and> dap_strcmp d ''-version'' (av ! 1) = 0
             \<or> c \<in> node_codes \<and> exit_status c \<noteq> 0)
     \<and> (\<forall>c. r = Ret c \<longrightarrow> (\<exists>rc. NCall ''dap_events_wait'' [] rc \<in> set (ntrace t)
             \<and> (exit_status c = 0 \<longleftrightarrow> rc mod 128 = 0)))"
proof (intro conjI allI impI)
  fix c assume "r = Exit c"
  show "c = 0 \<and> 1 < length av \<and> dap_strcmp d ''-version'' (av ! 1) = 0 \<or> c \<in> node_codes \<and> exit_status c \<noteq> 0"
  proof (cases "1 < length av \<and> dap_strcmp d ''-version'' (av ! 1) = 0")
    case True
    with assms \<open>r = Exit c\<close> show ?thesis by (auto simp: node_main_def log_it_def emit_def prog_simps)
  next
    case False
    define rest where "rest = seq (void ''dap_set_appname'' [NODE_NAME d])
      (seq (if WIN32 b \<and> NDEBUG b then void ''S_SetExceptionFilter'' [] else ret ())
      (seq (choose_sys_dir b d av) (seq (node_dirs b d) (seq (pid_check b d)
        (node_up b d (plugins_path_override (getenv_HOME d) (plugins_path_arg b d av)))))))"
    have "exits node_codes rest"
      unfolding rest_def choose_sys_dir_def by (intro node_exits node_dirs_exits pid_check_exits node_up_exits)
    moreover have "rest s = (Exit c, t)"
      using assms \<open>r = Exit c\<close> False
      unfolding node_main_def Let_def rest_def [symmetric] by (auto simp: bnd_app arg_opt_app split: if_splits)
    ultimately have "c \<in> node_codes" unfolding exits_def by blast
    then show ?thesis by (simp add: node_codes_status)
  qed
next
  fix c assume "r = Ret c"
  with assms node_main_Ret obtain rc where "c = rc * 10" "NCall ''dap_events_wait'' [] rc \<in> set (ntrace t)"
    by blast
  moreover note tenfold_status [of rc]
  ultimately show "\<exists>rc. NCall ''dap_events_wait'' [] rc \<in> set (ntrace t) \<and> (exit_status c = 0 \<longleftrightarrow> rc mod 128 = 0)"
    by (auto simp: exit_status_0_iff)
qed

section \<open>Absence of undefined behaviour\<close>

definition same_dir :: "node_state \<Rightarrow> node_state \<Rightarrow> bool" where
  "same_dir s t \<longleftrightarrow> sys_dir t = sys_dir s"

interpretation dirs: state_preorder same_dir
  by unfold_locales (simp_all add: same_dir_def)

lemma same_dir_basic: "keeps same_dir (log_it m)" "keeps same_dir (void f xs)" "keeps same_dir (ncall d f xs)"
  by (simp_all add: keeps_def same_dir_def log_it_def void_def ncall_def emit_def prog_simps)

lemma same_dir_modify: "(\<And>s. sys_dir (g s) = sys_dir s) \<Longrightarrow> keeps same_dir (modify g)"
  by (simp add: keeps_def same_dir_def prog_simps)

lemmas same_dir_rules = dirs.keeps_rules same_dir_basic

lemma same_dir_stages: "keeps same_dir (run_stages d sts)"
proof (induction sts)
  case (Cons st sts)
  moreover have "keeps same_dir (run_stage d st)"
    by (cases st) (auto simp: run_stage_def split: option.split intro!: same_dir_rules)
  ultimately show ?case by (simp add: dirs.keeps_seq)
qed (simp add: dirs.keeps_ret)

lemma safe_basic: "safe (log_it m)" "safe (void f xs)" "safe (ncall d f xs)" "safe delete_sys_dir"
  "safe (set_global_sys_dir p)"
  by (simp_all add: safe_def log_it_def void_def ncall_def emit_def delete_sys_dir_def set_global_sys_dir_def prog_simps)

lemmas node_safe = safe_rules safe_basic

lemma safe_stages: "safe (run_stages d sts)"
proof (induction sts)
  case (Cons st sts)
  moreover have "safe (run_stage d st)"
    by (cases st) (auto simp: run_stage_def split: option.split intro!: node_safe)
  ultimately show ?case by (simp add: safe_seq)
qed (simp add: safe_ret)

text \<open>Safety from a state: composition along the states a run passes.\<close>

lemma seq_safe_at:
  assumes "\<not> is_crash (fst (m s))" and "\<And>u. m s = (Ret (), u) \<Longrightarrow> \<not> is_crash (fst (k u))"
  shows "\<not> is_crash (fst (seq m k s))"
proof -
  obtain r u where "m s = (r, u)" by fastforce
  with assms show ?thesis by (cases r) (simp_all add: seq_app)
qed

lemma bnd_safe_at:
  assumes "\<not> is_crash (fst (m s))" and "\<And>a u. m s = (Ret a, u) \<Longrightarrow> \<not> is_crash (fst (k a u))"
  shows "\<not> is_crash (fst (bnd m k s))"
proof -
  obtain r u where "m s = (r, u)" by fastforce
  with assms show ?thesis by (cases r) (simp_all add: bnd_app)
qed

lemma load_plugins_safe: "sys_dir s \<noteq> None \<Longrightarrow> \<not> is_crash (fst (load_plugins b d ov s))"
proof -
  assume "sys_dir s \<noteq> None"
  then obtain dir where dir: "sys_dir s = Some dir" by blast
  have "safe (bnd (ncall d ''dap_plugin_init'' [plugins_dir b d ov dir]) (\<lambda>rc.
       if rc \<noteq> 0 then
         seq (log_it (''The initial initialization for working with manifests and binary plugins failed. Error code ''
                @ show_int rc)) (ret False)
       else seq (if DAP_SUPPORT_PYTHON_PLUGINS b
                 then seq (log_it ''Registering python plugin type'')
                          (bnd (ncall d ''dap_chain_plugins_init'' [''g_config'']) (\<lambda>_. ret ()))
                 else ret ())
           (seq (void ''dap_plugin_load_all'' []) (seq (void ''dap_plugin_preinit_all'' []) (ret True)))))"
    by (intro node_safe)
  then show ?thesis
    by (simp add: load_plugins_def bnd_app [of "get_state _"] get_state_app dir safe_def ret_app)
qed

lemma node_up_safe:
  assumes "sys_dir s \<noteq> None"
  shows "\<not> is_crash (fst (node_up b d ov s))"
proof -
  have log: "safe (node_log_mode d ov)" "keeps same_dir (node_log_mode d ov)"
    unfolding node_log_mode_def Let_def by (intro node_safe) (intro same_dir_rules)
  have mods: "safe (start_modules b d)" "keeps same_dir (start_modules b d)"
    unfolding start_modules_def sig_stage_def Let_def
    by (intro node_safe safe_stages) (intro same_dir_rules same_dir_stages same_dir_modify; simp)
  have rest: "safe (seq (run_stages d late_stages) (seq (autoproc d) (bnd (new_server d) (\<lambda>srv.
      seq (start_server b d srv) (seq (run_stages d (vpn_stages b d)) (run_loop b d plug))))))" for plug
    unfolding autoproc_def new_server_def start_server_def run_loop_def by (intro node_safe safe_stages)
  show ?thesis
    unfolding node_up_def
  proof (rule seq_safe_at, use log(1) in \<open>simp add: safe_def\<close>, rule seq_safe_at, use mods(1) in \<open>simp add: safe_def\<close>)
    fix u v assume "node_log_mode d ov s = (Ret (), u)" and "start_modules b d u = (Ret (), v)"
    then have "sys_dir v = sys_dir s"
      using keepsD [OF log(2)] keepsD [OF mods(2)] by (metis same_dir_def)
    with assms show "\<not> is_crash (fst (bnd (load_plugins b d ov) (\<lambda>plug. seq (run_stages d late_stages) (seq (autoproc d)
      (bnd (new_server d) (\<lambda>srv. seq (start_server b d srv) (seq (run_stages d (vpn_stages b d)) (run_loop b d plug)))))) v))"
      using rest by (intro bnd_safe_at load_plugins_safe) (simp_all add: safe_def)
  qed
qed

lemma node_dirs_run:
  assumes "length dir + 8 \<le> MAX_PATH d" and "sys_dir s = Some dir"
  shows "\<not> is_crash (fst (node_dirs b d s)) \<and> (\<forall>u. node_dirs b d s = (Ret (), u) \<longrightarrow> sys_dir u = sys_dir s)"
  using assms
  by (auto simp: node_dirs_def Let_def log_it_def void_def emit_def ncall_def delete_sys_dir_def prog_simps)

lemma choose_sys_dir_run:
  "\<exists>u. choose_sys_dir b d av s = (Ret (), u) \<and> pid_files u = pid_files s \<and> ntrace u = ntrace s
     \<and> (DAP_OS_WINDOWS b \<or> DAP_OS_MAC b \<or> DAP_OS_UNIX b \<longrightarrow> sys_dir u \<noteq> None)"
  by (auto simp: choose_sys_dir_def set_global_sys_dir_def prog_simps)

lemma pid_check_run:
  assumes "sys_dir s \<noteq> None"
  shows "\<not> is_crash (fst (pid_check b d s)) \<and> (\<forall>u. pid_check b d s = (Ret (), u) \<longrightarrow> sys_dir u = sys_dir s)"
  using assms by (auto simp: pid_check_def Let_def log_it_def emit_def delete_sys_dir_def prog_simps split: if_splits)


section \<open>A node that can start does start\<close>

definition runs :: "'a node \<Rightarrow> bool" where
  "runs m \<longleftrightarrow> (\<forall>s. sys_dir s \<noteq> None \<longrightarrow> (\<exists>a t. m s = (Ret a, t) \<and> sys_dir t \<noteq> None))"

lemma runs_basic: "runs (ret a)" "runs (get_state f)" "runs (log_it m)" "runs (void g xs)" "runs (ncall d g xs)"
  by (simp_all add: runs_def log_it_def void_def emit_def ncall_def prog_simps)

lemma runs_bnd: "runs m \<Longrightarrow> (\<And>a. runs (k a)) \<Longrightarrow> runs (bnd m k)"
  unfolding runs_def bnd_app by (fastforce split: prod.splits res.splits)

lemma runs_seq: "runs m \<Longrightarrow> runs k \<Longrightarrow> runs (seq m k)"
  unfolding seq_def by (rule runs_bnd)

lemma runs_if: "runs p \<Longrightarrow> runs q \<Longrightarrow> runs (if c then p else q)"
  by simp

lemma runs_option: "runs p \<Longrightarrow> (\<And>x. runs (f x)) \<Longrightarrow> runs (case v of None \<Rightarrow> p | Some x \<Rightarrow> f x)"
  by (simp split: option.split)

lemma runs_modify: "(\<And>s. sys_dir (g s) = sys_dir s) \<Longrightarrow> runs (modify g)"
  by (simp add: runs_def prog_simps)

lemmas runs_rules = runs_basic runs_bnd runs_seq runs_if runs_option

text \<open>Every module answers 0, except those whose answer is not an error.\<close>

definition healthy :: "node_sdk \<Rightarrow> bool" where
  "healthy d \<longleftrightarrow> config_open d \<and> set_ctrl_handler_ok d \<and>
     (\<forall>h f xs. f \<notin> {''dap_events_wait'', ''dap_http_server_new'', ''dap_chain_node_mempool_autoproc_init''}
        \<longrightarrow> answer d h f xs = 0)"

fun stage_plain :: "stage \<Rightarrow> bool" where
  "stage_plain (Fatal f xs m c) =
     (f \<notin> {''dap_events_wait'', ''dap_http_server_new'', ''dap_chain_node_mempool_autoproc_init''})"
| "stage_plain (Warn f xs m) = True"
| "stage_plain (Void f xs) = True"

lemma runs_stages: "healthy d \<Longrightarrow> list_all stage_plain sts \<Longrightarrow> runs (run_stages d sts)"
proof (induction sts)
  case (Cons st sts)
  then have "runs (run_stage d st)"
    by (cases st) (auto simp: run_stage_def healthy_def runs_def ncall_def emit_def log_it_def void_def prog_simps)
  with Cons show ?case by (simp add: runs_seq)
qed (simp add: runs_basic)

lemma stages_plain:
  "list_all stage_plain (net_stages b d)" "list_all stage_plain chain_stages"
  "list_all stage_plain (vpn_pre_stages b)" "list_all stage_plain cli_stages"
  "list_all stage_plain late_stages" "list_all stage_plain (server_stages b d)"
  "list_all stage_plain (vpn_stages b d)" "list_all stage_plain (plugin_start_stages b plug)"
  "list_all stage_plain (deinit_stages b d plug)"
  by (simp_all add: net_stages_def chain_stages_def vpn_pre_stages_def cli_stages_def late_stages_def
      server_stages_def vpn_stages_def plugin_start_stages_def deinit_stages_def)

lemma runs_sig_stage: "healthy d \<Longrightarrow> runs (sig_stage b d)"
  by (simp add: runs_def sig_stage_def Let_def healthy_def sig_unix_handler_init_def sig_win32_handler_init_def prog_simps)

lemma runs_load_plugins: "runs (load_plugins b d ov)"
proof -
  have "runs (bnd (get_state sys_dir) (\<lambda>sd. case sd of None \<Rightarrow> crash NullDeref | Some dir \<Rightarrow> k dir))"
    if "\<And>dir. runs (k dir)" for k :: "string \<Rightarrow> bool node"
    using that by (auto simp: runs_def prog_simps)
  then show ?thesis
    unfolding load_plugins_def by (intro runs_rules \<open>\<And>k. (\<And>dir. runs (k dir)) \<Longrightarrow> _\<close>)
qed

lemma runs_node_up: "healthy d \<Longrightarrow> runs (node_up b d ov)"
  unfolding node_up_def node_log_mode_def start_modules_def autoproc_def new_server_def start_server_def
    run_loop_def Let_def
  by (intro runs_rules runs_stages stages_plain runs_sig_stage runs_load_plugins; assumption)

lemma node_dirs_ok:
  assumes "healthy d" and "sys_dir s = Some dir" and "dap_dir_test d (Some dir)" and "length dir + 8 \<le> MAX_PATH d"
  shows "\<exists>u. node_dirs b d s = (Ret (), u) \<and> sys_dir u = Some dir \<and> pid_files u = pid_files s"
  using assms
  by (simp add: node_dirs_def Let_def healthy_def log_it_def void_def emit_def ncall_def prog_simps)

lemma pid_check_ok:
  assumes "\<not> DAP_OS_WINDOWS b" and "sys_dir s = Some dir"
    and "fst (s_proc_running_check (getpid d) (pid_files s (pid_file_path d dir))) = 0"
  shows "\<exists>u. pid_check b d s = (Ret (), u) \<and> sys_dir u = Some dir"
  using assms by (simp add: pid_check_def Let_def prog_simps)

lemma node_main_up:
  assumes "healthy d" and "\<not> DAP_OS_WINDOWS b" and "av \<noteq> []"
    and "1 < length av \<longrightarrow> dap_strcmp d ''-version'' (av ! 1) \<noteq> 0"
    and "sys_dir (snd (choose_sys_dir b d av s)) = Some dir"
    and "dap_dir_test d (Some dir)" and "length dir + 8 \<le> MAX_PATH d"
    and "fst (s_proc_running_check (getpid d) (pid_files s (pid_file_path d dir))) = 0"
  shows "\<exists>c t. node_main b d av s = (Ret c, t)"
proof -
  define s1 where "s1 = snd (seq (void ''dap_set_appname'' [NODE_NAME d])
      (if WIN32 b \<and> NDEBUG b then void ''S_SetExceptionFilter'' [] else ret ()) s)"
  have s1: "sys_dir s1 = sys_dir s" "pid_files s1 = pid_files s"
    by (simp_all add: s1_def void_def emit_def prog_simps)
  obtain u where u: "choose_sys_dir b d av s1 = (Ret (), u)" "sys_dir u = Some dir" "pid_files u = pid_files s"
    using assms(5) s1 by (simp add: choose_sys_dir_def set_global_sys_dir_def prog_simps split: if_splits)
  obtain v where v: "node_dirs b d u = (Ret (), v)" "sys_dir v = Some dir" "pid_files v = pid_files s"
    using node_dirs_ok [OF assms(1) u(2) assms(6,7)] u(3) by auto
  obtain w where w: "pid_check b d v = (Ret (), w)" "sys_dir w = Some dir"
    using pid_check_ok [OF assms(2) v(2), of d] assms(8) v(3) by auto
  define ov where "ov = plugins_path_override (getenv_HOME d) (plugins_path_arg b d av)"
  obtain c t where t: "node_up b d ov w = (Ret c, t)"
    using runs_node_up [OF assms(1), of b ov] w(2) by (auto simp: runs_def)
  have "length av \<ge> 1" using assms(3) by (cases av) auto
  then have "node_main b d av s = (Ret c, t)"
    using assms(4) u(1) v(1) w(1) t unfolding node_main_def Let_def ov_def [symmetric]
    by (auto simp: s1_def void_def emit_def prog_simps)
  then show ?thesis by blast
qed

text \<open>
  C17. The node starts whenever it can: with a system directory that exists and fits the path
  buffer, a configuration, a pid file it can take and modules that initialise, it reaches
  the event loop, shuts down when the loop stops, and returns ten times the loop's result.
\<close>

theorem node_starts:
  assumes "healthy d" and "\<not> DAP_OS_WINDOWS b" and "av \<noteq> []"
    and "1 < length av \<longrightarrow> dap_strcmp d ''-version'' (av ! 1) \<noteq> 0"
    and "sys_dir (snd (choose_sys_dir b d av s)) = Some dir"
    and "dap_dir_test d (Some dir)" and "length dir + 8 \<le> MAX_PATH d"
    and "fst (s_proc_running_check (getpid d) (pid_files s (pid_file_path d dir))) = 0"
  shows "\<exists>rc t. node_main b d av s = (Ret (rc * 10), t) \<and> NCall ''dap_events_wait'' [] rc \<in> set (ntrace t)"
  using node_main_up [OF assms] node_main_Ret by blast

section \<open>Witnesses\<close>

definition sample_build :: build where
  "sample_build = \<lparr>WIN32 = False, NDEBUG = True, DAP_OS_WINDOWS = False, DAP_OS_MAC = False, DAP_OS_UNIX = True,
     DAP_OS_LINUX = True, DAP_OS_DARWIN = False, DAP_OS_ANDROID = False, DAP_SUPPORT_PYTHON_PLUGINS = False\<rparr>"

definition sample_node :: node_sdk where
  "sample_node = \<lparr>NODE_NAME = ''cellframe-node'', DAP_VERSION = ''5.3'', node_version = ''CellframeNode, 5.3'',
     MAX_PATH = 4096, getpid = 1234, regGetUsrPath = [], getenv_HOME = Some ''/root'',
     dap_strcmp = (\<lambda>x y. if x = y then 0 else 1), find_option_val = (\<lambda>_ _ _ _. (0, None)),
     dap_dir_test = (\<lambda>p. p = Some ''/opt/cellframe-node''), config_open = True,
     config_bool = (\<lambda>_ _ v. v), config_int = (\<lambda>_ _ v. v), config_str = (\<lambda>_ _. None), config_item_path = (\<lambda>_ _ v. v),
     event_exists = (\<lambda>_. False), set_ctrl_handler_ok = True, answer = (\<lambda>_ _ _. 0)\<rparr>"

definition sample_boot :: node_state where
  "sample_boot = \<lparr>sys_dir = None, pid_files = (\<lambda>_. sample_pidfs), sigs = sig_start, win_handler = False, ntrace = []\<rparr>"

lemma sample_healthy: "healthy sample_node"
  by (simp add: healthy_def sample_node_def)

lemma sample_hyps:
  "\<not> DAP_OS_WINDOWS sample_build" "DAP_OS_UNIX sample_build" "dap_strcmp sample_node ''-version'' ''x'' \<noteq> 0"
  "sys_dir (snd (choose_sys_dir sample_build sample_node [''node''] sample_boot)) = Some ''/opt/cellframe-node''"
  "dap_dir_test sample_node (Some p) \<longleftrightarrow> p = ''/opt/cellframe-node''" "MAX_PATH sample_node = 4096"
  "fst (s_proc_running_check (getpid sample_node) (pid_files sample_boot p)) = 0"
  using sample_check
  by (simp_all add: sample_build_def sample_node_def sample_boot_def choose_sys_dir_def set_global_sys_dir_def prog_simps)

theorem node_starts_witness:
  "\<exists>rc t. node_main sample_build sample_node [''node''] sample_boot = (Ret (rc * 10), t)"
  using node_starts [OF sample_healthy sample_hyps(1), of "[''node'']" sample_boot "''/opt/cellframe-node''"]
    sample_hyps by auto

lemma sample_up:
  obtains c t where "node_main sample_build sample_node [''node''] sample_boot = (Ret c, t)"
  using node_main_up [OF sample_healthy sample_hyps(1), of "[''node'']" sample_boot "''/opt/cellframe-node''"]
    sample_hyps by auto



theorem node_exit_status_witness:
  "\<exists>c t rc. node_main sample_build sample_node [''node''] sample_boot = (Ret c, t)
     \<and> NCall ''dap_events_wait'' [] rc \<in> set (ntrace t) \<and> (exit_status c = 0 \<longleftrightarrow> rc mod 128 = 0)"
proof -
  obtain c t where run: "node_main sample_build sample_node [''node''] sample_boot = (Ret c, t)"
    by (rule sample_up)
  obtain rc where "NCall ''dap_events_wait'' [] rc \<in> set (ntrace t)" "exit_status c = 0 \<longleftrightarrow> rc mod 128 = 0"
    using node_exit_status [OF run] by auto
  with run show ?thesis by (intro exI conjI)
qed


end
