(* ===== verification/Node_Shutdown.thy ===== *)
theory Node_Shutdown
  imports Node_Start
begin

text \<open>
  The shutdown of the node: which modules \<open>main\<close> of \<^verbatim>\<open>sources/cellframe-node.c\<close> takes down behind the event loop, compared with
  those it initialised in front of it, and what a run that ends early takes down.
\<close>

section \<open>Modules with a shutdown\<close>

text \<open>Each call that initialises a module, with the call that takes it down. The plugins are taken down when they were started.\<close>

definition module_pairs :: "(string \<times> string) list" where
  "module_pairs =
    [(''dap_common_init'', ''dap_common_deinit''), (''dap_server_init'', ''dap_server_deinit''),
     (''dap_http_init'', ''dap_http_deinit''), (''dap_http_folder_init'', ''dap_http_folder_deinit''),
     (''dap_stream_init'', ''dap_stream_deinit''), (''dap_stream_ctl_init'', ''dap_stream_ctl_deinit''),
     (''dap_global_db_init'', ''dap_global_db_deinit''), (''dap_chain_init'', ''dap_chain_deinit''),
     (''dap_chain_net_init'', ''dap_chain_net_deinit''),
     (''dap_chain_net_srv_xchange_init'', ''dap_chain_net_srv_xchange_deinit''),
     (''dap_chain_net_srv_voting_init'', ''dap_chain_net_srv_voting_deinit''),
     (''dap_chain_net_srv_bridge_init'', ''dap_chain_net_srv_bridge_deinit''),
     (''dap_chain_net_srv_stake_lock_init'', ''dap_chain_net_srv_stake_lock_deinit''),
     (''dap_chain_net_srv_stake_pos_delegate_init'', ''dap_chain_net_srv_stake_pos_delegate_deinit''),
     (''dap_chain_node_mempool_autoproc_init'', ''dap_chain_node_mempool_autoproc_deinit''),
     (''dap_plugin_start_all'', ''dap_plugin_stop_all''), (''dap_plugin_start_all'', ''dap_plugin_deinit'')]"

section \<open>The two halves of the script\<close>

definition front_script :: "build \<Rightarrow> node_sdk \<Rightarrow> bool \<Rightarrow> bool \<Rightarrow> string list" where
  "front_script b d plug srv =
     ''dap_set_appname'' # (if WIN32 b \<and> NDEBUG b then [''S_SetExceptionFilter''] else []) @ boot_script
     @ log_script d @ module_script b d @ load_script b d plug @ map stage_name late_stages
     @ [''dap_chain_node_mempool_autoproc_init'']
     @ (if server_enabled d then [''dap_http_server_new''] else [])
     @ server_script b d srv @ map stage_name (vpn_stages b d @ plugin_start_stages b plug)"

definition back_script :: "build \<Rightarrow> node_sdk \<Rightarrow> bool \<Rightarrow> string list" where
  "back_script b d plug = map stage_name (deinit_stages b d plug)"

lemma node_script_halves: "node_script b d plug srv = front_script b d plug srv @ ''dap_events_wait'' # back_script b d plug"
  by (simp add: node_script_def up_script_def front_script_def back_script_def)

lemmas front_parts = front_script_def boot_script_def log_script_def module_script_def load_script_def server_script_def
  net_stages_def chain_stages_def vpn_pre_stages_def cli_stages_def late_stages_def server_stages_def vpn_stages_def
  plugin_start_stages_def

lemma map_if: "map f (if c then xs else ys) = (if c then map f xs else map f ys)"
  by simp

lemma back_names:
  "back_script b d plug =
    (if plug then [''dap_plugin_stop_all'', ''dap_plugin_deinit''] else []) @
    [''dap_dns_server_stop'', ''dap_stream_deinit'', ''dap_stream_ctl_deinit''] @
    (if \<not> DAP_OS_ANDROID b then [''dap_http_folder_deinit''] else []) @
    [''dap_http_deinit''] @ (if server_enabled d then [''dap_server_deinit''] else []) @
    [''dap_enc_ks_deinit'', ''dap_chain_node_mempool_autoproc_deinit'', ''dap_chain_net_srv_xchange_deinit'',
     ''dap_chain_net_srv_stake_pos_delegate_deinit'', ''dap_chain_net_srv_stake_lock_deinit'',
     ''dap_chain_net_srv_bridge_deinit'', ''dap_chain_net_srv_voting_deinit'', ''dap_chain_net_deinit'',
     ''dap_global_db_deinit'', ''dap_chain_deinit'', ''dap_config_close'', ''dap_interval_timer_deinit'', ''dap_common_deinit'']"
  unfolding back_script_def deinit_stages_def map_append map_if by simp

lemma back_distinct: "distinct (back_script b d plug)"
  unfolding back_names by (cases plug; cases "DAP_OS_ANDROID b"; cases "server_enabled d") simp_all

text \<open>No name of the first half ends the way those of the second half do.\<close>

definition ender :: "string \<Rightarrow> bool" where
  "ender x \<longleftrightarrow> take 7 (rev x) = rev ''_deinit'' \<or> x = ''dap_plugin_stop_all'' \<or> x = ''dap_dns_server_stop''
     \<or> x = ''dap_config_close'' \<or> x = ''dap_events_wait''"

lemma starters: "list_all (\<lambda>x. \<not> ender x)
    [''dap_enc_init'', ''dap_events_init'', ''dap_events_start'', ''dap_server_init'', ''dap_http_init'',
     ''dap_http_folder_init'', ''dap_http_simple_module_init'', ''enc_http_init'', ''dap_stream_init'',
     ''dap_stream_ctl_init'', ''dap_client_init'', ''dap_notify_server_init'', ''dap_global_db_init'',
     ''dap_datum_mempool_init'', ''dap_chain_init'', ''dap_chain_net_srv_stake_pos_delegate_init'',
     ''dap_chain_cs_dag_init'', ''dap_chain_cs_dag_poa_init'', ''dap_chain_cs_blocks_init'', ''dap_chain_cs_esbocs_init'',
     ''dap_nonconsensus_init'', ''dap_chain_net_init'', ''dap_chain_policy_init'', ''dap_chain_wallet_init'',
     ''dap_chain_net_srv_init'', ''dap_chain_net_srv_xchange_init'', ''dap_chain_net_srv_dex_init'',
     ''dap_chain_net_srv_voting_init'', ''dap_chain_net_srv_bridge_init'', ''dap_chain_net_srv_stake_ext_init'',
     ''dap_chain_net_srv_stake_lock_init'', ''dap_chain_net_srv_vpn_pre_init'', ''dap_chain_node_cli_init'',
     ''dap_chain_wallet_cache_init'', ''dap_chain_net_load_all'', ''dap_chain_wallet_shared_notify_init'',
     ''dap_chain_net_srv_order_init'', ''dap_chain_node_list_clean_init'', ''dap_global_db_clean_init'',
     ''enc_http_add_proc'', ''dap_stream_add_proc_http'', ''dap_stream_ctl_add_proc'', ''dap_chain_mempool_add_proc'',
     ''dap_json_rpc_init'', ''dap_http_folder_add'', ''dap_server_set_default'', ''dap_http_simple_proc_add'',
     ''dap_dns_server_start'', ''dap_chain_net_srv_vpn_init'', ''dap_chain_net_vpn_client_init'', ''chain_net_geoip_init'',
     ''dap_plugins_python_app_content_init'', ''dap_plugin_start_all'', ''dap_chain_plugins_save_thread'',
     ''dap_chain_net_try_online_all'', ''dap_plugin_init'', ''dap_chain_plugins_init'', ''dap_plugin_load_all'',
     ''dap_plugin_preinit_all'', ''dap_mkdir_with_parents'', ''dap_common_init'', ''dap_log_set_external_output'',
     ''dap_config_init'', ''dap_log_level_set'', ''dap_common_enable_cleaner_log'', ''dap_set_appname'',
     ''S_SetExceptionFilter'', ''dap_chain_node_mempool_autoproc_init'', ''dap_http_server_new'']"
  by code_simp

lemma front_ender: "list_all (\<lambda>x. \<not> ender x) (front_script b d plug srv)"
  using starters unfolding front_parts map_append map_if list_all_append by (simp split del: if_split) simp

lemma stoppers: "list_all ender [''dap_plugin_stop_all'', ''dap_plugin_deinit'', ''dap_dns_server_stop'', ''dap_stream_deinit'',
    ''dap_stream_ctl_deinit'', ''dap_http_folder_deinit'', ''dap_http_deinit'', ''dap_server_deinit'', ''dap_enc_ks_deinit'',
    ''dap_chain_node_mempool_autoproc_deinit'', ''dap_chain_net_srv_xchange_deinit'',
    ''dap_chain_net_srv_stake_pos_delegate_deinit'', ''dap_chain_net_srv_stake_lock_deinit'',
    ''dap_chain_net_srv_bridge_deinit'', ''dap_chain_net_srv_voting_deinit'', ''dap_chain_net_deinit'',
    ''dap_global_db_deinit'', ''dap_chain_deinit'', ''dap_config_close'', ''dap_interval_timer_deinit'', ''dap_common_deinit'']"
  by code_simp

lemma back_ender: "list_all ender (back_script b d plug)"
  using stoppers unfolding back_names list_all_append by (simp split del: if_split) simp

lemma set_if: "x \<in> set (if c then xs else ys) \<longleftrightarrow> (if c then x \<in> set xs else x \<in> set ys)"
  by simp

lemma pairs_match:
  "list_all (\<lambda>(i, x). i \<in> set (front_script b d plug srv) \<longleftrightarrow> x \<in> set (back_script b d plug)) module_pairs"
  unfolding module_pairs_def list.pred_inject prod.case front_parts back_names map_append map_if set_append Un_iff set_if
  by (intro conjI) (simp_all split del: if_split, simp_all)

section \<open>Runs that end early\<close>

text \<open>\<open>before_loop\<close>: between the two states the event loop was not called. \<open>ends_before m\<close>: a run of \<open>m\<close> that ends the process does so before.\<close>

definition before_loop :: "node_state \<Rightarrow> node_state \<Rightarrow> bool" where
  "before_loop s t \<longleftrightarrow> (\<exists>new. ntrace t = ntrace s @ new \<and> ''dap_events_wait'' \<notin> set (calls_of new))"

interpretation pre_loop: state_preorder before_loop
proof unfold_locales
  fix s t u assume "before_loop s t" and "before_loop t u"
  then obtain x y where "ntrace t = ntrace s @ x" "ntrace u = ntrace t @ y"
    "''dap_events_wait'' \<notin> set (calls_of x)" "''dap_events_wait'' \<notin> set (calls_of y)" unfolding before_loop_def by blast
  then show "before_loop s u" unfolding before_loop_def by (intro exI [of _ "x @ y"]) simp
qed (simp add: before_loop_def)

definition ends_before :: "'a node \<Rightarrow> bool" where
  "ends_before m \<longleftrightarrow> (\<forall>s c t. m s = (Exit c, t) \<longrightarrow> before_loop s t)"

lemma scripted_before:
  assumes "scripted m S" and "\<And>a cs. (a, cs) \<in> S \<Longrightarrow> ''dap_events_wait'' \<notin> set cs"
  shows "keeps before_loop m"
  unfolding keeps_def
proof
  fix s
  obtain r t where run: "m s = (r, t)" by fastforce
  with assms(1) obtain new where new: "ntrace t = ntrace s @ new"
    and S: "case r of Ret a \<Rightarrow> (a, calls_of new) \<in> S | _ \<Rightarrow> (\<exists>a cs. (a, cs) \<in> S \<and> prefix (calls_of new) cs)"
    unfolding scripted_def by blast
  from S obtain a cs where "(a, cs) \<in> S" "prefix (calls_of new) cs" by (cases r) auto
  with assms(2) have "''dap_events_wait'' \<notin> set (calls_of new)" by (meson set_mono_prefix subsetD)
  with new run show "before_loop s (snd (m s))" by (auto simp: before_loop_def)
qed

lemma keeps_ends: "keeps before_loop m \<Longrightarrow> ends_before m"
  unfolding keeps_def ends_before_def by (metis snd_conv)

lemma ends_bnd:
  assumes "keeps before_loop m" and "\<And>a. ends_before (k a)"
  shows "ends_before (bnd m k)"
  unfolding ends_before_def
proof (intro allI impI)
  fix s c t assume run: "bnd m k s = (Exit c, t)"
  obtain r u where m: "m s = (r, u)" by fastforce
  with assms(1) have u: "before_loop s u" unfolding keeps_def by (metis snd_conv)
  show "before_loop s t"
  proof (cases r)
    case (Ret a)
    with run m have "k a u = (Exit c, t)" by (simp add: prog_simps)
    with assms(2) have "before_loop u t" unfolding ends_before_def by blast
    with u show ?thesis by (rule pre_loop.R_trans)
  qed (use run m u in \<open>auto simp: prog_simps\<close>)
qed

lemma ends_seq: "keeps before_loop m \<Longrightarrow> ends_before k \<Longrightarrow> ends_before (seq m k)"
  unfolding seq_def by (rule ends_bnd)

text \<open>Behind the loop no call ends the process.\<close>

lemma void_stages_return: "list_all (\<lambda>st. case st of Void f xs \<Rightarrow> True | _ \<Rightarrow> False) sts \<Longrightarrow> \<exists>t. run_stages d sts s = (Ret (), t)"
  by (induction sts arbitrary: s) (auto simp: run_stage_def void_def emit_def prog_simps split: stage.splits)

lemma run_loop_returns: "\<exists>c t. run_loop b d plug s = (Ret c, t)"
proof -
  have void: "list_all (\<lambda>st. case st of Void f xs \<Rightarrow> True | _ \<Rightarrow> False) (plugin_start_stages b plug)"
    "list_all (\<lambda>st. case st of Void f xs \<Rightarrow> True | _ \<Rightarrow> False) (deinit_stages b d plug)"
    by (simp_all add: plugin_start_stages_def deinit_stages_def)
  obtain t where "run_stages d (plugin_start_stages b plug) s = (Ret (), t)" using void_stages_return [OF void(1)] by blast
  moreover obtain rc u where "ncall d ''dap_events_wait'' [] t = (Ret rc, u)" by (simp add: ncall_def emit_def prog_simps)
  moreover obtain w where "run_stages d (deinit_stages b d plug) (u\<lparr>ntrace := ntrace u @ [NLog (''Server loop stopped with return code '' @ show_int rc)]\<rparr>) = (Ret (), w)"
    using void_stages_return [OF void(2)] by blast
  ultimately show ?thesis by (simp add: run_loop_def log_it_def emit_def prog_simps)
qed

lemma no_wait: "''dap_events_wait'' \<notin> set (front_script b d plug srv)"
  using front_ender [of b d plug srv] by (auto simp: list_all_iff ender_def)

lemma before_parts:
  "keeps before_loop (node_log_mode d ov)" "keeps before_loop (start_modules b d)" "keeps before_loop (load_plugins b d ov)"
  "keeps before_loop (run_stages d late_stages)" "keeps before_loop (autoproc d)" "keeps before_loop (new_server d)"
  "keeps before_loop (start_server b d srv)" "keeps before_loop (run_stages d (vpn_stages b d))"
  "keeps before_loop (choose_sys_dir b d av)" "keeps before_loop (node_dirs b d)" "keeps before_loop (pid_check b d)"
  using no_wait [of b d] unfolding front_script_def
  by (auto intro!: scripted_before [OF fixed_log_mode] scripted_before [OF fixed_start_modules] scripted_before [OF load_plugins_scripted]
      scripted_before [OF fixed_stages] scripted_before [OF fixed_autoproc] scripted_before [OF new_server_scripted]
      scripted_before [OF fixed_start_server] scripted_before [OF fixed_choose] scripted_before [OF fixed_node_dirs]
      scripted_before [OF fixed_pid_check])

lemma node_main_ends: "ends_before (node_main b d av)"
proof -
  have "ends_before (run_loop b d plug)" for plug
    using run_loop_returns [of b d plug] unfolding ends_before_def by (metis Pair_inject res.distinct(1))
  then have up: "ends_before (node_up b d ov)" for ov
    unfolding node_up_def by (intro ends_seq ends_bnd before_parts)
  have v: "keeps before_loop (void f xs)" if "f \<noteq> ''dap_events_wait''" for f xs
    by (rule scripted_before [OF scripted_void]) (use that in simp)
  have x: "ends_before (seq (log_it m) (exit_with 0))" for m
    by (intro keeps_ends scripted_before [OF fixed_log_exit [where cs = "[]"]]) simp
  have a: "keeps before_loop (arg_opt av 1)" by (simp add: arg_opt_def pre_loop.keeps_rules)
  show ?thesis
    unfolding node_main_def Let_def
    by (intro ends_bnd a) (auto intro!: ends_seq x up before_parts v pre_loop.keeps_rules)
qed

section \<open>Property\<close>

lemma pairs_ender: "list_all (\<lambda>(i, x). \<not> ender i \<and> ender x) module_pairs"
  by code_simp

lemma pair_scripts:
  assumes "(i, x) \<in> set module_pairs"
  shows "i \<in> set (front_script b d plug srv) \<longleftrightarrow> x \<in> set (back_script b d plug)"
    and "x \<notin> set (front_script b d plug srv)" and "i \<notin> set (back_script b d plug)"
proof -
  have "\<not> ender i" "ender x" using assms pairs_ender by (auto simp: list_all_iff)
  then show "x \<notin> set (front_script b d plug srv)" "i \<notin> set (back_script b d plug)"
    using front_ender [of b d plug srv] back_ender [of b d plug] by (auto simp: list_all_iff)
  show "i \<in> set (front_script b d plug srv) \<longleftrightarrow> x \<in> set (back_script b d plug)"
    using assms pairs_match [of b d plug srv] by (auto simp: list_all_iff)
qed


section \<open>Witness\<close>


end
