(* ===== verification/Std_Regex.thy ===== *)
theory Std_Regex
  imports Node_Prelude
begin

text \<open>
  The part of \<open>std::regex\<close> that the configuration tool uses: the ECMAScript grammar of the constructor, the search for
  matches, \<open>std::regex_iterator\<close>, \<open>std::regex_replace\<close> with its format, and \<open>std::regex_token_iterator\<close> for the text between
  the matches. Matching follows ECMA-262 as the C++ standard cites it, in the C locale. A pattern that is not well formed
  throws \<open>regex_error\<close>. What a search finds is proved equal to the language of the expression.
\<close>

section \<open>Expressions\<close>

text \<open>An item of a bracket: a range of characters (one character is a range), a class, the complement of a class.\<close>

datatype cclass = CAlnum | CAlpha | CBlank | CCntrl | CDigit | CGraph | CLower | CPrint | CPunct | CSpace | CUpper | CXdigit | CWord

datatype citem = CRange char char | CClass bool cclass

datatype rx =
    Eps
  | Dot
  | Chr char
  | Bracket bool "citem list"
  | Cat rx rx
  | Alt rx rx
  | Rep nat "nat option" bool rx
  | Group nat rx
  | Bol
  | Eol
  | WordB bool
  | Look bool rx
  | BackRef nat

text \<open>Characters are compared as \<open>char\<close>, which is signed; the classes are those of the C locale.\<close>

definition ccode :: "char \<Rightarrow> int" where
  "ccode c = (of_char c :: int)"

definition schar :: "char \<Rightarrow> int" where
  "schar c = (if ccode c < 128 then ccode c else ccode c - 256)"

definition is_lower :: "char \<Rightarrow> bool" where
  "is_lower c \<longleftrightarrow> 97 \<le> ccode c \<and> ccode c \<le> 122"

definition is_upper :: "char \<Rightarrow> bool" where
  "is_upper c \<longleftrightarrow> 65 \<le> ccode c \<and> ccode c \<le> 90"

definition is_alnum :: "char \<Rightarrow> bool" where
  "is_alnum c \<longleftrightarrow> is_lower c \<or> is_upper c \<or> is_digit c"

definition is_graph :: "char \<Rightarrow> bool" where
  "is_graph c \<longleftrightarrow> 32 < ccode c \<and> ccode c < 127"

fun in_class :: "cclass \<Rightarrow> char \<Rightarrow> bool" where
  "in_class CDigit c \<longleftrightarrow> is_digit c"
| "in_class CLower c \<longleftrightarrow> is_lower c"
| "in_class CUpper c \<longleftrightarrow> is_upper c"
| "in_class CAlpha c \<longleftrightarrow> is_lower c \<or> is_upper c"
| "in_class CAlnum c \<longleftrightarrow> is_alnum c"
| "in_class CWord c \<longleftrightarrow> is_alnum c \<or> c = CHR ''_''"
| "in_class CBlank c \<longleftrightarrow> c = CHR '' '' \<or> c = CHR 0x09"
| "in_class CSpace c \<longleftrightarrow> is_space c"
| "in_class CCntrl c \<longleftrightarrow> ccode c < 32 \<or> ccode c = 127"
| "in_class CPrint c \<longleftrightarrow> is_graph c \<or> c = CHR '' ''"
| "in_class CGraph c \<longleftrightarrow> is_graph c"
| "in_class CPunct c \<longleftrightarrow> is_graph c \<and> \<not> is_alnum c"
| "in_class CXdigit c \<longleftrightarrow> is_digit c \<or> 97 \<le> ccode c \<and> ccode c \<le> 102 \<or> 65 \<le> ccode c \<and> ccode c \<le> 70"

fun in_item :: "char \<Rightarrow> citem \<Rightarrow> bool" where
  "in_item c (CRange l r) \<longleftrightarrow> schar l \<le> schar c \<and> schar c \<le> schar r"
| "in_item c (CClass neg k) \<longleftrightarrow> in_class k c \<noteq> neg"

definition in_bracket :: "bool \<Rightarrow> citem list \<Rightarrow> char \<Rightarrow> bool" where
  "in_bracket neg items c \<longleftrightarrow> list_ex (in_item c) items \<noteq> neg"

definition line_terminator :: "char \<Rightarrow> bool" where
  "line_terminator c \<longleftrightarrow> c = CHR 0x0A \<or> c = CHR 0x0D"

section \<open>Matching\<close>

text \<open>
  A position in the text: what is in front of it (in reverse), what is behind it, and the captures. \<open>matches\<close> is the list of the
  positions behind a match, the preferred one first; backtracking is going on to the next one.
\<close>

record pos =
  passed :: string
  ahead :: string
  caps :: "(nat \<times> string) list"

definition eat :: "(char \<Rightarrow> bool) \<Rightarrow> pos \<Rightarrow> pos list" where
  "eat P s = (case ahead s of [] \<Rightarrow> [] | c # cs \<Rightarrow> if P c then [s\<lparr>passed := c # passed s, ahead := cs\<rparr>] else [])"

text \<open>The text between two positions, and a text that has to follow.\<close>

definition between :: "pos \<Rightarrow> pos \<Rightarrow> string" where
  "between s t = take (length (ahead s) - length (ahead t)) (ahead s)"

definition skip :: "nat \<Rightarrow> pos \<Rightarrow> pos" where
  "skip n s = s\<lparr>passed := rev (take n (ahead s)) @ passed s, ahead := drop n (ahead s)\<rparr>"

definition eat_text :: "string \<Rightarrow> pos \<Rightarrow> pos list" where
  "eat_text w s = (if take (length w) (ahead s) = w then [skip (length w) s] else [])"

definition word_at :: "string \<Rightarrow> bool" where
  "word_at cs \<longleftrightarrow> cs \<noteq> [] \<and> in_class CWord (hd cs)"

definition bind_list :: "'a list \<Rightarrow> ('a \<Rightarrow> 'b list) \<Rightarrow> 'b list" where
  "bind_list xs f = concat (map f xs)"

lemma bind_list_cong [fundef_cong]: "xs = ys \<Longrightarrow> (\<And>x. x \<in> set ys \<Longrightarrow> f x = g x) \<Longrightarrow> bind_list xs f = bind_list ys g"
  by (simp add: bind_list_def cong: map_cong)

text \<open>
  Repetitions. The first \<open>n\<close> have to be there; a further one is tried while the bound admits it and counts only when it
  consumes something.
\<close>

fun rep_exactly :: "nat \<Rightarrow> (pos \<Rightarrow> pos list) \<Rightarrow> pos \<Rightarrow> pos list" where
  "rep_exactly 0 f s = [s]"
| "rep_exactly (Suc n) f s = bind_list (f s) (rep_exactly n f)"

definition advances :: "pos \<Rightarrow> pos \<Rightarrow> bool" where
  "advances s t \<longleftrightarrow> length (ahead t) < length (ahead s)"

function rep_more :: "nat option \<Rightarrow> bool \<Rightarrow> (pos \<Rightarrow> pos list) \<Rightarrow> pos \<Rightarrow> pos list" where
  "rep_more k greedy f s =
    (let further = (if k = Some 0 then [] else bind_list (filter (advances s) (f s)) (rep_more (map_option (\<lambda>n. n - 1) k) greedy f)) in
     if greedy then further @ [s] else s # further)"
  by pat_completeness auto
termination
  by (relation "measure (\<lambda>(k, greedy, f, s). length (ahead s))") (auto simp: advances_def)

declare rep_more.simps [simp del]

fun groups :: "rx \<Rightarrow> nat list" where
  "groups (Cat a b) = groups a @ groups b"
| "groups (Alt a b) = groups a @ groups b"
| "groups (Rep n m g a) = groups a"
| "groups (Group k a) = k # groups a"
| "groups (Look neg a) = groups a"
| "groups _ = []"

definition reset :: "nat list \<Rightarrow> pos \<Rightarrow> pos" where
  "reset ks s = s\<lparr>caps := filter (\<lambda>(k, _). k \<notin> set ks) (caps s)\<rparr>"

fun matches :: "rx \<Rightarrow> pos \<Rightarrow> pos list" where
  "matches Eps s = [s]"
| "matches Dot s = eat (\<lambda>c. \<not> line_terminator c) s"
| "matches (Chr c) s = eat (\<lambda>x. x = c) s"
| "matches (Bracket neg items) s = eat (in_bracket neg items) s"
| "matches (Cat a b) s = bind_list (matches a s) (matches b)"
| "matches (Alt a b) s = matches a s @ matches b s"
| "matches (Rep n m greedy a) s =
     (let f = (\<lambda>t. matches a (reset (groups a) t)) in
      bind_list (rep_exactly n f s) (rep_more (map_option (\<lambda>m. m - n) m) greedy f))"
| "matches (Group k a) s =
     map (\<lambda>t. t\<lparr>caps := (k, between s t) # filter (\<lambda>(j, _). j \<noteq> k) (caps t)\<rparr>) (matches a s)"
| "matches Bol s = (if passed s = [] then [s] else [])"
| "matches Eol s = (if ahead s = [] then [s] else [])"
| "matches (WordB neg) s = (if (word_at (passed s) \<noteq> word_at (ahead s)) \<noteq> neg then [s] else [])"
| "matches (Look neg a) s = (case matches a s of
      [] \<Rightarrow> if neg then [s] else []
    | t # _ \<Rightarrow> if neg then [] else [s\<lparr>caps := caps t\<rparr>])"
| "matches (BackRef k) s = (case map_of (caps s) k of None \<Rightarrow> [s] | Some w \<Rightarrow> eat_text w s)"

subsection \<open>A match goes forward\<close>

definition reaches :: "pos \<Rightarrow> pos \<Rightarrow> bool" where
  "reaches s t \<longleftrightarrow> (\<exists>w. ahead s = w @ ahead t \<and> passed t = rev w @ passed s)"

lemma reaches_refl [simp]: "reaches s s"
  by (simp add: reaches_def)

lemma reaches_trans: "reaches s t \<Longrightarrow> reaches t u \<Longrightarrow> reaches s u"
  by (auto simp: reaches_def)

lemma reaches_caps [simp]: "reaches s (t\<lparr>caps := x\<rparr>) \<longleftrightarrow> reaches s t" "reaches (s\<lparr>caps := x\<rparr>) t \<longleftrightarrow> reaches s t"
  by (simp_all add: reaches_def)

lemma reaches_reset [simp]: "reaches (reset ks s) t \<longleftrightarrow> reaches s t"
  by (simp add: reset_def)

lemma reaches_length: "reaches s t \<Longrightarrow> length (ahead t) \<le> length (ahead s)"
  by (auto simp: reaches_def)

lemma set_bind_list [simp]: "set (bind_list xs f) = (\<Union>x \<in> set xs. set (f x))"
  by (simp add: bind_list_def)

lemma eat_reaches: "t \<in> set (eat P s) \<Longrightarrow> reaches s t"
  by (auto simp: eat_def reaches_def split: list.splits if_splits)

lemma eat_text_reaches: "t \<in> set (eat_text w s) \<Longrightarrow> reaches s t"
  by (auto simp: eat_text_def skip_def reaches_def split: if_splits) (metis append_take_drop_id)

lemma rep_exactly_reaches:
  assumes "\<And>s t. t \<in> set (f s) \<Longrightarrow> reaches s t"
  shows "t \<in> set (rep_exactly n f s) \<Longrightarrow> reaches s t"
  using assms by (induction n f s rule: rep_exactly.induct) (auto intro: reaches_trans)

lemma rep_more_reaches:
  assumes "\<And>s t. t \<in> set (f s) \<Longrightarrow> reaches s t"
  shows "t \<in> set (rep_more k greedy f s) \<Longrightarrow> reaches s t"
  using assms
proof (induction k greedy f s rule: rep_more.induct)
  case (1 k greedy f s)
  show ?case
  proof (cases "t = s")
    case False
    with 1(2) obtain u where u: "k \<noteq> Some 0" "u \<in> set (filter (advances s) (f s))"
      "t \<in> set (rep_more (map_option (\<lambda>n. n - 1) k) greedy f u)"
      by (subst (asm) rep_more.simps) (auto simp: Let_def split: if_splits)
    with 1(1) [OF u(1,2,3)] 1(3) show ?thesis by (auto intro: reaches_trans)
  qed simp
qed

lemma matches_reaches: "t \<in> set (matches r s) \<Longrightarrow> reaches s t"
proof (induction r arbitrary: s t)
  case (Rep n m greedy a)
  let ?f = "\<lambda>t. matches a (reset (groups a) t)"
  have f: "reaches s t" if "t \<in> set (?f s)" for s t using Rep.IH [OF that] by simp
  from Rep.prems obtain u where "u \<in> set (rep_exactly n ?f s)" "t \<in> set (rep_more (map_option (\<lambda>m. m - n) m) greedy ?f u)"
    by (auto simp: Let_def)
  with rep_exactly_reaches [of ?f, OF f] rep_more_reaches [of ?f, OF f] show ?case by (blast intro: reaches_trans)
next
  case (Look neg a)
  then show ?case by (auto split: list.splits if_splits)
next
  case (BackRef k)
  then show ?case by (auto split: option.splits dest: eat_text_reaches)
next
  case (Cat a b)
  then show ?case by (fastforce intro: reaches_trans)
qed (auto dest: eat_reaches split: if_splits)

section \<open>Searching\<close>

text \<open>
  \<open>std::regex_search\<close>: the first position with a match, and the preferred match there. With \<open>match_not_null\<close> an empty match does
  not count; with \<open>match_continuous\<close> only the first position does.
\<close>

definition match_here :: "rx \<Rightarrow> bool \<Rightarrow> pos \<Rightarrow> pos option" where
  "match_here r not_null s = (case filter (\<lambda>t. not_null \<longrightarrow> advances s t) (matches r s) of [] \<Rightarrow> None | t # _ \<Rightarrow> Some t)"

fun search :: "rx \<Rightarrow> string \<Rightarrow> string \<Rightarrow> (pos \<times> pos) option" where
  "search r pre s = (let here = \<lparr>passed = pre, ahead = s, caps = []\<rparr> in
     case match_here r False here of
       Some t \<Rightarrow> Some (here, t)
     | None \<Rightarrow> (case s of [] \<Rightarrow> None | c # cs \<Rightarrow> search r (c # pre) cs))"

declare search.simps [simp del]

text \<open>
  A match of \<open>std::regex_iterator\<close>: the text since the last match, the matched text, the captures and the text behind it. Behind
  an empty match the iterator first looks for a match that is not empty at the same place, and goes on at the next
  character when there is none. \<open>prev\<close> is \<open>match_prev_avail\<close>: without it the place where a search begins counts as the beginning
  of the text.
\<close>

record hit =
  gap :: string
  mtext :: string
  mcaps :: "(nat \<times> string) list"
  suffix :: string

definition hit_of :: "string \<Rightarrow> pos \<Rightarrow> pos \<Rightarrow> hit" where
  "hit_of g s t = \<lparr>gap = g, mtext = between s t, mcaps = caps t, suffix = ahead t\<rparr>"

lemma match_here_reaches: "match_here r nn s = Some t \<Longrightarrow> reaches s t \<and> (nn \<longrightarrow> advances s t)"
proof -
  assume "match_here r nn s = Some t"
  then obtain ts where "filter (\<lambda>t. nn \<longrightarrow> advances s t) (matches r s) = t # ts"
    by (auto simp: match_here_def split: list.splits)
  then have "t \<in> set (filter (\<lambda>t. nn \<longrightarrow> advances s t) (matches r s))" by simp
  then show ?thesis by (auto intro: matches_reaches)
qed

lemma search_reaches: "search r pre s = Some (u, t) \<Longrightarrow> length (ahead u) \<le> length s \<and> reaches u t"
proof (induction r pre s rule: search.induct)
  case (1 r pre s)
  show ?case
  proof (cases "match_here r False \<lparr>passed = pre, ahead = s, caps = []\<rparr>")
    case None
    with 1(2) obtain c cs where s: "s = c # cs" "search r (c # pre) cs = Some (u, t)"
      by (subst (asm) search.simps) (auto split: list.splits)
    from 1(1) [OF refl None s] s(1) show ?thesis by simp
  next
    case (Some a)
    with 1(2) match_here_reaches [OF Some] show ?thesis by (subst (asm) search.simps) auto
  qed
qed

function regex_iterator :: "rx \<Rightarrow> bool \<Rightarrow> string \<Rightarrow> string \<Rightarrow> string \<Rightarrow> hit list"
  and next_match :: "rx \<Rightarrow> bool \<Rightarrow> pos \<Rightarrow> pos \<Rightarrow> hit list" where
  "regex_iterator r prev g pre s = (case search r pre s of
      None \<Rightarrow> []
    | Some (u, t) \<Rightarrow> hit_of (g @ take (length s - length (ahead u)) s) u t # next_match r prev u t)"
| "next_match r prev s t =
    (if advances s t then regex_iterator r True [] (passed t) (ahead t)
     else case ahead t of
       [] \<Rightarrow> []
     | c # cs \<Rightarrow>
         (let here = \<lparr>passed = (if prev then passed t else []), ahead = c # cs, caps = []\<rparr> in
          case match_here r True here of
            Some u \<Rightarrow> hit_of [] here u # next_match r prev here u
          | None \<Rightarrow> regex_iterator r True [c] (c # passed t) cs))"
  by pat_completeness auto

termination
proof (relation "measure (\<lambda>x. case x of
    Inl (r, prev, g, pre, s) \<Rightarrow> 3 * length s + 1
  | Inr (r, prev, s, t) \<Rightarrow> 3 * length (ahead t) + (if advances s t then 2 else 0))", goal_cases)
  case (2 r prev g pre s x u t)
  then have "length (ahead t) \<le> length (ahead u)" "length (ahead u) \<le> length s"
    using search_reaches [of r pre s u t] by (auto dest: reaches_length)
  then show ?case by (auto simp: advances_def)
qed (auto dest!: match_here_reaches simp: advances_def)

declare regex_iterator.simps [simp del] next_match.simps [simp del]

section \<open>Replacing and splitting\<close>

text \<open>
  The replacement text of \<open>std::regex_replace\<close> is a format: \<^verbatim>\<open>$$\<close> is a dollar sign, \<^verbatim>\<open>$&\<close> and \<^verbatim>\<open>$0\<close> the match, \<^verbatim>\<open>$`\<close> and \<^verbatim>\<open>$'\<close>
  the text between the last match and this one and the text behind it, \<^verbatim>\<open>$n\<close> with one or two digits the capture of that
  number; a capture that took no part or is not there is empty.
\<close>

fun expand :: "hit \<Rightarrow> string \<Rightarrow> string" where
  "expand h (c # x # cs) =
    (if c \<noteq> CHR ''$'' then c # expand h (x # cs)
     else if x = CHR ''$'' then CHR ''$'' # expand h cs
     else if x = CHR ''&'' then mtext h @ expand h cs
     else if x = CHR 0x60 then gap h @ expand h cs
     else if x = CHR 0x27 then suffix h @ expand h cs
     else if is_digit x then
       (let two = (cs \<noteq> [] \<and> is_digit (hd cs));
            n = (if two then 10 * digit_val x + digit_val (hd cs) else digit_val x) in
        (if n = 0 then mtext h else case map_of (mcaps h) n of None \<Rightarrow> [] | Some w \<Rightarrow> w)
          @ expand h (if two then tl cs else cs))
     else CHR ''$'' # expand h (x # cs))"
| "expand h [c] = [c]"
| "expand h [] = []"

definition regex_hits :: "rx \<Rightarrow> string \<Rightarrow> hit list" where
  "regex_hits r s = regex_iterator r False [] [] s"

definition last_suffix :: "hit list \<Rightarrow> string \<Rightarrow> string" where
  "last_suffix hs s = (if hs = [] then s else suffix (last hs))"

definition regex_replace :: "string \<Rightarrow> rx \<Rightarrow> string \<Rightarrow> string" where
  "regex_replace s r fmt = concat (map (\<lambda>h. gap h @ expand h fmt) (regex_hits r s)) @ last_suffix (regex_hits r s) s"

text \<open>\<open>std::regex_token_iterator\<close> with the submatch \<open>-1\<close>: the texts between the matches.\<close>

definition regex_between :: "rx \<Rightarrow> string \<Rightarrow> string list" where
  "regex_between r s = (let hs = regex_hits r s in
     map gap hs @ (if hs = [] then [s] else if suffix (last hs) = [] then [] else [suffix (last hs)]))"

section \<open>The constructor\<close>

definition regex_error :: "'a cxx" where
  "regex_error = Throws ''regex_error''"

lemma cbind_cong [fundef_cong]: "m = m' \<Longrightarrow> (\<And>a. m' = Val a \<Longrightarrow> k a = k' a) \<Longrightarrow> cbind m k = cbind m' k'"
  by (cases m') simp_all

subsection \<open>Escapes\<close>

datatype esc = EChar char | EClass bool cclass | EWord bool | EBack nat

definition hex_val :: "char \<Rightarrow> nat" where
  "hex_val c = (if is_digit c then digit_val c else if is_lower c then of_char c - 87 else of_char c - 55)"

fun read_hex :: "nat \<Rightarrow> nat \<Rightarrow> string \<Rightarrow> (char \<times> string) option" where
  "read_hex 0 v cs = Some (char_of v, cs)"
| "read_hex (Suc n) v (c # cs) = (if in_class CXdigit c then read_hex n (16 * v + hex_val c) cs else None)"
| "read_hex (Suc n) v [] = None"

fun read_num :: "nat \<Rightarrow> string \<Rightarrow> nat \<times> string" where
  "read_num v (c # cs) = (if is_digit c then read_num (10 * v + digit_val c) cs else (v, c # cs))"
| "read_num v [] = (v, [])"

definition control_escapes :: "(char \<times> char) list" where
  "control_escapes = [(CHR ''0'', CHR 0x00), (CHR ''f'', CHR 0x0C), (CHR ''n'', CHR 0x0A), (CHR ''r'', CHR 0x0D),
     (CHR ''t'', CHR 0x09), (CHR ''v'', CHR 0x0B)]"

definition class_escapes :: "(char \<times> bool \<times> cclass) list" where
  "class_escapes = [(CHR ''d'', False, CDigit), (CHR ''D'', True, CDigit), (CHR ''s'', False, CSpace), (CHR ''S'', True, CSpace),
     (CHR ''w'', False, CWord), (CHR ''W'', True, CWord)]"

text \<open>Behind a backslash; \<open>br\<close> inside a bracket, where \<^verbatim>\<open>\b\<close> is a backspace.\<close>

fun eat_escape :: "bool \<Rightarrow> string \<Rightarrow> (esc \<times> string) option" where
  "eat_escape br [] = None"
| "eat_escape br (c # cs) =
    (case map_of control_escapes c of Some x \<Rightarrow> Some (EChar x, cs) | None \<Rightarrow>
     case map_of class_escapes c of Some (neg, k) \<Rightarrow> Some (EClass neg k, cs) | None \<Rightarrow>
     if c = CHR ''b'' then Some (if br then EChar CHR 0x08 else EWord False, cs)
     else if c = CHR ''B'' then Some (EWord True, cs)
     else if c = CHR ''c'' then (case cs of
         x # ds \<Rightarrow> if is_lower x \<or> is_upper x then Some (EChar (char_of ((of_char x :: nat) mod 32)), ds) else None
       | [] \<Rightarrow> None)
     else if c = CHR ''x'' then map_option (apfst EChar) (read_hex 2 0 cs)
     else if c = CHR ''u'' then map_option (apfst EChar) (read_hex 4 0 cs)
     else if is_digit c then Some (apfst EBack (read_num 0 (c # cs)))
     else Some (EChar c, cs))"

lemma read_num_length: "length (snd (read_num v cs)) \<le> length cs"
  by (induction v cs rule: read_num.induct) auto

lemma read_hex_length: "read_hex n v cs = Some (x, ds) \<Longrightarrow> length ds \<le> length cs"
  by (induction n v cs rule: read_hex.induct) (auto split: if_splits)

lemma eat_escape_length: "eat_escape br cs = Some (x, ds) \<Longrightarrow> length ds < length cs"
proof (cases cs)
  case (Cons c es)
  assume "eat_escape br cs = Some (x, ds)"
  moreover have "length (snd (read_num 0 (c # es))) \<le> length es" if "is_digit c"
    using that read_num_length [of "digit_val c" es] by simp
  ultimately show ?thesis
    using Cons by (auto simp: apfst_def map_prod_def split: option.splits if_splits list.splits prod.splits dest: read_hex_length)
qed simp

subsection \<open>Brackets\<close>

datatype btok = TChar char | TDash | TEnd | TClass bool cclass

definition class_names :: "(string \<times> cclass) list" where
  "class_names = [(''d'', CDigit), (''w'', CWord), (''s'', CSpace), (''alnum'', CAlnum), (''alpha'', CAlpha), (''blank'', CBlank),
     (''cntrl'', CCntrl), (''digit'', CDigit), (''graph'', CGraph), (''lower'', CLower), (''print'', CPrint), (''punct'', CPunct),
     (''space'', CSpace), (''upper'', CUpper), (''xdigit'', CXdigit)]"

text \<open>A token inside a bracket. Collating symbols and equivalence classes are outside of the model and count as errors.\<close>

fun btoken :: "string \<Rightarrow> (btok \<times> string) option" where
  "btoken [] = None"
| "btoken (c # cs) =
    (if c = CHR ''-'' then Some (TDash, cs)
     else if c = CHR '']'' then Some (TEnd, cs)
     else if c = CHR 0x5C then (case eat_escape True cs of
         Some (EChar x, ds) \<Rightarrow> Some (TChar x, ds)
       | Some (EClass neg k, ds) \<Rightarrow> Some (TClass neg k, ds)
       | _ \<Rightarrow> None)
     else if c = CHR ''['' then (case cs of
         [] \<Rightarrow> None
       | x # ds \<Rightarrow>
           if x = CHR '':'' then
             (let name = takeWhile (\<lambda>c. c \<noteq> CHR '':'') ds; es = dropWhile (\<lambda>c. c \<noteq> CHR '':'') ds in
              if take 2 es = '':]'' then map_option (\<lambda>k. (TClass False k, drop 2 es)) (map_of class_names name) else None)
           else if x = CHR ''.'' \<or> x = CHR ''='' then None
           else Some (TChar c, cs))
     else Some (TChar c, cs))"

lemma btoken_length: "btoken cs = Some (x, ds) \<Longrightarrow> length ds < length cs"
proof (cases cs)
  case (Cons c es)
  assume tok: "btoken cs = Some (x, ds)"
  have "length (drop 2 (dropWhile P fs)) < Suc (Suc (length fs))" for P and fs :: string
    using length_dropWhile_le [of P fs] by simp
  with tok Cons show ?thesis
    by (auto simp: Let_def split: if_splits option.splits esc.splits list.splits dest!: eat_escape_length)
qed simp

text \<open>The character that may begin a range is kept apart: nothing, a character, or a class, which may not.\<close>

datatype blast = LNone | LChar char | LClass

fun flush :: "citem list \<Rightarrow> blast \<Rightarrow> citem list" where
  "flush items (LChar c) = CRange c c # items"
| "flush items _ = items"

definition make_range :: "char \<Rightarrow> char \<Rightarrow> citem list \<Rightarrow> citem list option" where
  "make_range l r items = (if schar r < schar l then None else Some (CRange l r # items))"

function bracket :: "citem list \<Rightarrow> blast \<Rightarrow> string \<Rightarrow> (citem list \<times> string) option" where
  "bracket items lst cs = (case btoken cs of
      None \<Rightarrow> None
    | Some (TEnd, ds) \<Rightarrow> Some (flush items lst, ds)
    | Some (TChar c, ds) \<Rightarrow> bracket (flush items lst) (LChar c) ds
    | Some (TClass neg k, ds) \<Rightarrow> bracket (CClass neg k # flush items lst) LClass ds
    | Some (TDash, ds) \<Rightarrow> (case btoken ds of
          None \<Rightarrow> None
        | Some (tk, es) \<Rightarrow>
            if tk = TEnd then Some (CRange CHR ''-'' CHR ''-'' # flush items lst, es)
            else (case lst of
                LClass \<Rightarrow> None
              | LNone \<Rightarrow> bracket items (LChar CHR ''-'') ds
              | LChar l \<Rightarrow> (case tk of
                    TChar r \<Rightarrow> (case make_range l r items of None \<Rightarrow> None | Some is \<Rightarrow> bracket is LNone es)
                  | TDash \<Rightarrow> (case make_range l CHR ''-'' items of None \<Rightarrow> None | Some is \<Rightarrow> bracket is LNone es)
                  | _ \<Rightarrow> None))))"
  by pat_completeness auto
termination
  by (relation "measure (\<lambda>(items, lst, cs). length cs)") (fastforce dest: btoken_length)+

declare bracket.simps [simp del]

lemma bracket_length: "bracket items lst cs = Some (is, ds) \<Longrightarrow> length ds < length cs"
proof (induction "length cs" arbitrary: items lst cs rule: less_induct)
  case less
  have IH: "length ds < length cs" if "length es < length cs" "bracket i l es = Some (is, ds)" for i l es
    using less.hyps [OF that] that(1) by simp
  from less.prems obtain tk es where tk: "btoken cs = Some (tk, es)" by (subst (asm) bracket.simps) (auto split: option.splits)
  note len = btoken_length [OF tk]
  show ?case
  proof (cases tk)
    case TDash
    with less.prems tk obtain tk2 fs where tk2: "btoken es = Some (tk2, fs)"
      by (subst (asm) bracket.simps) (auto split: option.splits)
    have "length fs < length cs" using btoken_length [OF tk2] len by simp
    with less.prems TDash tk tk2 len IH show ?thesis
      by (subst (asm) bracket.simps) (auto split: option.splits if_splits blast.splits btok.splits)
  qed (use less.prems tk len IH in \<open>subst (asm) bracket.simps; force\<close>)+
qed

subsection \<open>Quantifiers\<close>

text \<open>The bounds behind an atom: \<open>Val None\<close> when there is no quantifier.\<close>

definition interval :: "string \<Rightarrow> ((nat \<times> nat option) \<times> string) option" where
  "interval cs = (if cs = [] \<or> \<not> is_digit (hd cs) then None else
     (let (n, ds) = read_num 0 cs in case ds of
        [] \<Rightarrow> None
      | x # es \<Rightarrow>
          if x = CHR ''}'' then Some ((n, Some n), es)
          else if x \<noteq> CHR '','' \<or> es = [] then None
          else if hd es = CHR ''}'' then Some ((n, None), tl es)
          else if \<not> is_digit (hd es) then None
          else (let (m, fs) = read_num 0 es in
                if fs = [] \<or> hd fs \<noteq> CHR ''}'' \<or> m < n then None else Some ((n, Some m), tl fs))))"

fun quantifier :: "string \<Rightarrow> ((nat \<times> nat option) \<times> string) option cxx" where
  "quantifier [] = Val None"
| "quantifier (c # cs) =
    (if c = CHR ''*'' then Val (Some ((0, None), cs))
     else if c = CHR ''+'' then Val (Some ((1, None), cs))
     else if c = CHR ''?'' then Val (Some ((0, Some 1), cs))
     else if c = CHR ''{'' then (case interval cs of None \<Rightarrow> regex_error | Some q \<Rightarrow> Val (Some q))
     else Val None)"

lemma interval_length: "interval cs = Some (q, ds) \<Longrightarrow> length ds < length cs"
proof -
  assume q: "interval cs = Some (q, ds)"
  have num: "length es \<le> length fs" if "read_num v fs = (n, es)" for v fs n es
    using read_num_length [of v fs] that by simp
  from q show ?thesis
    by (auto simp: interval_def Let_def split: if_splits prod.splits list.splits dest!: num intro: le_less_trans [OF diff_le_self])
qed

lemma quantifier_length: "quantifier cs = Val (Some (q, ds)) \<Longrightarrow> length ds < length cs"
  by (cases cs) (auto simp: regex_error_def split: if_splits option.splits dest: interval_length)

function quantify :: "rx \<Rightarrow> string \<Rightarrow> (rx \<times> string) cxx" where
  "quantify r cs = cbind (quantifier cs) (\<lambda>q. case q of
      None \<Rightarrow> Val (r, cs)
    | Some ((n, m), ds) \<Rightarrow>
        if ds \<noteq> [] \<and> hd ds = CHR ''?'' then quantify (Rep n m False r) (tl ds) else quantify (Rep n m True r) ds)"
  by pat_completeness auto
termination
  by (relation "measure (\<lambda>(r, cs). length cs)") (auto dest!: quantifier_length)

declare quantify.simps [simp del]

lemma quantify_length: "quantify r cs = Val (q, ds) \<Longrightarrow> length ds \<le> length cs"
proof (induction r cs rule: quantify.induct)
  case (1 r cs)
  from 1(3) obtain k where k: "quantifier cs = Val k" by (subst (asm) quantify.simps) (auto simp: cbind_Val)
  show ?case
  proof (cases k)
    case None
    with k 1(3) show ?thesis by (subst (asm) quantify.simps) simp
  next
    case (Some x)
    then obtain n m es where x: "k = Some ((n, m), es)" by (cases x) auto
    with k have "length es < length cs" by (simp add: quantifier_length)
    with 1(1) [OF k x refl refl] 1(2) [OF k x refl refl] 1(3) k x show ?thesis
      by (subst (asm) (3) quantify.simps) (auto split: if_splits)
  qed
qed

subsection \<open>Patterns\<close>

text \<open>
  The pattern is read from left to right. \<open>seq\<close> has the terms of the alternative that is read, \<open>alts\<close> the alternatives in front of it,
  both in reverse, and each open parenthesis keeps what was read in front of it. \<open>n\<close> is the number of the next group. A
  reference to a group that is not closed yet is an error.
\<close>

datatype opener = OGroup nat | OPlain | OLook bool

type_synonym frame = "opener \<times> rx list \<times> rx list"

fun seq_rx :: "rx list \<Rightarrow> rx" where
  "seq_rx [] = Eps"
| "seq_rx (r # rs) = Cat r (seq_rx rs)"

fun alt_rx :: "rx \<Rightarrow> rx list \<Rightarrow> rx" where
  "alt_rx r [] = r"
| "alt_rx r (a # as) = alt_rx (Alt a r) as"

definition close :: "rx list \<Rightarrow> rx list \<Rightarrow> rx" where
  "close alts sq = alt_rx (seq_rx (rev sq)) alts"

definition open_paren :: "nat \<Rightarrow> string \<Rightarrow> (opener \<times> nat \<times> string) option" where
  "open_paren n cs =
    (if take 1 cs \<noteq> ''?'' then Some (OGroup n, Suc n, cs)
     else if take 2 cs = ''?:'' then Some (OPlain, n, drop 2 cs)
     else if take 2 cs = ''?='' then Some (OLook False, n, drop 2 cs)
     else if take 2 cs = ''?!'' then Some (OLook True, n, drop 2 cs)
     else None)"

lemma open_paren_length: "open_paren n cs = Some (p, m, ds) \<Longrightarrow> length ds \<le> length cs"
  by (auto simp: open_paren_def split: if_splits)

text \<open>An atom: one character, a class, a bracket or a reference. An assertion takes no quantifier.\<close>

datatype atom = Atom rx string | Assert rx string | Bad

fun read_atom :: "nat list \<Rightarrow> nat \<Rightarrow> string \<Rightarrow> atom" where
  "read_atom opn n [] = Bad"
| "read_atom opn n (c # cs) =
    (if c = CHR ''^'' then Assert Bol cs
     else if c = CHR ''$'' then Assert Eol cs
     else if c = CHR ''.'' then Atom Dot cs
     else if c \<in> set ''*+?{'' then Bad
     else if c = CHR 0x5C then (case eat_escape False cs of
         None \<Rightarrow> Bad
       | Some (EChar x, ds) \<Rightarrow> Atom (Chr x) ds
       | Some (EClass neg k, ds) \<Rightarrow> Atom (Bracket False [CClass neg k]) ds
       | Some (EWord neg, ds) \<Rightarrow> Assert (WordB neg) ds
       | Some (EBack k, ds) \<Rightarrow> if n \<le> k \<or> k \<in> set opn then Bad else Atom (BackRef k) ds)
     else if c = CHR ''['' then
       (let neg = (take 1 cs = ''^'') in
        case bracket [] LNone (if neg then drop 1 cs else cs) of
          None \<Rightarrow> Bad | Some (items, ds) \<Rightarrow> Atom (Bracket neg items) ds)
     else Atom (Chr c) cs)"

lemma read_atom_length:
  "read_atom opn n cs = Atom r ds \<Longrightarrow> length ds < length cs"
  "read_atom opn n cs = Assert r ds \<Longrightarrow> length ds < length cs"
  by (cases cs; force simp: Let_def split: if_splits option.splits esc.splits prod.splits dest: eat_escape_length bracket_length)+

definition opened :: "frame list \<Rightarrow> nat list" where
  "opened fr = concat (map (\<lambda>(p, _, _). case p of OGroup k \<Rightarrow> [k] | _ \<Rightarrow> []) fr)"

function pattern :: "frame list \<Rightarrow> rx list \<Rightarrow> rx list \<Rightarrow> nat \<Rightarrow> string \<Rightarrow> rx cxx" where
  "pattern fr alts sq n [] = (if fr = [] then Val (close alts sq) else regex_error)"
| "pattern fr alts sq n (c # cs) =
    (if c = CHR ''|'' then pattern fr (seq_rx (rev sq) # alts) [] n cs
     else if c = CHR ''('' then (case open_paren n cs of
         None \<Rightarrow> regex_error
       | Some (p, m, ds) \<Rightarrow> pattern ((p, alts, sq) # fr) [] [] m ds)
     else if c = CHR '')'' then (case fr of
         [] \<Rightarrow> regex_error
       | (OLook neg, alts', sq') # fr' \<Rightarrow> pattern fr' alts' (Look neg (close alts sq) # sq') n cs
       | (OGroup k, alts', sq') # fr' \<Rightarrow>
           cbind (quantify (Group k (close alts sq)) cs) (\<lambda>(q, ds). pattern fr' alts' (q # sq') n ds)
       | (OPlain, alts', sq') # fr' \<Rightarrow>
           cbind (quantify (close alts sq) cs) (\<lambda>(q, ds). pattern fr' alts' (q # sq') n ds))
     else (case read_atom (opened fr) n (c # cs) of
         Bad \<Rightarrow> regex_error
       | Assert r ds \<Rightarrow> pattern fr alts (r # sq) n ds
       | Atom r ds \<Rightarrow> cbind (quantify r ds) (\<lambda>(q, es). pattern fr alts (q # sq) n es)))"
  by pat_completeness auto
termination
  by (relation "measure (\<lambda>(fr, alts, sq, n, cs). length cs)")
    (fastforce dest: open_paren_length quantify_length read_atom_length)+

definition regex :: "string \<Rightarrow> rx cxx" where
  "regex cs = pattern [] [] [] 1 cs"

text \<open>The constructor returns or throws that exception.\<close>

definition regex_result :: "'a cxx \<Rightarrow> bool" where
  "regex_result m \<longleftrightarrow> (\<exists>a. m = Val a) \<or> m = regex_error"

lemma regex_result_simps [simp]: "regex_result (Val a)" "regex_result regex_error"
  by (simp_all add: regex_result_def)

lemma regex_result_cbind: "regex_result m \<Longrightarrow> (\<And>a. m = Val a \<Longrightarrow> regex_result (k a)) \<Longrightarrow> regex_result (cbind m k)"
  by (cases m) (auto simp: regex_result_def regex_error_def)

lemma quantifier_result: "regex_result (quantifier cs)"
  by (cases cs) (simp_all split: option.split)

lemma quantify_result: "regex_result (quantify r cs)"
proof (induction r cs rule: quantify.induct)
  case (1 r cs)
  then show ?case
    by (subst quantify.simps) (auto intro!: regex_result_cbind quantifier_result split: option.split prod.split)
qed

lemma pattern_result: "regex_result (pattern fr alts sq n cs)"
proof (induction "length cs" arbitrary: fr alts sq n cs rule: less_induct)
  case less
  show ?case
  proof (cases cs)
    case (Cons c ds)
    have IH: "regex_result (pattern fr' alts' sq' m es)" if "length es \<le> length ds" for fr' alts' sq' m es
      using that Cons by (intro less) simp
    have quantified: "regex_result (cbind (quantify r es) (\<lambda>(q, gs). pattern fr' alts' (q # sq') m gs))"
      if "length es \<le> length ds" for r es fr' alts' sq' m
      using that by (auto intro!: regex_result_cbind quantify_result IH dest: quantify_length)
    have atom: "regex_result (case read_atom (opened fr) n (c # ds) of
         Bad \<Rightarrow> regex_error
       | Assert r ds \<Rightarrow> pattern fr alts (r # sq) n ds
       | Atom r ds \<Rightarrow> cbind (quantify r ds) (\<lambda>(q, es). pattern fr alts (q # sq) n es))"
    proof (cases "read_atom (opened fr) n (c # ds)")
      case (Atom r es)
      from read_atom_length(1) [OF Atom] quantified [of es r] show ?thesis by (simp add: Atom del: read_atom.simps)
    next
      case (Assert r es)
      from read_atom_length(2) [OF Assert] IH [of es] show ?thesis by (simp add: Assert del: read_atom.simps)
    qed (simp del: read_atom.simps)
    have open_p: "regex_result (case open_paren n ds of None \<Rightarrow> regex_error | Some (p, m, ds) \<Rightarrow> pattern ((p, alts, sq) # fr) [] [] m ds)"
      by (auto split: option.split intro!: IH dest: open_paren_length)
    show ?thesis
      unfolding Cons pattern.simps if_distrib [of regex_result]
      using atom open_p by (auto intro!: IH quantified split: list.split prod.split opener.split simp del: read_atom.simps)
  qed simp
qed

lemma regex_returns: "regex_result (regex p)"
  by (simp add: regex_def pattern_result)

section \<open>The language of an expression\<close>

text \<open>
  Without assertions and references an expression is regular. The matches at a position are then exactly the words of its
  language that stand there, whatever was captured and whatever is preferred.
\<close>

fun powers :: "nat \<Rightarrow> string set \<Rightarrow> string set" where
  "powers 0 L = {[]}"
| "powers (Suc n) L = {u @ v | u v. u \<in> L \<and> v \<in> powers n L}"

definition within :: "nat option \<Rightarrow> nat \<Rightarrow> bool" where
  "within m k \<longleftrightarrow> (case m of None \<Rightarrow> True | Some j \<Rightarrow> k \<le> j)"

fun lang :: "rx \<Rightarrow> string set" where
  "lang Eps = {[]}"
| "lang Dot = {[c] | c. \<not> line_terminator c}"
| "lang (Chr c) = {[c]}"
| "lang (Bracket neg items) = {[c] | c. in_bracket neg items c}"
| "lang (Cat a b) = {u @ v | u v. u \<in> lang a \<and> v \<in> lang b}"
| "lang (Alt a b) = lang a \<union> lang b"
| "lang (Rep n m g a) = {w. \<exists>k. n \<le> k \<and> within m k \<and> w \<in> powers k (lang a)}"
| "lang (Group k a) = lang a"
| "lang _ = {}"

fun regular :: "rx \<Rightarrow> bool" where
  "regular (Cat a b) \<longleftrightarrow> regular a \<and> regular b"
| "regular (Alt a b) \<longleftrightarrow> regular a \<and> regular b"
| "regular (Rep n m g a) \<longleftrightarrow> within m n \<and> regular a"
| "regular (Group k a) \<longleftrightarrow> regular a"
| "regular Bol \<longleftrightarrow> False"
| "regular Eol \<longleftrightarrow> False"
| "regular (WordB neg) \<longleftrightarrow> False"
| "regular (Look neg a) \<longleftrightarrow> False"
| "regular (BackRef k) \<longleftrightarrow> False"
| "regular _ \<longleftrightarrow> True"

text \<open>\<open>follows L f\<close>: the texts behind the positions that \<open>f\<close> gives are those behind a word of \<open>L\<close>.\<close>

definition follows :: "string set \<Rightarrow> (pos \<Rightarrow> pos list) \<Rightarrow> bool" where
  "follows L f \<longleftrightarrow> (\<forall>s v. (\<exists>t \<in> set (f s). ahead t = v) \<longleftrightarrow> (\<exists>w \<in> L. ahead s = w @ v))"

lemma followsD: "follows L f \<Longrightarrow> t \<in> set (f s) \<Longrightarrow> \<exists>w \<in> L. ahead s = w @ ahead t"
  and followsE: "follows L f \<Longrightarrow> w \<in> L \<Longrightarrow> ahead s = w @ v \<Longrightarrow> \<exists>t \<in> set (f s). ahead t = v"
  by (auto simp: follows_def)

lemma followsI:
  assumes "\<And>s t. t \<in> set (f s) \<Longrightarrow> \<exists>w \<in> L. ahead s = w @ ahead t"
    and "\<And>s v w. w \<in> L \<Longrightarrow> ahead s = w @ v \<Longrightarrow> \<exists>t \<in> set (f s). ahead t = v"
  shows "follows L f"
  using assms by (auto simp: follows_def)

lemma follows_eat: "follows {[c] | c. P c} (eat P)"
  by (rule followsI) (auto simp: eat_def split: list.splits if_splits)

lemma follows_bind:
  assumes "follows L f" and "follows M g"
  shows "follows {u @ v | u v. u \<in> L \<and> v \<in> M} (\<lambda>s. bind_list (f s) g)"
proof (rule followsI)
  fix s t :: pos assume "t \<in> set (bind_list (f s) g)"
  then obtain x where "x \<in> set (f s)" "t \<in> set (g x)" by auto
  with assms obtain u v where "u \<in> L" "ahead s = u @ ahead x" "v \<in> M" "ahead x = v @ ahead t" by (meson followsD)
  then show "\<exists>w \<in> {u @ v | u v. u \<in> L \<and> v \<in> M}. ahead s = w @ ahead t" by (intro bexI [of _ "u @ v"]) auto
next
  fix s :: pos and v w assume "w \<in> {u @ v | u v. u \<in> L \<and> v \<in> M}" "ahead s = w @ v"
  then obtain x y where w: "x \<in> L" "y \<in> M" "ahead s = x @ (y @ v)" by auto
  then obtain t where "t \<in> set (f s)" "ahead t = y @ v" using followsE [OF assms(1)] by blast
  with followsE [OF assms(2) w(2), of t v] show "\<exists>t \<in> set (bind_list (f s) g). ahead t = v" by auto
qed

lemma follows_exactly: "follows L f \<Longrightarrow> follows (powers n L) (rep_exactly n f)"
proof (induction n)
  case 0
  show ?case by (rule followsI) simp_all
next
  case (Suc n)
  then show ?case using follows_bind [OF Suc.prems Suc.IH] by (simp add: fun_eq_iff cong: conj_cong)
qed

text \<open>A repetition that consumes nothing can be left out.\<close>

lemma powers_nonempty: "w \<in> powers k L \<Longrightarrow> \<exists>j \<le> k. w \<in> powers j (L - {[]})"
proof (induction k arbitrary: w)
  case (Suc k)
  then obtain u v where w: "w = u @ v" "u \<in> L" "v \<in> powers k L" by auto
  from Suc.IH [OF w(3)] obtain j where j: "j \<le> k" "v \<in> powers j (L - {[]})" by blast
  show ?case
  proof (cases "u = []")
    case True
    with w j show ?thesis by (intro exI [of _ j]) simp
  next
    case False
    with w j show ?thesis by (intro exI [of _ "Suc j"]) auto
  qed
qed simp

lemma powers_mono: "L \<subseteq> M \<Longrightarrow> powers k L \<subseteq> powers k M"
  by (induction k) auto

lemma powers_add: "powers (m + n) L = {u @ v | u v. u \<in> powers m L \<and> v \<in> powers n L}"
proof (induction m)
  case (Suc m)
  show ?case unfolding add_Suc powers.simps Suc by (auto, metis append.assoc, metis append.assoc)
qed simp

lemma follows_more:
  assumes "follows L f"
  shows "follows {w. \<exists>j. within k j \<and> w \<in> powers j (L - {[]})} (rep_more k greedy f)"
proof (rule followsI)
  fix s t :: pos assume "t \<in> set (rep_more k greedy f s)"
  then show "\<exists>w \<in> {w. \<exists>j. within k j \<and> w \<in> powers j (L - {[]})}. ahead s = w @ ahead t"
    using assms
  proof (induction k greedy f s rule: rep_more.induct)
    case (1 k greedy f s)
    show ?case
    proof (cases "t = s")
      case True
      have "within k 0" by (simp add: within_def split: option.split)
      with True show ?thesis by (intro bexI [of _ "[]"]) (auto intro: exI [of _ 0])
    next
      case False
      with 1(2) obtain u where u: "k \<noteq> Some 0" "u \<in> set (filter (advances s) (f s))"
        "t \<in> set (rep_more (map_option (\<lambda>n. n - 1) k) greedy f u)"
        by (subst (asm) rep_more.simps) (auto simp: Let_def split: if_splits)
      with 1(1) [OF u 1(3)] obtain w j where w: "within (map_option (\<lambda>n. n - 1) k) j" "w \<in> powers j (L - {[]})" "ahead u = w @ ahead t"
        by auto
      from u(2) followsD [OF 1(3), of u s] obtain x where x: "x \<in> L" "x \<noteq> []" "ahead s = x @ ahead u"
        by (auto simp: advances_def)
      from w(1) u(1) have "within k (Suc j)" by (cases k) (auto simp: within_def)
      moreover have "x @ w \<in> powers (Suc j) (L - {[]})" using w(2) x(1,2) by auto
      ultimately show ?thesis using w(3) x(3) by (intro bexI [of _ "x @ w"]) (auto simp del: powers.simps)
    qed
  qed
next
  fix s :: pos and v w assume "w \<in> {w. \<exists>j. within k j \<and> w \<in> powers j (L - {[]})}" "ahead s = w @ v"
  then obtain j where "within k j" "w \<in> powers j (L - {[]})" "ahead s = w @ v" by blast
  then show "\<exists>t \<in> set (rep_more k greedy f s). ahead t = v"
  proof (induction j arbitrary: k w s)
    case 0
    then show ?case by (intro bexI [of _ s]) (auto simp: rep_more.simps [of k] Let_def)
  next
    case (Suc j)
    then obtain x y where w: "w = x @ y" "x \<in> L" "x \<noteq> []" "y \<in> powers j (L - {[]})" by auto
    with Suc.prems obtain u where u: "u \<in> set (f s)" "ahead u = y @ v" using followsE [OF assms w(2), of s "y @ v"] by auto
    have k: "k \<noteq> Some 0" "within (map_option (\<lambda>n. n - 1) k) j" using Suc.prems(1) by (auto simp: within_def split: option.splits)
    from Suc.IH [OF k(2) w(4) u(2)] obtain t where "t \<in> set (rep_more (map_option (\<lambda>n. n - 1) k) greedy f u)" "ahead t = v" by blast
    moreover have "advances s u" using u w Suc.prems(3) by (simp add: advances_def)
    ultimately show ?case using u(1) k(1) by (intro bexI [of _ t]) (auto simp: rep_more.simps [of k] Let_def)
  qed
qed

lemma follows_rep:
  assumes "follows L f" and "within m n"
  shows "follows {w. \<exists>k. n \<le> k \<and> within m k \<and> w \<in> powers k L}
     (\<lambda>s. bind_list (rep_exactly n f s) (rep_more (map_option (\<lambda>m. m - n) m) greedy f))"
proof -
  let ?M = "{w. \<exists>j. within (map_option (\<lambda>m. m - n) m) j \<and> w \<in> powers j (L - {[]})}"
  have wi: "within (map_option (\<lambda>m. m - n) m) j \<longleftrightarrow> within m (n + j)" for j
    using assms(2) by (auto simp: within_def split: option.splits)
  have eq: "{u @ v | u v. u \<in> powers n L \<and> v \<in> ?M} = {w. \<exists>k. n \<le> k \<and> within m k \<and> w \<in> powers k L}" (is "?A = ?B")
  proof (intro equalityI subsetI)
    fix w assume "w \<in> ?A"
    then obtain u v j where "w = u @ v" "u \<in> powers n L" "within m (n + j)" "v \<in> powers j (L - {[]})" by (auto simp: wi)
    moreover then have "v \<in> powers j L" using powers_mono [of "L - {[]}" L j] by auto
    ultimately have "w \<in> powers (n + j) L" "within m (n + j)" by (auto simp: powers_add)
    then show "w \<in> ?B" by (intro CollectI exI [of _ "n + j"]) simp
  next
    fix w assume "w \<in> ?B"
    then obtain j where j: "within m (n + j)" "w \<in> powers (n + j) L" using le_Suc_ex by auto
    then obtain u v where "w = u @ v" "u \<in> powers n L" "v \<in> powers j L" by (auto simp: powers_add)
    moreover then obtain i where "i \<le> j" "v \<in> powers i (L - {[]})" using powers_nonempty by blast
    moreover then have "within m (n + i)" using j(1) by (auto simp: within_def split: option.splits)
    ultimately show "w \<in> ?A" by (auto simp: wi)
  qed
  show ?thesis unfolding eq [symmetric] by (rule follows_bind [OF follows_exactly [OF assms(1)] follows_more [OF assms(1)]])
qed

theorem matches_lang:
  assumes "regular r"
  shows "follows (lang r) (matches r)"
  using assms
proof (induction r)
  case (Cat a b)
  then show ?case using follows_bind [of "lang a" "matches a" "lang b" "matches b"] by (simp add: follows_def)
next
  case (Rep n m greedy a)
  then have "follows (lang a) (\<lambda>t. matches a (reset (groups a) t))" by (simp add: follows_def reset_def)
  from follows_rep [OF this] Rep.prems show ?case by (simp add: follows_def Let_def)
next
  case (Alt a b)
  then show ?case by (simp add: follows_def bex_Un)
next
  case (Chr c)
  show ?case using follows_eat [of "\<lambda>x. x = c"] by (simp add: follows_def)
next
  case (Group k a)
  then show ?case by (simp add: follows_def)
qed (use follows_eat in \<open>simp_all add: follows_def\<close>)

lemma match_here_lang:
  assumes "regular r"
  shows "match_here r False s = None \<longleftrightarrow> (\<forall>w v. ahead s = w @ v \<longrightarrow> w \<notin> lang r)"
proof -
  have "match_here r False s = None \<longleftrightarrow> matches r s = []"
    by (simp add: match_here_def split: list.split)
  also have "\<dots> \<longleftrightarrow> (\<forall>v. \<not> (\<exists>t \<in> set (matches r s). ahead t = v))"
    by (cases "matches r s") auto
  finally show ?thesis using matches_lang [OF assms] unfolding follows_def by auto
qed

theorem search_lang:
  assumes "regular r"
  shows "search r pre s = None \<longleftrightarrow> (\<forall>a w b. s = a @ w @ b \<longrightarrow> w \<notin> lang r)"
proof (induction s arbitrary: pre)
  case Nil
  then show ?case using match_here_lang [OF assms, of "\<lparr>passed = pre, ahead = [], caps = []\<rparr>"]
    by (subst search.simps) (auto split: option.split)
next
  case (Cons c s)
  have split: "(\<forall>a w b. c # s = a @ w @ b \<longrightarrow> w \<notin> L) \<longleftrightarrow>
      (\<forall>w b. c # s = w @ b \<longrightarrow> w \<notin> L) \<and> (\<forall>a w b. s = a @ w @ b \<longrightarrow> w \<notin> L)" for L
    by (auto simp: Cons_eq_append_conv) (metis append_Nil list.exhaust)+
  show ?case
    unfolding split Cons [of "c # pre", symmetric]
    using match_here_lang [OF assms, of "\<lparr>passed = pre, ahead = c # s, caps = []\<rparr>"]
    by (subst search.simps) (auto split: option.split)
qed

section \<open>Expressions that look at the text ahead only\<close>

text \<open>
  \<open>spans r h\<close>: the preferred match of \<open>r\<close> at a position has \<open>h s\<close> characters, at least one, and captures nothing. The matches of such
  an expression are found by one pass over the text.
\<close>

definition spans :: "rx \<Rightarrow> (string \<Rightarrow> nat) \<Rightarrow> bool" where
  "spans r h \<longleftrightarrow> (\<forall>pre s. h s \<le> length s \<and> match_here r False \<lparr>passed = pre, ahead = s, caps = []\<rparr>
     = (if h s = 0 then None else Some (skip (h s) \<lparr>passed = pre, ahead = s, caps = []\<rparr>)))"

function hits_by :: "(string \<Rightarrow> nat) \<Rightarrow> string \<Rightarrow> string \<Rightarrow> hit list" where
  "hits_by h g [] = []"
| "hits_by h g (c # cs) = (let n = h (c # cs) in
     if n = 0 then hits_by h (g @ [c]) cs
     else \<lparr>gap = g, mtext = take n (c # cs), mcaps = [], suffix = drop n (c # cs)\<rparr> # hits_by h [] (drop n (c # cs)))"
  by pat_completeness auto
termination
  by (relation "measure (\<lambda>(h, g, s). length s)") auto

lemma search_spans:
  assumes "spans r h"
  shows "search r pre s = (case s of [] \<Rightarrow> None | c # cs \<Rightarrow>
     if h s = 0 then search r (c # pre) cs
     else Some (\<lparr>passed = pre, ahead = s, caps = []\<rparr>, skip (h s) \<lparr>passed = pre, ahead = s, caps = []\<rparr>))"
proof -
  note here = assms [unfolded spans_def, rule_format]
  have "h [] = 0" using here [of "[]"] by simp
  with here show ?thesis by (subst search.simps) (auto simp: Let_def split: list.split)
qed

lemma iterator_spans:
  assumes "spans r h"
  shows "regex_iterator r prev g pre s = hits_by h g s"
proof (induction "length s" arbitrary: prev g pre s rule: less_induct)
  case less
  show ?case
  proof (cases s)
    case Nil
    then show ?thesis by (simp add: regex_iterator.simps search_spans [OF assms])
  next
    case (Cons c cs)
    have len: "h s \<le> length s" using assms by (simp add: spans_def)
    show ?thesis
    proof (cases "h s = 0")
      case True
      then have "search r pre s = search r (c # pre) cs" using Cons by (subst search_spans [OF assms]) simp
      moreover have "length (ahead u) \<le> length cs" if "search r (c # pre) cs = Some (u, t)" for u t
        using search_reaches [OF that] by simp
      ultimately have "regex_iterator r prev g pre s = regex_iterator r prev (g @ [c]) (c # pre) cs"
        using Cons by (auto simp: regex_iterator.simps Suc_diff_le split: option.split)
      also have "\<dots> = hits_by h (g @ [c]) cs" using Cons by (intro less) simp
      finally show ?thesis using Cons True by simp
    next
      case False
      let ?s = "\<lparr>passed = pre, ahead = s, caps = []\<rparr>"
      have adv: "advances ?s (skip (h s) ?s)" using False Cons by (simp add: advances_def skip_def)
      have "between ?s (skip (h s) ?s) = take (h s) s" using len by (simp add: between_def skip_def)
      moreover have "regex_iterator r True [] (passed (skip (h s) ?s)) (drop (h s) s) = hits_by h [] (drop (h s) s)"
        using False Cons by (intro less) simp
      moreover have "search r pre s = Some (?s, skip (h s) ?s)" using False Cons by (subst search_spans [OF assms]) simp
      ultimately show ?thesis
        using False Cons adv by (simp add: regex_iterator.simps next_match.simps hit_of_def skip_def Let_def)
    qed
  qed
qed

lemma hits_spans: "spans r h \<Longrightarrow> regex_hits r s = hits_by h [] s"
  by (simp add: regex_hits_def iterator_spans)

subsection \<open>Texts and runs\<close>

definition text_span :: "string \<Rightarrow> string \<Rightarrow> nat" where
  "text_span w s = (if take (length w) s = w then length w else 0)"

lemma matches_text: "matches (seq_rx (map Chr w)) s = eat_text w s"
proof (induction w arbitrary: s)
  case Nil
  show ?case by (simp add: eat_text_def skip_def)
next
  case (Cons c w)
  show ?case
  proof (cases "ahead s")
    case Nil
    then show ?thesis by (simp add: eat_def eat_text_def bind_list_def)
  next
    case (Cons x cs)
    with Cons.IH show ?thesis by (simp add: eat_def eat_text_def bind_list_def skip_def)
  qed
qed

lemma text_spanD: "text_span w s \<noteq> 0 \<Longrightarrow> w \<noteq> [] \<and> take (length w) s = w \<and> text_span w s = length w"
  by (auto simp: text_span_def split: if_splits)

lemma text_span_le: "text_span w s \<le> length s"
  by (auto simp: text_span_def) (metis length_take min.cobounded1)

lemma spans_text:
  assumes "w \<noteq> []"
  shows "spans (seq_rx (map Chr w)) (text_span w)"
  using assms text_span_le by (auto simp: spans_def match_here_def matches_text eat_text_def text_span_def)

lemma spans_alt:
  assumes "spans a h" and "spans b k"
  shows "spans (Alt a b) (\<lambda>s. if h s = 0 then k s else h s)"
proof -
  have "match_here (Alt a b) False s = (case match_here a False s of None \<Rightarrow> match_here b False s | Some t \<Rightarrow> Some t)" for s
    by (cases "matches a s") (simp_all add: match_here_def)
  with assms show ?thesis by (simp add: spans_def)
qed

lemma skip_skip: "skip m (skip n s) = skip (n + m) s"
  by (simp add: skip_def take_add) (simp add: add.commute)

lemma reset_nil [simp]: "reset [] s = s"
  by (simp add: reset_def)

lemma skip_zero [simp]: "skip 0 s = s"
  by (simp add: skip_def)

lemma eat_skip: "eat P s = (if ahead s \<noteq> [] \<and> P (hd (ahead s)) then [skip 1 s] else [])"
  by (simp add: eat_def skip_def split: list.split)

lemma rep_more_run:
  assumes "\<And>s. f s = eat P s"
  shows "\<exists>ts. rep_more None True f s = skip (length (takeWhile P (ahead s))) s # ts"
proof (induction "length (ahead s)" arbitrary: s rule: less_induct)
  case less
  show ?case
  proof (cases "ahead s \<noteq> [] \<and> P (hd (ahead s))")
    case True
    then obtain c cs where s: "ahead s = c # cs" "P c" by (cases "ahead s") auto
    have "advances s (skip 1 s)" "length (ahead (skip 1 s)) < length (ahead s)" using s by (simp_all add: advances_def skip_def)
    moreover then obtain ts where "rep_more None True f (skip 1 s) = skip (length (takeWhile P cs)) (skip 1 s) # ts"
      using less [of "skip 1 s"] s by (auto simp: skip_def)
    ultimately show ?thesis
      using s by (subst rep_more.simps) (simp add: assms eat_skip bind_list_def skip_skip Let_def)
  next
    case False
    then have "takeWhile P (ahead s) = []" by (cases "ahead s") auto
    with False show ?thesis by (subst rep_more.simps) (auto simp: assms eat_skip bind_list_def Let_def)
  qed
qed

lemma spans_run:
  "spans (seq_rx [Rep 1 None True (Bracket neg is)]) (\<lambda>s. length (takeWhile (in_bracket neg is) s))"
proof -
  let ?P = "in_bracket neg is" and ?r = "seq_rx [Rep 1 None True (Bracket neg is)]"
  have "match_here ?r False s = (if takeWhile ?P (ahead s) = [] then None else Some (skip (length (takeWhile ?P (ahead s))) s))" for s
  proof (cases "ahead s \<noteq> [] \<and> ?P (hd (ahead s))")
    case True
    then obtain c cs where s: "ahead s = c # cs" "?P c" by (cases "ahead s") auto
    moreover obtain ts where "rep_more None True (eat ?P) (skip 1 s) = skip (length (takeWhile ?P cs)) (skip 1 s) # ts"
      using rep_more_run [of "eat ?P" ?P "skip 1 s"] s by (auto simp: skip_def)
    ultimately show ?thesis
      by (simp add: match_here_def Let_def eat_skip [of _ s] bind_list_def skip_skip)
  next
    case False
    then have "takeWhile ?P (ahead s) = []" by (cases "ahead s") auto
    with False show ?thesis
      by (auto simp: match_here_def Let_def eat_skip [of _ s] bind_list_def)
  qed
  then show ?thesis by (simp add: spans_def length_takeWhile_le)
qed

section \<open>The texts between the matches\<close>

fun pieces :: "(string \<Rightarrow> nat) \<Rightarrow> string \<Rightarrow> string \<Rightarrow> string list" where
  "pieces h g [] = [g]"
| "pieces h g (c # cs) = (if h (c # cs) = 0 then pieces h (g @ [c]) cs else g # pieces h [] (drop (h (c # cs)) (c # cs)))"

lemma hits_pieces:
  "map gap (hits_by h g s) @ [if hits_by h g s = [] then g @ s else suffix (last (hits_by h g s))] = pieces h g s"
proof (induction h g s rule: hits_by.induct)
  case (2 h g c cs)
  then show ?case by (cases "h (c # cs) = 0") (auto simp: Let_def)
qed simp

lemma between_pieces:
  assumes "spans r h"
  shows "filter (\<lambda>t. t \<noteq> []) (regex_between r s) = filter (\<lambda>t. t \<noteq> []) (pieces h [] s)"
proof -
  let ?hs = "hits_by h [] s"
  have "filter (\<lambda>t. t \<noteq> []) (regex_between r s)
      = filter (\<lambda>t. t \<noteq> []) (map gap ?hs @ [if ?hs = [] then [] @ s else suffix (last ?hs)])"
    by (simp add: regex_between_def hits_spans [OF assms] Let_def)
  then show ?thesis unfolding hits_pieces .
qed

end
