(* ===== verification/Conf_Strings.thy ===== *)
theory Conf_Strings
  imports Std_Regex
begin

text \<open>
  The string helpers of \<^verbatim>\<open>conftool/commands/AbstractCommand.h\<close> and \<^verbatim>\<open>AbstractCommand.cpp\<close>: \<open>trim\<close>, \<open>tokenize\<close> with the regular
  expressions the sources use, \<open>string_join\<close>. For each of the three expressions \<open>tokenize\<close> is proved equal to a plain
  recursion that splits the text.
\<close>

section \<open>Trimming and splitting\<close>

definition ltrim :: "string \<Rightarrow> string" where
  "ltrim s = dropWhile is_space s"

definition rtrim :: "string \<Rightarrow> string" where
  "rtrim s = rev (dropWhile is_space (rev s))"

definition trim :: "string \<Rightarrow> string" where
  "trim s = ltrim (rtrim s)"

text \<open>The comment of a line: \<open>line.substr(0, line.find("#"))\<close>, behind a \<open>trim\<close>.\<close>

definition clean :: "string \<Rightarrow> string" where
  "clean line = takeWhile (\<lambda>c. c \<noteq> CHR ''#'') (trim line)"

text \<open>
  \<open>tokenize\<close> splits at the matches of a regular expression and drops empty tokens. The sources make three expressions: one
  equals sign, a run of white space, and \<^verbatim>\<open>==|!=\<close>. \<open>the_regex\<close> is the object that the constructor makes of a pattern; that it does for
  these three is \<open>token_patterns\<close>.
\<close>

definition drop_empty :: "string list \<Rightarrow> string list" where
  "drop_empty ts = filter (\<lambda>t. t \<noteq> []) ts"

definition tokenize :: "string \<Rightarrow> rx \<Rightarrow> string list" where
  "tokenize str re = drop_empty (regex_between re str)"

definition the_regex :: "string \<Rightarrow> rx" where
  "the_regex p = (case regex p of Val r \<Rightarrow> r | _ \<Rightarrow> Eps)"

definition tokenize_eq :: "string \<Rightarrow> string list" where
  "tokenize_eq s = tokenize s (the_regex ''='')"

definition tokenize_space :: "string \<Rightarrow> string list" where
  "tokenize_space s = tokenize s (the_regex [CHR 0x5C, CHR ''s'', CHR ''+''])"

definition tokenize_cond :: "string \<Rightarrow> string list" where
  "tokenize_cond s = tokenize s (the_regex ''==|!='')"

text \<open>\<open>string_join\<close> writes the delimiter behind every element, the last one included.\<close>

definition string_join :: "string list \<Rightarrow> string \<Rightarrow> string" where
  "string_join ts delim = concat (map (\<lambda>t. t @ delim) ts)"

text \<open>\<open>str.find(sub) != npos\<close>\<close>

fun contains :: "string \<Rightarrow> string \<Rightarrow> bool" where
  "contains sub [] = (sub = [])"
| "contains sub (c # cs) = (take (length sub) (c # cs) = sub \<or> contains sub cs)"

text \<open>
  \<open>string_format\<close> with the one conversion the sources use, \<^verbatim>\<open>%s\<close>: the argument up to its first NUL. A conversion
  without an argument is undefined.
\<close>

fun string_format :: "string \<Rightarrow> string list \<Rightarrow> string cxx" where
  "string_format (c # x # cs) as =
    (if c = CHR ''%'' \<and> x = CHR ''s'' then
       (case as of
         [] \<Rightarrow> Undef OutOfBounds
       | a # bs \<Rightarrow> cbind (string_format cs bs) (\<lambda>t. Val (takeWhile (\<lambda>c. c \<noteq> CHR 0x00) a @ t)))
     else cbind (string_format (x # cs) as) (\<lambda>t. Val (c # t)))"
| "string_format [c] as = Val [c]"
| "string_format [] as = Val []"

section \<open>Lemmas\<close>

subsection \<open>The three expressions\<close>

lemma token_patterns:
  "regex ''='' = Val (seq_rx (map Chr ''=''))"
  "regex [CHR 0x5C, CHR ''s'', CHR ''+''] = Val (seq_rx [Rep 1 None True (Bracket False [CClass False CSpace])])"
  "regex ''==|!='' = Val (Alt (seq_rx (map Chr ''=='')) (seq_rx (map Chr ''!='')))"
  by code_simp+

text \<open>Reference definitions: cutting at every character with a property, and at the two operators.\<close>

fun split_at :: "(char \<Rightarrow> bool) \<Rightarrow> string \<Rightarrow> string \<Rightarrow> string list" where
  "split_at P [] acc = [rev acc]"
| "split_at P (c # cs) acc = (if P c then rev acc # split_at P cs [] else split_at P cs (c # acc))"

fun split_cond :: "string \<Rightarrow> string \<Rightarrow> string list" where
  "split_cond (a # b # cs) acc =
     (if (a = CHR ''='' \<or> a = CHR ''!'') \<and> b = CHR ''='' then rev acc # split_cond cs []
      else split_cond (b # cs) (a # acc))"
| "split_cond [c] acc = [rev (c # acc)]"
| "split_cond [] acc = [rev acc]"


lemma pieces_char: "pieces (text_span [x]) g s = split_at (\<lambda>c. c = x) s (rev g)"
  by (induction "text_span [x]" g s rule: pieces.induct) (auto simp: text_span_def)

lemma drop_empty_run: "drop_empty (split_at P (dropWhile P s) []) = drop_empty (split_at P s [])"
  by (induction s) (auto simp: drop_empty_def)

lemma pieces_run: "drop_empty (pieces (\<lambda>s. length (takeWhile P s)) g s) = drop_empty (split_at P s (rev g))"
proof (induction "\<lambda>s. length (takeWhile P s)" g s rule: pieces.induct)
  case (2 g c cs)
  show ?case
  proof (cases "P c")
    case True
    then have "drop_empty (pieces (\<lambda>s. length (takeWhile P s)) [] (dropWhile P cs)) = drop_empty (split_at P cs [])"
      using 2(2) drop_empty_run [of P cs] by (simp add: dropWhile_eq_drop)
    with True show ?thesis by (simp add: drop_empty_def dropWhile_eq_drop)
  qed (use 2(1) in simp)
qed simp

lemma pieces_cond:
  "pieces (\<lambda>s. if text_span ''=='' s = 0 then text_span ''!='' s else text_span ''=='' s) g s = split_cond s (rev g)"
    (is "pieces ?h g s = _")
proof (induction s "rev g" arbitrary: g rule: split_cond.induct)
  case (1 a b cs)
  have "?h (a # b # cs) = (if (a = CHR ''='' \<or> a = CHR ''!'') \<and> b = CHR ''='' then 2 else 0)" by (auto simp: text_span_def)
  with 1 show ?case by (auto simp del: text_span_def)
qed (auto simp: text_span_def)

text \<open>The tokens are those of the reference definitions.\<close>

lemma tokenize_eq_split: "tokenize_eq s = drop_empty (split_at (\<lambda>c. c = CHR ''='') s [])"
proof -
  have "the_regex ''='' = seq_rx (map Chr ''='')" by (simp add: the_regex_def token_patterns(1) del: seq_rx.simps list.map)
  then show ?thesis
    using between_pieces [OF spans_text [of "''=''"], of s] pieces_char [of "CHR ''=''" "[]" s]
    by (simp add: tokenize_eq_def tokenize_def drop_empty_def)
qed

lemma tokenize_space_split: "tokenize_space s = drop_empty (split_at is_space s [])"
proof -
  have "in_bracket False [CClass False CSpace] = is_space" by (simp add: fun_eq_iff in_bracket_def)
  moreover have "the_regex [CHR 0x5C, CHR ''s'', CHR ''+''] = seq_rx [Rep 1 None True (Bracket False [CClass False CSpace])]"
    by (simp add: the_regex_def token_patterns(2) del: seq_rx.simps)
  ultimately show ?thesis
    using between_pieces [OF spans_run [of False "[CClass False CSpace]"], of s] pieces_run [of is_space "[]" s]
    by (simp add: tokenize_space_def tokenize_def drop_empty_def)
qed

lemma tokenize_cond_split: "tokenize_cond s = drop_empty (split_cond s [])"
proof -
  have "the_regex ''==|!='' = Alt (seq_rx (map Chr ''=='')) (seq_rx (map Chr ''!=''))"
    by (simp add: the_regex_def token_patterns(3) del: seq_rx.simps list.map)
  then show ?thesis
    using between_pieces [OF spans_alt [OF spans_text [of "''==''"] spans_text [of "''!=''"]], of s] pieces_cond [of "[]" s]
    by (simp add: tokenize_cond_def tokenize_def drop_empty_def)
qed

lemma rtrim_append_last: "\<not> is_space c \<Longrightarrow> rtrim (s @ [c]) = s @ [c]"
  by (simp add: rtrim_def)

lemma rtrim_id: "s = [] \<or> \<not> is_space (last s) \<Longrightarrow> rtrim s = s"
  by (cases s rule: rev_cases) (auto simp: rtrim_def)

lemma trim_id: "s = [] \<or> \<not> is_space (hd s) \<and> \<not> is_space (last s) \<Longrightarrow> trim s = s"
  by (cases s) (auto simp: trim_def rtrim_id ltrim_def)

lemma clean_id:
  assumes "s \<noteq> []" and "\<not> is_space (hd s)" and "\<not> is_space (last s)" and "CHR ''#'' \<notin> set s"
  shows "clean s = s"
  using assms by (auto simp: clean_def trim_id takeWhile_eq_all_conv)

lemma split_at_none: "\<forall>c \<in> set s. \<not> P c \<Longrightarrow> split_at P s acc = [rev acc @ s]"
  by (induction s arbitrary: acc) auto

lemma split_at_one: "\<forall>c \<in> set s. \<not> P c \<Longrightarrow> P x \<Longrightarrow> split_at P (s @ x # t) acc = (rev acc @ s) # split_at P t []"
  by (induction s arbitrary: acc) auto

lemma tokenize_eq_pair:
  assumes "p \<noteq> []" and "CHR ''='' \<notin> set p" and "CHR ''='' \<notin> set v"
  shows "tokenize_eq (p @ ''='' @ v) = (if v = [] then [p] else [p, v])"
proof -
  have "split_at (\<lambda>c. c = CHR ''='') (p @ CHR ''='' # v) [] = p # split_at (\<lambda>c. c = CHR ''='') v []"
    using assms(2) split_at_one [of p "\<lambda>c. c = CHR ''=''" "CHR ''=''" v "[]"] by auto
  moreover have "split_at (\<lambda>c. c = CHR ''='') v [] = [v]"
    using assms(3) split_at_none [of v "\<lambda>c. c = CHR ''=''" "[]"] by auto
  ultimately show ?thesis using assms(1) by (simp add: tokenize_eq_split drop_empty_def)
qed

lemma tokenize_eq_single: "s \<noteq> [] \<Longrightarrow> CHR ''='' \<notin> set s \<Longrightarrow> tokenize_eq s = [s]"
proof -
  assume "s \<noteq> []" and no_eq: "CHR ''='' \<notin> set s"
  from no_eq have "split_at (\<lambda>c. c = CHR ''='') s [] = [s]"
    using split_at_none [of s "\<lambda>c. c = CHR ''=''" "[]"] by auto
  with \<open>s \<noteq> []\<close> show ?thesis by (simp add: tokenize_eq_split drop_empty_def)
qed

end
