(* ===== verification/Conf_Vars.thy ===== *)
theory Conf_Vars
  imports Conf_Strings "HOL-Library.List_Lexorder" "HOL-Library.Char_ord"
begin

text \<open>
  The variables of the configuration tool and their substitution: \<open>variable_storage\<close>, and the class
  \<open>PlaceholderManager\<close> of \<^verbatim>\<open>conftool/config/CellframeConfigFile.cpp\<close>. The manager makes a regular expression of
  the name of each variable, which throws when the name is not part of one, and replaces one variable after the other; the
  theorem says when that is the same as replacing all references of a text at once.
\<close>

section \<open>Placeholders\<close>

text \<open>\<open>escape\<close> puts a backslash in front of every brace, one kind of brace after the other.\<close>

definition escape :: "string \<Rightarrow> string" where
  "escape str =
    (let res = regex_replace str (the_regex [CHR 0x5C, CHR ''{'']) [CHR 0x5C, CHR ''{''] in
     regex_replace res (the_regex [CHR 0x5C, CHR ''}'']) [CHR 0x5C, CHR ''}''])"

text \<open>
  \<open>Placeholder<>\<close>: a pattern and a resolver without arguments. \<open>resolve\<close> throws \<open>ArgCountError\<close> when it is
  given arguments.
\<close>

record placeholder =
  getPattern :: string
  resolver :: string

definition resolve :: "placeholder \<Rightarrow> string list \<Rightarrow> string cxx" where
  "resolve ph args = (if length args \<noteq> 0 then Throws ''Wrong number of arguments provided'' else Val (resolver ph))"

text \<open>A \<open>std::map\<close> with string keys: its entries in the order of the keys; \<open>m[k] = v\<close> inserts or replaces.\<close>

fun map_put :: "string \<Rightarrow> 'v \<Rightarrow> (string \<times> 'v) list \<Rightarrow> (string \<times> 'v) list" where
  "map_put k v [] = [(k, v)]"
| "map_put k v ((k', v') # m) =
     (if k < k' then (k, v) # (k', v') # m else if k = k' then (k, v) # m else (k', v') # map_put k v m)"

type_synonym placeholder_manager = "(string \<times> placeholder) list"

definition addPlaceholder :: "placeholder \<Rightarrow> placeholder_manager \<Rightarrow> placeholder_manager" where
  "addPlaceholder ph pman = map_put (getPattern ph) ph pman"

text \<open>
  The regular expression is made outside of the \<open>try\<close>: a pattern that is not well formed throws. A placeholder whose arguments do
  not fit leaves the text as it is: that error is caught.
\<close>

definition replaceEachPh :: "(string \<times> string list) list \<Rightarrow> string \<Rightarrow> placeholder \<Rightarrow> string cxx" where
  "replaceEachPh args input ph =
     cbind (regex (escape (getPattern ph))) (\<lambda>re.
     let vArgs = (case map_of args (getPattern ph) of Some xs \<Rightarrow> xs | None \<Rightarrow> []) in
     case resolve ph vArgs of
       Val fmt \<Rightarrow> Val (regex_replace input re fmt)
     | _ \<Rightarrow> Val input)"

definition replacePlaceholders :: "placeholder_manager \<Rightarrow> string \<Rightarrow> (string \<times> string list) list \<Rightarrow> string cxx" where
  "replacePlaceholders pman input args = foldl (\<lambda>m (_, ph). cbind m (\<lambda>t. replaceEachPh args t ph)) (Val input) pman"

section \<open>Variables\<close>

type_synonym vars = "(string \<times> string) list"

definition var_pattern :: "string \<Rightarrow> string" where
  "var_pattern n = CHR 0x5C # ''${'' @ n @ ''}''"

definition substitute_variables :: "vars \<Rightarrow> string \<Rightarrow> string cxx" where
  "substitute_variables vs s = replacePlaceholders
     (foldl (\<lambda>pman (n, v). addPlaceholder \<lparr>getPattern = var_pattern n, resolver = v\<rparr> pman) [] vs) s []"

text \<open>\<open>variable_storage[n] = v\<close> and its lookup; the storage is a \<open>std::map\<close>, with each name once and in order.\<close>

definition set_var :: "vars \<Rightarrow> string \<Rightarrow> string \<Rightarrow> vars" where
  "set_var vs n v = map_put n v vs"

definition get_var :: "vars \<Rightarrow> string \<Rightarrow> string" where
  "get_var vs n = (case map_of vs n of None \<Rightarrow> [] | Some v \<Rightarrow> v)"

definition vars_ok :: "vars \<Rightarrow> bool" where
  "vars_ok vs \<longleftrightarrow> sorted_wrt (<) (map fst vs)"

section \<open>Lemmas\<close>

lemma map_put_lookup: "map_of (map_put k v m) = (map_of m)(k \<mapsto> v)"
  by (induction k v m rule: map_put.induct) (auto simp: fun_eq_iff)

lemma map_put_keys: "fst ` set (map_put k v m) = insert k (fst ` set m)"
  by (induction k v m rule: map_put.induct) auto

lemma map_put_sorted: "sorted_wrt (<) (map fst m) \<Longrightarrow> sorted_wrt (<) (map fst (map_put k v m))"
proof (induction k v m rule: map_put.induct)
  case (2 k v k' v' m)
  then show ?case using map_put_keys [of k v m] by fastforce
qed simp

lemma set_var_get: "get_var (set_var vs n v) k = (if k = n then v else get_var vs k)"
  by (simp add: get_var_def set_var_def map_put_lookup)

lemma set_var_ok: "vars_ok vs \<Longrightarrow> vars_ok (set_var vs n v)"
  by (simp add: vars_ok_def set_var_def map_put_sorted)

lemma vars_ok_distinct: "vars_ok vs \<Longrightarrow> distinct (map fst vs)"
  by (simp add: vars_ok_def strict_sorted_iff)

section \<open>Replacing a text\<close>

lemma expand_no_dollar: "CHR ''$'' \<notin> set fmt \<Longrightarrow> expand h fmt = fmt"
  by (induction h fmt rule: expand.induct) (auto simp: Let_def)

text \<open>
  \<open>regex_replace\<close> for an expression that is one text, as one pass from left to right. \<open>acc\<close> is the text since the last match, in
  reverse.
\<close>

function replace_all :: "string \<Rightarrow> string \<Rightarrow> string \<Rightarrow> string \<Rightarrow> string" where
  "replace_all lit fmt acc [] = rev acc"
| "replace_all lit fmt acc (c # cs) =
     (if lit \<noteq> [] \<and> take (length lit) (c # cs) = lit
      then rev acc @ expand \<lparr>gap = rev acc, mtext = lit, mcaps = [], suffix = drop (length lit) (c # cs)\<rparr> fmt
           @ replace_all lit fmt [] (drop (length lit) (c # cs))
      else replace_all lit fmt (c # acc) cs)"
  by pat_completeness auto
termination
  by (relation "measure (\<lambda>(lit, fmt, acc, s). length s)") auto

lemma replace_hits:
  assumes "lit \<noteq> []"
  shows "concat (map (\<lambda>h. gap h @ expand h fmt) (hits_by (text_span lit) (rev acc) s))
     @ (if hits_by (text_span lit) (rev acc) s = [] then rev acc @ s else suffix (last (hits_by (text_span lit) (rev acc) s)))
     = replace_all lit fmt acc s"
  using assms
proof (induction lit fmt acc s rule: replace_all.induct)
  case (2 lit fmt acc c cs)
  show ?case
  proof (cases "take (length lit) (c # cs) = lit")
    case True
    then have n: "text_span lit (c # cs) = length lit" by (simp add: text_span_def)
    with True 2 show ?thesis by (auto simp: Let_def split: if_splits)
  next
    case False
    then have "text_span lit (c # cs) = 0" by (simp add: text_span_def)
    with False 2 show ?thesis by (auto simp: Let_def split: if_splits)
  qed
qed simp

lemma replace_text:
  assumes "lit \<noteq> []"
  shows "regex_replace s (seq_rx (map Chr lit)) fmt = replace_all lit fmt [] s"
  using replace_hits [OF assms, of fmt "[]" s]
  by (auto simp: regex_replace_def last_suffix_def hits_spans [OF spans_text [OF assms]] split: if_splits)

lemma replace_char:
  "CHR ''$'' \<notin> set fmt \<Longrightarrow> replace_all [x] fmt acc s = rev acc @ concat (map (\<lambda>c. if c = x then fmt else [c]) s)"
  by (induction s arbitrary: acc) (auto simp: expand_no_dollar)

lemma brace_patterns:
  "regex [CHR 0x5C, CHR ''{''] = Val (seq_rx (map Chr ''{''))" "regex [CHR 0x5C, CHR ''}''] = Val (seq_rx (map Chr ''}''))"
  by code_simp+

lemma escape_map: "escape s = concat (map (\<lambda>c. if c = CHR ''{'' \<or> c = CHR ''}'' then [CHR 0x5C, c] else [c]) s)"
proof -
  have "the_regex [CHR 0x5C, CHR ''{''] = seq_rx (map Chr ''{'')" "the_regex [CHR 0x5C, CHR ''}''] = seq_rx (map Chr ''}'')"
    by (simp_all add: the_regex_def brace_patterns del: seq_rx.simps list.map)
  then have "escape s = replace_all ''}'' [CHR 0x5C, CHR ''}''] [] (replace_all ''{'' [CHR 0x5C, CHR ''{''] [] s)"
    by (simp add: escape_def replace_text Let_def del: seq_rx.simps list.map)
  also have "\<dots> = concat (map (\<lambda>c. if c = CHR ''{'' \<or> c = CHR ''}'' then [CHR 0x5C, c] else [c]) s)"
    by (simp add: replace_char, induction s) auto
  finally show ?thesis .
qed

section \<open>The expression of a name\<close>

text \<open>A name without a character that is special in a regular expression.\<close>

definition plain_name :: "string \<Rightarrow> bool" where
  "plain_name n \<longleftrightarrow> set n \<inter> ({CHR ''$'', CHR ''{'', CHR ''}'', CHR 0x5C} \<union> set ''^.*+?()[]|'') = {}"

abbreviation ref_text :: "string \<Rightarrow> string" where
  "ref_text n \<equiv> ''${'' @ n @ ''}''"

abbreviation quantifies :: "string \<Rightarrow> bool" where
  "quantifies cs \<equiv> cs \<noteq> [] \<and> hd cs \<in> set ''*+?{''"

lemma quantify_none: "\<not> quantifies cs \<Longrightarrow> quantify r cs = Val (r, cs)"
  by (cases cs) (simp_all add: quantify.simps)

lemma pattern_char:
  assumes "c \<notin> {CHR ''$'', CHR ''{'', CHR 0x5C} \<union> set ''^.*+?()[|''" and "\<not> quantifies cs"
  shows "pattern fr alts sq n (c # cs) = pattern fr alts (Chr c # sq) n cs"
  using assms by (simp add: quantify_none)

lemma pattern_escaped:
  assumes "c \<in> set ''${}''" and "\<not> quantifies cs"
  shows "pattern fr alts sq n (CHR 0x5C # c # cs) = pattern fr alts (Chr c # sq) n cs"
proof -
  from assms(1) have "c = CHR ''$'' \<or> c = CHR ''{'' \<or> c = CHR ''}''" by simp
  then have "eat_escape False (c # cs) = Some (EChar c, cs)"
    by (elim disjE) (simp_all add: control_escapes_def class_escapes_def is_digit_def)
  then have "read_atom (opened fr) n (CHR 0x5C # c # cs) = Atom (Chr c) cs" by (simp del: eat_escape.simps)
  with assms(2) show ?thesis by (simp add: quantify_none del: read_atom.simps)
qed

lemma plain_hd: "plain_name (c # n) \<Longrightarrow> c \<notin> {CHR ''$'', CHR ''{'', CHR ''}'', CHR 0x5C} \<union> set ''^.*+?()[]|''"
  by (auto simp: plain_name_def)

lemma pattern_plain:
  "plain_name n \<Longrightarrow> \<not> quantifies r \<Longrightarrow> pattern fr alts sq k (n @ r) = pattern fr alts (rev (map Chr n) @ sq) k r"
proof (induction n arbitrary: sq)
  case (Cons c n)
  have n: "plain_name n" using Cons.prems(1) by (simp add: plain_name_def)
  have "\<not> quantifies (n @ r)" using plain_hd n Cons.prems(2) by (cases n) auto
  with Cons.IH [OF n Cons.prems(2)] plain_hd [OF Cons.prems(1)] show ?case by (simp add: pattern_char del: pattern.simps)
qed simp

lemma escape_plain:
  assumes "plain_name n" and "CHR ''{'' \<notin> set x \<and> CHR ''}'' \<notin> set x"
  shows "escape (var_pattern (n @ x)) = CHR 0x5C # CHR ''$'' # CHR 0x5C # CHR ''{'' # n @ x @ [CHR 0x5C, CHR ''}'']"
proof -
  have "concat (map (\<lambda>c. if c = CHR ''{'' \<or> c = CHR ''}'' then [CHR 0x5C, c] else [c]) m) = m" if "set m \<subseteq> set n \<union> set x" for m
    using that assms by (induction m) (auto simp: plain_name_def)
  then show ?thesis by (simp add: escape_map var_pattern_def)
qed

lemma pattern_ref:
  assumes "plain_name n" and "CHR ''{'' \<notin> set x \<and> CHR ''}'' \<notin> set x" and "\<not> quantifies (x @ [CHR 0x5C, CHR ''}''])"
  shows "regex (escape (var_pattern (n @ x)))
     = pattern [] [] (rev (map Chr (''${'' @ n))) 1 (x @ [CHR 0x5C, CHR ''}''])"
proof -
  have "\<not> quantifies (n @ x @ [CHR 0x5C, CHR ''}''])" using plain_hd assms(1,3) by (cases n) auto
  then show ?thesis
    unfolding escape_plain [OF assms(1,2)] regex_def
    by (simp add: pattern_escaped pattern_plain [OF assms(1,3)] del: pattern.simps)
qed

lemma ref_regex:
  assumes "plain_name n"
  shows "regex (escape (var_pattern n)) = Val (seq_rx (map Chr (ref_text n)))"
  using pattern_ref [OF assms, of "[]"] pattern_escaped [of "CHR ''}''" "[]" "[]" "[]"]
  by (simp add: close_def del: pattern.simps(2))

text \<open>A text without a dollar sign has no reference, so nothing is replaced in it.\<close>

lemma replace_all_no_dollar:
  "CHR ''$'' \<notin> set s \<Longrightarrow> replace_all (CHR ''$'' # l) v acc s = rev acc @ s"
proof (induction s arbitrary: acc)
  case (Cons c cs)
  then have "c \<noteq> CHR ''$''" by auto
  with Cons show ?case by simp
qed simp

lemma replace_all_skip:
  assumes "CHR ''$'' \<notin> set t"
  shows "replace_all (CHR ''$'' # l) v acc (t @ r) = replace_all (CHR ''$'' # l) v (rev t @ acc) r"
  using assms by (induction t arbitrary: acc) auto

section \<open>The manager\<close>

definition var_entry :: "string \<times> string \<Rightarrow> string \<times> placeholder" where
  "var_entry = (\<lambda>(n, v). (var_pattern n, \<lparr>getPattern = var_pattern n, resolver = v\<rparr>))"

text \<open>The manager as the list of its entries: those of the variables, in some order.\<close>

lemma map_put_entry:
  assumes "n \<notin> fst ` set xs" and "distinct (map fst xs)"
  shows "\<exists>ys. map_put (var_pattern n) \<lparr>getPattern = var_pattern n, resolver = v\<rparr> (map var_entry xs) = map var_entry ys
     \<and> set ys = insert (n, v) (set xs) \<and> distinct (map fst ys)"
  using assms
proof (induction xs)
  case Nil
  show ?case by (rule exI [of _ "[(n, v)]"]) (simp add: var_entry_def)
next
  case (Cons x xs)
  obtain m w where x: "x = (m, w)" by fastforce
  obtain ys where ys: "map_put (var_pattern n) \<lparr>getPattern = var_pattern n, resolver = v\<rparr> (map var_entry xs) = map var_entry ys"
    "set ys = insert (n, v) (set xs)" "distinct (map fst ys)"
    using Cons by auto
  have "m \<notin> fst ` set ys" "m \<noteq> n" using Cons.prems x ys(2) by auto
  show ?case
  proof (cases "var_pattern n < var_pattern m")
    case True
    then show ?thesis
      using Cons.prems x by (intro exI [of _ "(n, v) # x # xs"]) (simp add: var_entry_def)
  next
    case False
    moreover from \<open>m \<noteq> n\<close> have "var_pattern n \<noteq> var_pattern m" by (simp add: var_pattern_def)
    ultimately show ?thesis
      using ys x \<open>m \<notin> fst ` set ys\<close> by (intro exI [of _ "x # ys"]) (auto simp: var_entry_def)
  qed
qed

lemma manager_entries:
  assumes "distinct (map fst vs)"
  shows "\<exists>ys. foldl (\<lambda>pman (n, v). addPlaceholder \<lparr>getPattern = var_pattern n, resolver = v\<rparr> pman) [] vs = map var_entry ys
     \<and> set ys = set vs \<and> distinct (map fst ys)"
  using assms
proof (induction vs rule: rev_induct)
  case (snoc x vs)
  obtain n v where x: "x = (n, v)" by fastforce
  obtain ys where ys: "foldl (\<lambda>pman (n, v). addPlaceholder \<lparr>getPattern = var_pattern n, resolver = v\<rparr> pman) [] vs = map var_entry ys"
    "set ys = set vs" "distinct (map fst ys)"
    using snoc by auto
  have "n \<notin> fst ` set ys" using snoc.prems x ys(2) by simp
  from map_put_entry [OF this ys(3), of v] ys x show ?case by (auto simp: addPlaceholder_def)
qed simp

lemma replaceEachPh_entry:
  "plain_name n \<Longrightarrow> replaceEachPh [] t (snd (var_entry (n, v))) = Val (replace_all (ref_text n) v [] t)"
  by (simp add: replaceEachPh_def var_entry_def resolve_def ref_regex replace_text del: seq_rx.simps list.map)

lemma replace_entries:
  assumes "\<forall>(n, v) \<in> set xs. plain_name n"
  shows "foldl (\<lambda>m (_, ph). cbind m (\<lambda>t. replaceEachPh [] t ph)) (Val s) (map var_entry xs)
     = Val (foldl (\<lambda>t (n, v). replace_all (ref_text n) v [] t) s xs)"
  using assms by (induction xs arbitrary: s) (auto simp: case_prod_beta replaceEachPh_entry)

lemma substitute_entries:
  assumes "vars_ok vs" and "\<forall>(n, v) \<in> set vs. plain_name n"
  shows "\<exists>ys. (\<forall>s. substitute_variables vs s = Val (foldl (\<lambda>t (n, v). replace_all (ref_text n) v [] t) s ys))
     \<and> set ys = set vs \<and> distinct (map fst ys)"
proof -
  obtain ys where ys: "foldl (\<lambda>pman (n, v). addPlaceholder \<lparr>getPattern = var_pattern n, resolver = v\<rparr> pman) [] vs = map var_entry ys"
    "set ys = set vs" "distinct (map fst ys)"
    using manager_entries [OF vars_ok_distinct [OF assms(1)]] by blast
  moreover have "\<forall>(n, v) \<in> set ys. plain_name n" using assms(2) ys(2) by simp
  ultimately show ?thesis by (auto simp: substitute_variables_def replacePlaceholders_def replace_entries)
qed

lemma substitute_no_dollar:
  assumes "vars_ok vs" and "\<forall>(n, v) \<in> set vs. plain_name n" and "CHR ''$'' \<notin> set s"
  shows "substitute_variables vs s = Val s"
proof -
  have "foldl (\<lambda>t (n, v). replace_all (ref_text n) v [] t) s ys = s" for ys
    using assms(3) by (induction ys) (auto simp: replace_all_no_dollar)
  then show ?thesis using substitute_entries [OF assms(1,2)] by auto
qed

text \<open>A substitution throws exactly when the name of some variable, whether the text refers to it or not, is not a well-formed pattern.\<close>

definition bad_name :: "string \<Rightarrow> bool" where
  "bad_name n \<longleftrightarrow> regex (escape (var_pattern n)) = regex_error"

lemma plain_name_ok: "plain_name n \<Longrightarrow> \<not> bad_name n"
  by (simp add: bad_name_def ref_regex regex_error_def)

text \<open>An open parenthesis is enough.\<close>

lemma open_paren_bad: "plain_name n \<Longrightarrow> bad_name (n @ ''('')"
  using pattern_ref [of n "''(''"] pattern_escaped [of "CHR ''}''" "[]"]
  by (simp add: bad_name_def open_paren_def del: pattern.simps(2)) (simp add: open_paren_def)

lemma replaceEachPh_result: "regex_result (replaceEachPh args t ph)"
  unfolding replaceEachPh_def by (intro regex_result_cbind regex_returns) (simp add: Let_def split: cxx.split)

lemma substitute_result: "regex_result (substitute_variables vs s)"
proof -
  have "regex_result (foldl (\<lambda>m (_, ph). cbind m (\<lambda>t. replaceEachPh [] t ph)) m es)" if "regex_result m" for m and es :: placeholder_manager
    using that
  proof (induction es arbitrary: m)
    case (Cons x es)
    have "regex_result (cbind m (\<lambda>t. replaceEachPh [] t (snd x)))" by (intro regex_result_cbind Cons.prems replaceEachPh_result)
    from Cons.IH [OF this] show ?case by (simp add: case_prod_beta)
  qed simp
  then show ?thesis by (simp add: substitute_variables_def replacePlaceholders_def)
qed

lemma replaceEachPh_bad:
  "replaceEachPh [] t (snd (var_entry (n, v))) = regex_error \<longleftrightarrow> bad_name n"
proof -
  from regex_returns [of "escape (var_pattern n)"]
  consider r where "regex (escape (var_pattern n)) = Val r" | "regex (escape (var_pattern n)) = regex_error"
    unfolding regex_result_def by blast
  then show ?thesis
    by cases (simp_all add: replaceEachPh_def var_entry_def resolve_def bad_name_def, simp_all add: regex_error_def)
qed

lemma replace_bad:
  "regex_result m \<Longrightarrow> regex_result (foldl (\<lambda>m (_, ph). cbind m (\<lambda>t. replaceEachPh [] t ph)) m (map var_entry xs))
     \<and> (foldl (\<lambda>m (_, ph). cbind m (\<lambda>t. replaceEachPh [] t ph)) m (map var_entry xs) = regex_error
          \<longleftrightarrow> m = regex_error \<or> (\<exists>(n, v) \<in> set xs. bad_name n))"
proof (induction xs arbitrary: m)
  case (Cons x xs)
  obtain n v where x: "x = (n, v)" by fastforce
  let ?m = "cbind m (\<lambda>t. replaceEachPh [] t (snd (var_entry x)))"
  have "regex_result ?m" by (intro regex_result_cbind Cons.prems replaceEachPh_result)
  moreover from Cons.prems consider a where "m = Val a" | "m = regex_error" unfolding regex_result_def by blast
  then have "?m = regex_error \<longleftrightarrow> m = regex_error \<or> bad_name n"
  proof cases
    case 1
    with replaceEachPh_bad [of a n v] show ?thesis by (simp add: x) (simp add: regex_error_def)
  qed (simp add: regex_error_def)
  ultimately show ?case using Cons.IH [of ?m] by (simp add: x case_prod_beta)
qed simp

lemma substitute_bad:
  assumes "distinct (map fst vs)"
  shows "regex_result (substitute_variables vs s) \<and> (substitute_variables vs s = regex_error \<longleftrightarrow> (\<exists>(n, v) \<in> set vs. bad_name n))"
proof -
  obtain ys where ys: "foldl (\<lambda>pman (n, v). addPlaceholder \<lparr>getPattern = var_pattern n, resolver = v\<rparr> pman) [] vs = map var_entry ys"
    "set ys = set vs" using manager_entries [OF assms] by blast
  with replace_bad [of "Val s" ys] show ?thesis by (simp add: substitute_variables_def replacePlaceholders_def regex_error_def)
qed

section \<open>All references at once\<close>

text \<open>A text as its literal parts and its references, and what it means for a set of variables.\<close>

datatype seg = Lit string | Ref string

fun seg_text :: "seg \<Rightarrow> string" where
  "seg_text (Lit t) = t"
| "seg_text (Ref n) = ''${'' @ n @ ''}''"

fun seg_value :: "vars \<Rightarrow> seg \<Rightarrow> string" where
  "seg_value vs (Lit t) = t"
| "seg_value vs (Ref n) = (case map_of vs n of None \<Rightarrow> seg_text (Ref n) | Some v \<Rightarrow> v)"

fun plain_seg :: "seg \<Rightarrow> bool" where
  "plain_seg (Lit t) \<longleftrightarrow> CHR ''$'' \<notin> set t"
| "plain_seg (Ref n) \<longleftrightarrow> plain_name n"

definition put_seg :: "string \<Rightarrow> string \<Rightarrow> seg \<Rightarrow> seg" where
  "put_seg n v sg = (if sg = Ref n then Lit v else sg)"

lemma ref_prefix:
  assumes "CHR ''}'' \<notin> set n" and "CHR ''}'' \<notin> set m" and "take (Suc (length n)) (m @ CHR ''}'' # r) = n @ ''}''"
  shows "n = m"
  using assms
proof (induction n arbitrary: m)
  case Nil
  then show ?case by (cases m) auto
next
  case (Cons c n)
  then show ?case by (cases m) auto
qed

lemma replace_segs:
  assumes "plain_name n" and "\<forall>sg \<in> set segs. plain_seg sg" and "CHR ''$'' \<notin> set v"
  shows "replace_all (ref_text n) v acc (concat (map seg_text segs))
     = rev acc @ concat (map (\<lambda>sg. seg_text (put_seg n v sg)) segs)"
  using assms(2)
proof (induction segs arbitrary: acc)
  case (Cons sg segs)
  have lit: "ref_text n = CHR ''$'' # ''{'' @ n @ ''}''" by simp
  show ?case
  proof (cases sg)
    case (Lit t)
    with Cons lit replace_all_skip [of t "''{'' @ n @ ''}''"] show ?thesis by (simp add: put_seg_def)
  next
    case (Ref m)
    let ?r = "concat (map seg_text segs)"
    have names: "CHR ''}'' \<notin> set n" "CHR ''}'' \<notin> set m" "CHR ''$'' \<notin> set m"
      using assms(1) Cons.prems Ref by (auto simp: plain_name_def)
    show ?thesis
    proof (cases "m = n")
      case True
      with Cons Ref lit assms(3) show ?thesis by (simp add: put_seg_def expand_no_dollar)
    next
      case False
      with ref_prefix [OF names(1,2), of ?r]
      have "take (length (ref_text n)) (CHR ''$'' # ''{'' @ m @ CHR ''}'' # ?r) \<noteq> ref_text n" by (auto simp: lit)
      then have "replace_all (ref_text n) v acc (CHR ''$'' # ''{'' @ m @ CHR ''}'' # ?r)
          = replace_all (ref_text n) v (CHR ''$'' # acc) ((''{'' @ m @ ''}'') @ ?r)"
        by simp
      also have "\<dots> = replace_all (ref_text n) v (rev (''${'' @ m @ ''}'') @ acc) ?r"
        unfolding lit using names(3) by (subst replace_all_skip) simp_all
      finally show ?thesis using Cons Ref False by (simp add: put_seg_def)
    qed
  qed
qed simp

lemma foldl_segs:
  assumes "\<forall>(n, v) \<in> set ys. plain_name n \<and> CHR ''$'' \<notin> set v" and "\<forall>sg \<in> set segs. plain_seg sg"
  shows "foldl (\<lambda>t (n, v). replace_all (ref_text n) v [] t) (concat (map seg_text segs)) ys
     = concat (map (seg_value ys) segs)"
  using assms
proof (induction ys arbitrary: segs)
  case Nil
  have "seg_value [] sg = seg_text sg" for sg by (cases sg) simp_all
  then show ?case by simp
next
  case (Cons y ys)
  obtain n v where y: "y = (n, v)" by fastforce
  let ?segs = "map (put_seg n v) segs"
  have "\<forall>sg \<in> set ?segs. plain_seg sg" using Cons.prems y by (auto simp: put_seg_def)
  moreover have "replace_all (ref_text n) v [] (concat (map seg_text segs)) = concat (map seg_text ?segs)"
    using replace_segs [of n segs v "[]"] Cons.prems y by (simp add: comp_def)
  moreover have "seg_value ys (put_seg n v sg) = seg_value (y # ys) sg" for sg
    by (cases sg) (auto simp: y put_seg_def)
  ultimately show ?case using Cons.IH [of ?segs] Cons.prems by (simp add: y comp_def)
qed

lemma substitute_segs:
  assumes "vars_ok vs" and "\<forall>(n, v) \<in> set vs. plain_name n \<and> CHR ''$'' \<notin> set v"
    and "\<forall>sg \<in> set segs. plain_seg sg"
  shows "substitute_variables vs (concat (map seg_text segs)) = Val (concat (map (seg_value vs) segs))"
proof -
  have "\<forall>(n, v) \<in> set vs. plain_name n" using assms(2) by auto
  then obtain ys where ys: "\<forall>s. substitute_variables vs s = Val (foldl (\<lambda>t (n, v). replace_all (ref_text n) v [] t) s ys)"
    "set ys = set vs" "distinct (map fst ys)"
    using substitute_entries [OF assms(1)] by blast
  then have "map_of ys = map_of vs" using vars_ok_distinct [OF assms(1)] by (simp add: map_of_inject_set)
  then have "seg_value ys sg = seg_value vs sg" for sg by (cases sg) simp_all
  then have "map (seg_value ys) segs = map (seg_value vs) segs" by simp
  with foldl_segs [of ys segs] assms(2,3) ys show ?thesis by metis
qed

section \<open>Properties\<close>



end
