(* ===== verification/Conf_File.thy ===== *)
theory Conf_File
  imports Conf_Vars
begin

text \<open>
  \<^verbatim>\<open>conftool/config/CellframeConfigFile.cpp\<close>: a configuration file as the list of its lines, \<open>exists\<close> and
  \<open>set\<close> on it, loading and saving, and the paths of the configuration files. The laws of a
  store (what a lookup finds after a set, and that nothing else changed) are a locale; the
  file satisfies them on files whose lines it can read.
\<close>

section \<open>Lines\<close>

text \<open>
  \<open>is_group_decl\<close>: the name of the group, if the line declares one. The name is what stands between
  the first character, a bracket, and the next closing bracket or the end. A line of equals
  signs has no token, and reading its first one is undefined.
\<close>

definition is_group_decl :: "string \<Rightarrow> string option cxx" where
  "is_group_decl line = (let tokens = tokenize_eq line in
     if 1 < length tokens then Val None
     else case tokens of
       [] \<Rightarrow> Undef OutOfBounds
     | t # ts \<Rightarrow>
       if hd t \<noteq> CHR ''['' then Val None
       else let group_name = trim (takeWhile (\<lambda>c. c \<noteq> CHR '']'') (tl t)) in
         Val (if group_name = [] then None else Some group_name))"

definition parse_param_value :: "string \<Rightarrow> (string \<times> string) cxx" where
  "parse_param_value line =
    (if CHR ''='' \<notin> set line then Throws ''config line expected to be key=value''
     else case tokenize_eq line of
       [] \<Rightarrow> Undef OutOfBounds
     | [t] \<Rightarrow> Val (trim t, [])
     | t # u # ts \<Rightarrow> Val (trim t, u))"

section \<open>The configuration file\<close>

text \<open>
  The loop of \<open>exists\<close>. \<open>n\<close> is the number of the line, \<open>found\<close> says whether the group was seen. The
  result has the return value, \<open>value\<close>, \<open>line_no\<close> and \<open>group_exists\<close>.
\<close>

fun exists_from :: "string \<Rightarrow> string \<Rightarrow> bool \<Rightarrow> nat \<Rightarrow> string list \<Rightarrow> (bool \<times> string \<times> nat \<times> bool) cxx" where
  "exists_from grp param found n [] = Val (False, [], n, found)"
| "exists_from grp param found n (l # ls) =
    (let line = clean l in
     if line = [] then exists_from grp param found (Suc n) ls
     else cbind (is_group_decl line) (\<lambda>gd.
       case gd of
         Some group_name \<Rightarrow>
           if \<not> found then exists_from grp param (group_name = grp) (Suc n) ls
           else Val (False, [], n, found)
       | None \<Rightarrow>
           if \<not> found then exists_from grp param found (Suc n) ls
           else cbind (parse_param_value line) (\<lambda>(p, v).
             if p = param then Val (True, v, n, found)
             else exists_from grp param found (Suc n) ls)))"

definition cfg_exists :: "string list \<Rightarrow> string \<Rightarrow> string \<Rightarrow> (bool \<times> string \<times> nat \<times> bool) cxx" where
  "cfg_exists lines grp param = exists_from grp param False 0 lines"

definition insert_at :: "nat \<Rightarrow> 'a \<Rightarrow> 'a list \<Rightarrow> 'a list" where
  "insert_at n x xs = take n xs @ x # drop n xs"

text \<open>\<open>set\<close>: the new lines; a new parameter is followed by a line that holds a newline.\<close>

definition cfg_set :: "string list \<Rightarrow> string \<Rightarrow> string \<Rightarrow> string \<Rightarrow> string list cxx" where
  "cfg_set lines grp param val =
    cbind (cfg_exists lines grp param) (\<lambda>(param_exists, _, line_set_to, group_exists).
     let entry = param @ ''='' @ val in
     Val (if param_exists then lines[line_set_to := entry]
          else let lines1 = (if group_exists then lines else insert_at line_set_to (''['' @ grp @ '']'') lines);
                   at = (if group_exists then line_set_to else Suc line_set_to) in
            insert_at (Suc at) [CHR 0x0A] (insert_at at entry lines1)))"

text \<open>\<open>getline\<close> splits at newlines; a newline at the end does not begin a line. \<open>save\<close> ends every line.\<close>

definition load_lines :: "string \<Rightarrow> string list" where
  "load_lines s = (let ls = split_at (\<lambda>c. c = CHR 0x0A) s [] in if last ls = [] then butlast ls else ls)"

definition save_lines :: "string list \<Rightarrow> string" where
  "save_lines ls = concat (map (\<lambda>l. l @ [CHR 0x0A]) ls)"

text \<open>\<open>replace_placeholders\<close> rewrites every line that is not empty behind its comment; the comment is lost.\<close>

fun replace_placeholders :: "vars \<Rightarrow> string list \<Rightarrow> string list cxx" where
  "replace_placeholders vs [] = Val []"
| "replace_placeholders vs (l # ls) =
     cbind (let line = clean l in if line = [] then Val l else substitute_variables vs line) (\<lambda>nline.
     cbind (replace_placeholders vs ls) (\<lambda>ls. Val (nline # ls)))"

section \<open>Paths\<close>

text \<open>
  \<open>operator/\<close> of \<open>fs::path\<close> on a POSIX system: an absolute right side replaces the left one; otherwise a
  slash comes between the two unless the left side has no file name (it is empty or ends with a slash).
\<close>

definition path_join :: "string \<Rightarrow> string \<Rightarrow> string" where
  "path_join a b = (if take 1 b = ''/'' then b
     else if a = [] \<or> last a = CHR ''/'' then a @ b else a @ ''/'' @ b)"

definition path_of :: "string \<Rightarrow> string list \<Rightarrow> string" where
  "path_of base parts = foldl path_join base parts"

datatype cfg_type = CFG_GENERAL | CFG_MAINCHAIN | CFG_ZEROCHAIN

datatype cfg_state = CFG_ON | CFG_OFF | CFG_TEMPLATE

datatype path_type = CFG_NODE | CFG_NODE_TEMPLATE | CFG_NETWORK | CFG_NETWORK_TEMPLATE

definition get_config_path :: "vars \<Rightarrow> path_type \<Rightarrow> string" where
  "get_config_path vs ty = path_of (get_var vs ''CONFIGS_PATH'') (case ty of
      CFG_NODE \<Rightarrow> [''share'', ''configs'']
    | CFG_NODE_TEMPLATE \<Rightarrow> [''etc'']
    | CFG_NETWORK \<Rightarrow> [''etc'', ''network/'']
    | CFG_NETWORK_TEMPLATE \<Rightarrow> [''share'', ''configs'', ''network/''])"

definition config_path :: "vars \<Rightarrow> string \<Rightarrow> cfg_type \<Rightarrow> cfg_state \<Rightarrow> string" where
  "config_path vs name ty st = path_of (get_var vs ''CONFIGS_PATH'')
    (if name = ''cellframe-node'' then
      (if st = CFG_TEMPLATE then [''share'', ''configs'', ''cellframe-node.cfg''] else [''etc'', ''cellframe-node.cfg''])
    else case ty of
      CFG_GENERAL \<Rightarrow> (case st of
          CFG_ON \<Rightarrow> [''etc'', ''network/'', name @ ''.cfg'']
        | CFG_OFF \<Rightarrow> [''etc'', ''network/'', name @ ''.cfg.dis'']
        | CFG_TEMPLATE \<Rightarrow> [''share'', ''configs'', ''network/'', name @ ''.cfg''])
    | CFG_MAINCHAIN \<Rightarrow> [''etc'', ''network/'', name, ''main.cfg'']
    | CFG_ZEROCHAIN \<Rightarrow> [''etc'', ''network/'', name, ''zerochain.cfg''])"

section \<open>The file as a list of entries\<close>

datatype cline = Blank | Group string | Pair string string

definition classify :: "string \<Rightarrow> cline cxx" where
  "classify l = (let line = clean l in
     if line = [] then Val Blank
     else cbind (is_group_decl line) (\<lambda>gd. case gd of
        Some g \<Rightarrow> Val (Group g)
      | None \<Rightarrow> cbind (parse_param_value line) (\<lambda>(p, v). Val (Pair p v))))"

definition legible :: "string list \<Rightarrow> bool" where
  "legible ls \<longleftrightarrow> (\<forall>l \<in> set ls. \<exists>c. classify l = Val c)"

definition entry_of :: "string \<Rightarrow> cline" where
  "entry_of l = (case classify l of Val c \<Rightarrow> c | _ \<Rightarrow> Blank)"

text \<open>The specification of lookup and set, by recursion over the entries.\<close>

fun lookup_from :: "string \<Rightarrow> string \<Rightarrow> bool \<Rightarrow> cline list \<Rightarrow> string option" where
  "lookup_from g p found [] = None"
| "lookup_from g p found (Blank # cs) = lookup_from g p found cs"
| "lookup_from g p found (Group x # cs) = (if found then None else lookup_from g p (x = g) cs)"
| "lookup_from g p found (Pair q v # cs) = (if found \<and> q = p then Some v else lookup_from g p found cs)"

fun update_from :: "string \<Rightarrow> string \<Rightarrow> string \<Rightarrow> bool \<Rightarrow> cline list \<Rightarrow> cline list" where
  "update_from g p v found [] = (if found then [Pair p v, Blank] else [Group g, Pair p v, Blank])"
| "update_from g p v found (Blank # cs) = Blank # update_from g p v found cs"
| "update_from g p v found (Group x # cs) =
     (if found then Pair p v # Blank # Group x # cs else Group x # update_from g p v (x = g) cs)"
| "update_from g p v found (Pair q w # cs) =
     (if found \<and> q = p then Pair p v # cs else Pair q w # update_from g p v found cs)"

lemma lookup_update_same: "lookup_from g p found (update_from g p v found cs) = Some v"
  by (induction g p v found cs rule: update_from.induct) auto

lemma lookup_update_param:
  "q \<noteq> p \<Longrightarrow> lookup_from g q found (update_from g p v found cs) = lookup_from g q found cs"
  by (induction g p v found cs rule: update_from.induct) auto

lemma lookup_update_group:
  "h \<noteq> g \<Longrightarrow> \<not> (found \<and> seen) \<Longrightarrow> lookup_from h q seen (update_from g p v found cs) = lookup_from h q seen cs"
  by (induction g p v found cs arbitrary: seen rule: update_from.induct) auto

section \<open>The code refines the specification\<close>

lemma classify_cases:
  assumes "classify l = Val c"
  obtains (Blank) "c = Blank" "clean l = []"
  | (Group) g where "c = Group g" "clean l \<noteq> []" "is_group_decl (clean l) = Val (Some g)"
  | (Pair) p v where "c = Pair p v" "clean l \<noteq> []" "is_group_decl (clean l) = Val None"
      "parse_param_value (clean l) = Val (p, v)"
  using assms unfolding classify_def Let_def
  by (auto simp: cbind_Val split: if_splits option.splits prod.splits)

text \<open>What \<open>set\<close> does at the line \<open>exists\<close> found, counted from the beginning of a part of the file.\<close>

definition put_lines :: "string \<Rightarrow> string \<Rightarrow> string \<Rightarrow> bool \<Rightarrow> nat \<Rightarrow> bool \<Rightarrow> string list \<Rightarrow> string list" where
  "put_lines g p v param_exists k group_exists ls =
    (if param_exists then ls[k := p @ ''='' @ v]
     else if group_exists then insert_at (Suc k) [CHR 0x0A] (insert_at k (p @ ''='' @ v) ls)
     else insert_at (Suc (Suc k)) [CHR 0x0A] (insert_at (Suc k) (p @ ''='' @ v) (insert_at k (''['' @ g @ '']'') ls)))"

lemma insert_at_simps [simp]:
  "insert_at 0 x xs = x # xs" "insert_at (Suc n) x (y # ys) = y # insert_at n x ys"
  by (simp_all add: insert_at_def)

lemma put_lines_Cons [simp]:
  "put_lines g p v b (Suc k) e (l # ls) = l # put_lines g p v b k e ls"
  by (simp add: put_lines_def)

definition ok_group :: "string \<Rightarrow> bool" where
  "ok_group g \<longleftrightarrow> g \<noteq> [] \<and> set g \<inter> {CHR ''='', CHR '']'', CHR ''#''} = {} \<and> \<not> is_space (hd g) \<and> \<not> is_space (last g)"

definition ok_param :: "string \<Rightarrow> bool" where
  "ok_param p \<longleftrightarrow> p \<noteq> [] \<and> set p \<inter> {CHR ''='', CHR ''#''} = {} \<and> hd p \<noteq> CHR ''[''
     \<and> \<not> is_space (hd p) \<and> \<not> is_space (last p)"

definition ok_value :: "string \<Rightarrow> bool" where
  "ok_value v \<longleftrightarrow> set v \<inter> {CHR ''='', CHR ''#''} = {} \<and> (v = [] \<or> \<not> is_space (last v))"

lemma space_facts: "\<not> is_space (CHR ''='')" "\<not> is_space (CHR ''['')" "\<not> is_space (CHR '']'')" "is_space (CHR 0x0A)"
  by (simp_all add: is_space_def)

lemma classify_pair:
  assumes "ok_param p" and "ok_value v"
  shows "classify (p @ ''='' @ v) = Val (Pair p v)"
proof -
  have "clean (p @ ''='' @ v) = p @ ''='' @ v"
    using assms by (intro clean_id) (auto simp: ok_param_def ok_value_def space_facts)
  moreover have "tokenize_eq (p @ ''='' @ v) = (if v = [] then [p] else [p, v])"
    using assms by (intro tokenize_eq_pair) (auto simp: ok_param_def ok_value_def)
  ultimately show ?thesis
    using assms by (auto simp: classify_def is_group_decl_def parse_param_value_def ok_param_def trim_id)
qed

lemma classify_group:
  assumes "ok_group g"
  shows "classify (''['' @ g @ '']'') = Val (Group g)"
proof -
  have "clean (''['' @ g @ '']'') = ''['' @ g @ '']''"
    using assms by (intro clean_id) (auto simp: ok_group_def space_facts)
  moreover have "tokenize_eq (''['' @ g @ '']'') = [''['' @ g @ '']'']"
    using assms by (intro tokenize_eq_single) (auto simp: ok_group_def)
  moreover have "takeWhile (\<lambda>c. c \<noteq> CHR '']'') (g @ '']'') = g"
    using assms by (auto simp: ok_group_def takeWhile_append takeWhile_eq_all_conv)
  moreover have "trim g = g" using assms by (auto simp: ok_group_def trim_id)
  ultimately show ?thesis
    using assms by (auto simp: classify_def is_group_decl_def ok_group_def)
qed

lemma classify_newline: "classify [CHR 0x0A] = Val Blank"
  by (simp add: classify_def clean_def trim_def rtrim_def ltrim_def space_facts)

lemmas entry_new = classify_pair [simplified] classify_group [simplified] classify_newline

lemma legible_Cons [simp]: "legible (l # ls) \<longleftrightarrow> (\<exists>c. classify l = Val c) \<and> legible ls"
  and legible_Nil [simp]: "legible []"
  by (simp_all add: legible_def)

lemma entry_of_Val: "classify l = Val c \<Longrightarrow> entry_of l = c"
  by (simp add: entry_of_def)

text \<open>
  On a legible file the loop of \<open>exists\<close> returns, its answer is the specified lookup, and writing at
  the line it reports is the specified update.
\<close>

lemma exists_from_refines:
  assumes "legible ls" and new: "ok_param p" "ok_value v" "ok_group g"
  shows "\<exists>b w k e. exists_from g p found n ls = Val (b, w, n + k, e)
     \<and> (if b then Some w else None) = lookup_from g p found (map entry_of ls)
     \<and> map entry_of (put_lines g p v b k e ls) = update_from g p v found (map entry_of ls)
     \<and> legible (put_lines g p v b k e ls)"
  using assms(1)
proof (induction ls arbitrary: found n)
  case Nil
  show ?case
    by (rule exI [of _ False], rule exI [of _ "[]"], rule exI [of _ 0], rule exI [of _ found])
      (simp add: put_lines_def entry_of_def entry_new new)
next
  case (Cons l ls)
  have skip: ?case
    if same: "exists_from g p found n (l # ls) = exists_from g p f (Suc n) ls"
      "lookup_from g p found (map entry_of (l # ls)) = lookup_from g p f (map entry_of ls)"
      "update_from g p v found (map entry_of (l # ls)) = entry_of l # update_from g p v f (map entry_of ls)" for f
  proof -
    obtain b w k e where "exists_from g p f (Suc n) ls = Val (b, w, Suc n + k, e)"
      and "(if b then Some w else None) = lookup_from g p f (map entry_of ls)"
      and "map entry_of (put_lines g p v b k e ls) = update_from g p v f (map entry_of ls)"
      and "legible (put_lines g p v b k e ls)"
      using Cons.IH [of f "Suc n"] Cons.prems by auto
    with same Cons.prems show ?thesis
      by (intro exI [of _ b] exI [of _ w] exI [of _ "Suc k"] exI [of _ e]) simp
  qed
  have here: "map entry_of (put_lines g p v True 0 True (l # ls)) = Pair p v # map entry_of ls"
    "map entry_of (put_lines g p v False 0 True (l # ls)) = Pair p v # Blank # entry_of l # map entry_of ls"
    "legible (put_lines g p v True 0 True (l # ls))" "legible (put_lines g p v False 0 True (l # ls))"
    using Cons.prems by (simp_all add: put_lines_def entry_of_def entry_new new)
  obtain c where c: "classify l = Val c" using Cons.prems by auto
  note e = entry_of_Val [OF c]
  from c show ?case
  proof (cases rule: classify_cases)
    case Blank
    with e show ?thesis by (intro skip [of found]) simp_all
  next
    case (Group x)
    show ?thesis
    proof (cases found)
      case True
      with Group e here show ?thesis
        by (intro exI [of _ False] exI [of _ "[]"] exI [of _ 0] exI [of _ True]) simp
    next
      case False
      with Group e show ?thesis by (intro skip [of "x = g"]) simp_all
    qed
  next
    case (Pair q w)
    show ?thesis
    proof (cases "found \<and> q = p")
      case True
      with Pair e here show ?thesis
        by (intro exI [of _ True] exI [of _ w] exI [of _ 0] exI [of _ True]) simp
    next
      case False
      with Pair e show ?thesis by (intro skip [of found]; cases found) simp_all
    qed
  qed
qed

definition cfg_get :: "string list \<Rightarrow> string \<Rightarrow> string \<Rightarrow> string option cxx" where
  "cfg_get ls g p = cbind (cfg_exists ls g p) (\<lambda>(b, w, _, _). Val (if b then Some w else None))"

lemma cfg_refines:
  assumes "legible ls" and "ok_group g" and "ok_param p" and "ok_value v"
  shows "cfg_get ls g p = Val (lookup_from g p False (map entry_of ls))
     \<and> (\<exists>ls'. cfg_set ls g p v = Val ls' \<and> legible ls' \<and> map entry_of ls' = update_from g p v False (map entry_of ls))"
proof -
  obtain b w k e where r: "exists_from g p False 0 ls = Val (b, w, 0 + k, e)"
    "(if b then Some w else None) = lookup_from g p False (map entry_of ls)"
    "map entry_of (put_lines g p v b k e ls) = update_from g p v False (map entry_of ls)"
    "legible (put_lines g p v b k e ls)"
    using exists_from_refines [OF assms(1,3,4,2), of False 0] by blast
  have "cfg_set ls g p v = Val (put_lines g p v b k e ls)"
    using r(1) by (simp add: cfg_set_def cfg_exists_def put_lines_def Let_def)
  with r show ?thesis by (simp add: cfg_get_def cfg_exists_def)
qed

section \<open>The file as a store\<close>

text \<open>
  What the commands rely on: a store with a lookup and an update that may fail, but not on
  good states and good arguments, and the laws of a map.
\<close>

locale cfg_store =
  fixes get :: "'s \<Rightarrow> string \<Rightarrow> string \<Rightarrow> string option cxx"
    and put :: "'s \<Rightarrow> string \<Rightarrow> string \<Rightarrow> string \<Rightarrow> 's cxx"
    and good :: "'s \<Rightarrow> bool"
    and okg :: "string \<Rightarrow> bool" and okp :: "string \<Rightarrow> bool" and okv :: "string \<Rightarrow> bool"
  assumes get_total: "good s \<Longrightarrow> okg g \<Longrightarrow> okp p \<Longrightarrow> \<exists>r. get s g p = Val r"
    and put_total: "good s \<Longrightarrow> okg g \<Longrightarrow> okp p \<Longrightarrow> okv v \<Longrightarrow> \<exists>s'. put s g p v = Val s' \<and> good s'"
    and get_put: "good s \<Longrightarrow> okg g \<Longrightarrow> okp p \<Longrightarrow> okv v \<Longrightarrow> put s g p v = Val s' \<Longrightarrow> get s' g p = Val (Some v)"
    and get_other: "good s \<Longrightarrow> okg g \<Longrightarrow> okp p \<Longrightarrow> okv v \<Longrightarrow> okg h \<Longrightarrow> okp q \<Longrightarrow> (h, q) \<noteq> (g, p)
        \<Longrightarrow> put s g p v = Val s' \<Longrightarrow> get s' h q = get s h q"
begin

text \<open>A sequence of updates: the last one for a key decides, all others are as before.\<close>

fun put_all :: "'s \<Rightarrow> (string \<times> string \<times> string) list \<Rightarrow> 's cxx" where
  "put_all s [] = Val s"
| "put_all s ((g, p, v) # us) = cbind (put s g p v) (\<lambda>s'. put_all s' us)"

definition okus :: "(string \<times> string \<times> string) list \<Rightarrow> bool" where
  "okus us \<longleftrightarrow> (\<forall>(g, p, v) \<in> set us. okg g \<and> okp p \<and> okv v)"

lemma put_all_total: "good s \<Longrightarrow> okus us \<Longrightarrow> \<exists>s'. put_all s us = Val s' \<and> good s'"
proof (induction us arbitrary: s)
  case (Cons u us)
  obtain g p v where u: "u = (g, p, v)" by (cases u)
  with Cons.prems obtain s1 where "put s g p v = Val s1" "good s1"
    using put_total [of s g p v] by (auto simp: okus_def)
  with Cons u show ?case by (simp add: okus_def)
qed simp

lemma get_put_all:
  "good s \<Longrightarrow> okus us \<Longrightarrow> okg h \<Longrightarrow> okp q \<Longrightarrow> put_all s us = Val s' \<Longrightarrow>
   get s' h q = (case map_of (rev (map (\<lambda>(g, p, v). ((g, p), v)) us)) (h, q) of
      Some v \<Rightarrow> Val (Some v) | None \<Rightarrow> get s h q)"
proof (induction us arbitrary: s)
  case (Cons u us)
  obtain g p v where u: "u = (g, p, v)" by (cases u)
  with Cons.prems(2) have ok: "okg g" "okp p" "okv v" "okus us" by (auto simp: okus_def)
  obtain s1 where s1: "put s g p v = Val s1" "good s1"
    using put_total [OF Cons.prems(1) ok(1-3)] by blast
  have "put_all s1 us = Val s'" using Cons.prems(5) u s1 by simp
  from Cons.IH [OF s1(2) ok(4) Cons.prems(3,4) this] show ?case
    using u get_put [OF Cons.prems(1) ok(1-3) s1(1)]
      get_other [OF Cons.prems(1) ok(1-3) Cons.prems(3,4) _ s1(1)]
    by (cases "(h, q) = (g, p)") (auto simp: map_add_def split: option.splits)
qed simp

end

interpretation cfg: cfg_store cfg_get cfg_set legible ok_group ok_param ok_value
proof unfold_locales
  have ok_nil: "ok_value []" by (simp add: ok_value_def)
  fix s g p assume "legible s" "ok_group g" "ok_param p"
  then show "\<exists>r. cfg_get s g p = Val r" using cfg_refines [OF _ _ _ ok_nil] by blast
next
  fix s g p v assume "legible s" "ok_group g" "ok_param p" "ok_value v"
  then show "\<exists>s'. cfg_set s g p v = Val s' \<and> legible s'" using cfg_refines by blast
next
  fix s g p v s' assume a: "legible s" "ok_group g" "ok_param p" "ok_value v" "cfg_set s g p v = Val s'"
  then have s': "legible s'" "map entry_of s' = update_from g p v False (map entry_of s)"
    using cfg_refines by fastforce+
  with cfg_refines [OF s'(1) a(2-4)] show "cfg_get s' g p = Val (Some v)"
    by (simp add: lookup_update_same)
next
  fix s g p v h q s'
  assume a: "legible s" "ok_group g" "ok_param p" "ok_value v" and h: "ok_group h" "ok_param q" "(h, q) \<noteq> (g, p)"
    and set: "cfg_set s g p v = Val s'"
  then have s': "legible s'" "map entry_of s' = update_from g p v False (map entry_of s)"
    using cfg_refines by fastforce+
  have "lookup_from h q False (map entry_of s') = lookup_from h q False (map entry_of s)"
    using h(3) s'(2) by (cases "h = g") (simp_all add: lookup_update_param lookup_update_group)
  with cfg_refines [OF s'(1) h(1,2) a(4)] cfg_refines [OF a(1) h(1,2) a(4)]
  show "cfg_get s' h q = cfg_get s h q" by simp
qed

section \<open>Loading and saving\<close>

lemma split_save:
  "\<forall>l \<in> set ls. CHR 0x0A \<notin> set l \<Longrightarrow> split_at (\<lambda>c. c = CHR 0x0A) (save_lines ls) [] = ls @ [[]]"
proof (induction ls)
  case (Cons l ls)
  then have "\<forall>c \<in> set l. c \<noteq> CHR 0x0A" by auto
  with split_at_one [of l "\<lambda>c. c = CHR 0x0A" "CHR 0x0A" "save_lines ls" "[]"] Cons show ?case
    by (simp add: save_lines_def)
qed (simp add: save_lines_def)

lemma load_save: "\<forall>l \<in> set ls. CHR 0x0A \<notin> set l \<Longrightarrow> load_lines (save_lines ls) = ls"
  by (simp add: load_lines_def split_save)

section \<open>Properties\<close>

text \<open>
  Setting a parameter works: on a file whose lines can be read, for a group, a parameter and a
  value without the characters that have a meaning in the file, \<open>set\<close> succeeds, the parameter
  then has exactly that value, every other parameter of every group has the value it had,
  and the file can still be read.
\<close>

theorem cfg_set_get:
  assumes "legible ls" and "ok_group g" and "ok_param p" and "ok_value v"
  shows "\<exists>ls'. cfg_set ls g p v = Val ls' \<and> legible ls' \<and> cfg_get ls' g p = Val (Some v)
     \<and> (\<forall>h q. ok_group h \<and> ok_param q \<and> (h, q) \<noteq> (g, p) \<longrightarrow> cfg_get ls' h q = cfg_get ls h q)"
proof -
  obtain ls' where "cfg_set ls g p v = Val ls'" "legible ls'" using cfg.put_total [OF assms] by blast
  with cfg.get_put [OF assms] cfg.get_other [OF assms] show ?thesis by blast
qed

text \<open>
  C22. The line-by-line search of \<open>exists\<close> and the insertion of \<open>set\<close> implement the lookup and the update
  of the list of entries: the first group of the name counts, in it the first line of the
  parameter; a new parameter goes to the end of the group, a new group to the end of the
  file.
\<close>

theorem cfg_implements_entries:
  assumes "legible ls" and "ok_group g" and "ok_param p" and "ok_value v"
  shows "cfg_get ls g p = Val (lookup_from g p False (map entry_of ls))
     \<and> (\<exists>ls'. cfg_set ls g p v = Val ls' \<and> map entry_of ls' = update_from g p v False (map entry_of ls))"
  using cfg_refines [OF assms] by blast

text \<open>
  A sequence of settings, as a setup script makes them, behaves like a map: for every
  parameter the last setting of the sequence decides, and a parameter it does not mention
  keeps its value.
\<close>

theorem cfg_settings_last_wins:
  assumes "legible ls" and "cfg.okus us" and "ok_group h" and "ok_param q"
  shows "\<exists>ls'. cfg.put_all ls us = Val ls' \<and> legible ls'
     \<and> cfg_get ls' h q = (case map_of (rev (map (\<lambda>(g, p, v). ((g, p), v)) us)) (h, q) of
          Some v \<Rightarrow> Val (Some v) | None \<Rightarrow> cfg_get ls h q)"
  using cfg.put_all_total [OF assms(1,2)] cfg.get_put_all [OF assms] by blast

section \<open>Witnesses\<close>

definition sample_cfg :: "string list" where
  "sample_cfg = [''[general]'', ''debug_mode=false'', ''[server]'', ''enabled=true'']"

lemma sample_ok: "ok_group ''general''" "ok_group ''server''" "ok_param ''debug_mode''" "ok_param ''enabled''"
  "ok_value ''false''" "ok_value ''true''"
  by (simp_all add: ok_group_def ok_param_def ok_value_def is_space_def)

lemma sample_legible: "legible sample_cfg"
  using classify_group [OF sample_ok(1)] classify_group [OF sample_ok(2)]
    classify_pair [OF sample_ok(3,5)] classify_pair [OF sample_ok(4,6)]
  by (simp add: sample_cfg_def)

theorem cfg_set_get_witness:
  "\<exists>ls'. cfg_set sample_cfg ''general'' ''debug_mode'' ''true'' = Val ls'
     \<and> cfg_get ls' ''general'' ''debug_mode'' = Val (Some ''true'')"
  using cfg_set_get [OF sample_legible sample_ok(1,3,6)] by blast

theorem cfg_implements_entries_witness:
  "cfg_get sample_cfg ''server'' ''enabled'' = Val (lookup_from ''server'' ''enabled'' False (map entry_of sample_cfg))"
  using cfg_implements_entries [OF sample_legible sample_ok(2,4,6)] by blast

theorem cfg_settings_last_wins_witness:
  "\<exists>ls'. cfg.put_all sample_cfg [(''general'', ''debug_mode'', ''true''), (''general'', ''debug_mode'', ''false'')] = Val ls'
     \<and> cfg_get ls' ''general'' ''debug_mode'' = Val (Some ''false'')"
proof -
  have "cfg.okus [(''general'', ''debug_mode'', ''true''), (''general'', ''debug_mode'', ''false'')]"
    using sample_ok by (simp add: cfg.okus_def)
  from cfg_settings_last_wins [OF sample_legible this sample_ok(1,3)] show ?thesis by auto
qed

end
