(* ===== verification/Conf_State.thy ===== *)
theory Conf_State
  imports Conf_File
begin

text \<open>
  The state of the configuration tool and its programs: the variables, the content of the regular files, what
  it wrote to the standard output and the external commands it ran. A program returns, throws or is
  undefined. The class \<open>CellframeConfigurationFile\<close> is here as programs of this state, with its verbose messages. What the system decides (which paths can be written, a directory, the exit code of a
  command) is the record \<open>conf_env\<close>.
\<close>

unbundle bit_operations_syntax

section \<open>State\<close>

text \<open>The flags of \<^verbatim>\<open>E_FLAGS\<close>, an \<open>int\<close>. Nothing looks at \<open>F_FORCE\<close>.\<close>

type_synonym flags = "32 word"

definition F_VERBOSE :: flags where
  "F_VERBOSE = push_bit 0 1"

definition F_FORCE :: flags where
  "F_FORCE = push_bit 1 1"

definition F_DRYRUN :: flags where
  "F_DRYRUN = push_bit 2 1"

definition verbose :: "flags \<Rightarrow> bool" where
  "verbose fl \<longleftrightarrow> fl AND F_VERBOSE \<noteq> 0"

definition dryrun :: "flags \<Rightarrow> bool" where
  "dryrun fl \<longleftrightarrow> fl AND F_DRYRUN \<noteq> 0"

lemma no_flags [simp]: "\<not> verbose 0" "\<not> dryrun 0"
  by (simp_all add: verbose_def dryrun_def)

text \<open>
  What the tool does outside its own files: shell commands, the elevated commands of Windows and of macOS. A
  run records them in \<open>ext_calls\<close>, and the answer of the system may depend on all of them.
\<close>

datatype ext_call = Shell string | RunAs string string | AppleScript string | AuthTool string "string list"

datatype host_os = OS_LINUX | OS_ANDROID | OS_APPLE | OS_WINDOWS

text \<open>The structure of \<open>ShellExecuteEx\<close> and the functions of Windows that the tool calls; a NULL handle is 0.\<close>

record shell_info =
  lpVerb :: string
  lpFile :: string
  lpParameters :: string
  fMask :: "32 word"
  hProcess :: nat

record win_api =
  ShellExecuteEx :: "ext_call list \<Rightarrow> shell_info \<Rightarrow> bool \<times> shell_info"
  GetLastError :: "ext_call list \<Rightarrow> 32 word"
  GetExitCodeProcess :: "ext_call list \<Rightarrow> nat \<Rightarrow> 32 word option"
  process_snapshot :: "ext_call list \<Rightarrow> string list"

text \<open>A directory: absent, not a directory, or its entries in the order of the system, with whether each is a regular file.\<close>

datatype dir_listing = No_Dir | Not_A_Dir | Entries "(string \<times> bool) list"

record conf_env =
  os :: host_os
  listing :: "(string \<Rightarrow> string option) \<Rightarrow> string \<Rightarrow> dir_listing"
  can_write :: "string \<Rightarrow> bool"
  system :: "ext_call list \<Rightarrow> string \<Rightarrow> int"
  auth_execute :: "ext_call list \<Rightarrow> string \<Rightarrow> string list \<Rightarrow> int"
  win :: win_api

text \<open>\<open>out\<close> has the texts written to the standard output, one for each statement that writes.\<close>

record conf_state =
  variable_storage :: vars
  files :: "string \<Rightarrow> string option"
  out :: "string list"
  ext_calls :: "ext_call list"

type_synonym 'a conf = "conf_state \<Rightarrow> 'a cxx \<times> conf_state"

definition cret :: "'a \<Rightarrow> 'a conf" where
  "cret a = (\<lambda>s. (Val a, s))"

definition cthrow :: "string \<Rightarrow> 'a conf" where
  "cthrow e = (\<lambda>s. (Throws e, s))"

definition lift :: "'a cxx \<Rightarrow> 'a conf" where
  "lift r = (\<lambda>s. (r, s))"

definition cbnd :: "'a conf \<Rightarrow> ('a \<Rightarrow> 'b conf) \<Rightarrow> 'b conf" where
  "cbnd m k = (\<lambda>s. case m s of
      (Val a, t) \<Rightarrow> k a t | (Throws e, t) \<Rightarrow> (Throws e, t) | (Undef u, t) \<Rightarrow> (Undef u, t))"

definition cseq :: "unit conf \<Rightarrow> 'b conf \<Rightarrow> 'b conf" where
  "cseq m k = cbnd m (\<lambda>_. k)"

definition cget :: "(conf_state \<Rightarrow> 'a) \<Rightarrow> 'a conf" where
  "cget f = (\<lambda>s. (Val (f s), s))"

definition print :: "string \<Rightarrow> unit conf" where
  "print m = (\<lambda>s. (Val (), s\<lparr>out := out s @ [m]\<rparr>))"

text \<open>A text with \<open>std::endl\<close> behind it; the statements under \<open>if (flags & F_VERBOSE)\<close>.\<close>

definition endl :: "string \<Rightarrow> string" where
  "endl m = m @ [CHR 0x0A]"

definition say :: "string \<Rightarrow> unit conf" where
  "say m = print (endl m)"

definition vprint :: "flags \<Rightarrow> string \<Rightarrow> unit conf" where
  "vprint fl m = (if verbose fl then print m else cret ())"

definition vsay :: "flags \<Rightarrow> string \<Rightarrow> unit conf" where
  "vsay fl m = (if verbose fl then say m else cret ())"

text \<open>Paths are printed by \<open>operator<<\<close> of \<open>fs::path\<close>: in double quotes, with quotes and backslashes escaped.\<close>

definition qpath :: "string \<Rightarrow> string" where
  "qpath p = [CHR 0x22] @ concat (map (\<lambda>c. if c = CHR 0x22 \<or> c = CHR 0x5C then [CHR 0x5C, c] else [c]) p) @ [CHR 0x22]"

definition cpath :: "string \<Rightarrow> cfg_state \<Rightarrow> string conf" where
  "cpath name st = cget (\<lambda>s. config_path (variable_storage s) name CFG_GENERAL st)"

definition fexists :: "string \<Rightarrow> bool conf" where
  "fexists p = cget (\<lambda>s. files s p \<noteq> None)"

definition write_file :: "string \<Rightarrow> string \<Rightarrow> unit conf" where
  "write_file p c = (\<lambda>s. (Val (), s\<lparr>files := (files s)(p := Some c)\<rparr>))"

text \<open>
  \<open>fs::copy\<close> and \<open>fs::copy_file\<close> refuse an existing target unless \<open>overwrite_existing\<close> is given; \<open>fs::rename\<close>
  replaces it.
\<close>

definition fs_copy :: "conf_env \<Rightarrow> bool \<Rightarrow> string \<Rightarrow> string \<Rightarrow> unit conf" where
  "fs_copy e overwrite src dst = cbnd (cget files) (\<lambda>fs. case fs src of
      None \<Rightarrow> cthrow ''filesystem error: cannot copy''
    | Some c \<Rightarrow>
      if fs dst \<noteq> None \<and> \<not> overwrite then cthrow ''filesystem error: cannot copy: File exists''
      else if \<not> can_write e dst then cthrow ''filesystem error: cannot copy''
      else write_file dst c)"

definition fs_rename :: "conf_env \<Rightarrow> string \<Rightarrow> string \<Rightarrow> unit conf" where
  "fs_rename e src dst = cbnd (cget files) (\<lambda>fs. case fs src of
      None \<Rightarrow> cthrow ''filesystem error: cannot rename''
    | Some c \<Rightarrow>
      if \<not> can_write e dst then cthrow ''filesystem error: cannot rename''
      else (\<lambda>s. (Val (), s\<lparr>files := (files s)(src := None, dst := Some c)\<rparr>)))"

section \<open>CellframeConfigurationFile\<close>

definition open_config :: "flags \<Rightarrow> string \<Rightarrow> string list conf" where
  "open_config fl p = cbnd (cget files) (\<lambda>fs. case fs p of
      None \<Rightarrow> cbnd (lift (string_format ''Config path [%s] not exitsts'' [p])) cthrow
    | Some c \<Rightarrow> let lines = load_lines c in
        cseq (vsay fl (''[VC] Loaded '' @ show_nat (length lines) @ '' lines form '' @ qpath p)) (cret lines))"

text \<open>
  \<open>exists\<close> with its messages. \<open>group_name\<close> is the variable of the code: the name of the last declaration, so the message
  at the end of a group has the name of the next one.
\<close>

fun exists_steps ::
  "flags \<Rightarrow> string \<Rightarrow> string \<Rightarrow> string \<Rightarrow> bool \<Rightarrow> nat \<Rightarrow> string list \<Rightarrow> (bool \<times> string \<times> nat \<times> bool) conf" where
  "exists_steps fl grp param group_name found n [] = cret (False, [], n, found)"
| "exists_steps fl grp param group_name found n (l # ls) =
    (let line = clean l in
     if line = [] then exists_steps fl grp param group_name found (Suc n) ls
     else cbnd (lift (is_group_decl line)) (\<lambda>gd. case gd of
         Some name \<Rightarrow>
           if \<not> found then
             cseq (vsay fl (''[VC] Found group ['' @ name @ ''] ''))
                  (exists_steps fl grp param name (name = grp) (Suc n) ls)
           else
             cseq (vsay fl (''[VC] No param in group ['' @ name @ ''], group ends at  '' @ show_nat n))
                  (cret (False, [], n, found))
       | None \<Rightarrow>
           if \<not> found then exists_steps fl grp param group_name found (Suc n) ls
           else cbnd (lift (parse_param_value line)) (\<lambda>(p, v).
             if p = param then
               cseq (vsay fl (''[VC] in group ['' @ group_name @ ''] found '' @ p @ '':'' @ v @ '' at line '' @ show_nat n))
                    (cret (True, v, n, found))
             else exists_steps fl grp param group_name found (Suc n) ls)))"

definition config_exists ::
  "flags \<Rightarrow> string \<Rightarrow> string list \<Rightarrow> string \<Rightarrow> string \<Rightarrow> (bool \<times> string \<times> nat \<times> bool) conf" where
  "config_exists fl path lines grp param =
     cseq (vsay fl (''[VC] Check for existanse ['' @ grp @ ''] '' @ param @ '' in '' @ qpath path))
          (exists_steps fl grp param [] False 0 lines)"

definition config_set :: "flags \<Rightarrow> string \<Rightarrow> string list \<Rightarrow> string \<Rightarrow> string \<Rightarrow> string \<Rightarrow> string list conf" where
  "config_set fl path lines grp param val =
     cseq (vsay fl (''[VC] set ['' @ grp @ ''] '' @ param @ ''='' @ val))
    (cbnd (config_exists fl path lines grp param) (\<lambda>(param_exists, _, line_set_to, group_exists).
     let entry = param @ ''='' @ val in
     cret (if param_exists then lines[line_set_to := entry]
          else let lines1 = (if group_exists then lines else insert_at line_set_to (''['' @ grp @ '']'') lines);
                   at = (if group_exists then line_set_to else Suc line_set_to) in
            insert_at (Suc at) [CHR 0x0A] (insert_at at entry lines1))))"

definition config_replace_placeholders :: "flags \<Rightarrow> string \<Rightarrow> string list \<Rightarrow> string list conf" where
  "config_replace_placeholders fl path lines =
     cseq (vsay fl (''[VC] replacing placeholders in'' @ qpath path))
    (cbnd (cget variable_storage) (\<lambda>vs. lift (replace_placeholders vs lines)))"

text \<open>\<open>save\<close> does not notice a file it cannot open.\<close>

fun say_all :: "string list \<Rightarrow> unit conf" where
  "say_all [] = cret ()"
| "say_all (l # ls) = cseq (say l) (say_all ls)"

definition save_config :: "conf_env \<Rightarrow> flags \<Rightarrow> string \<Rightarrow> string list \<Rightarrow> bool conf" where
  "save_config e fl p lines =
     cseq (vsay fl (''[VC] saving '' @ show_nat (length lines) @ '' lines to '' @ qpath p))
    (if dryrun fl then cseq (say_all lines) (cret True)
     else if can_write e p then cseq (write_file p (save_lines lines)) (cret True)
     else cret True)"

text \<open>\<open>substitute_variables\<close> reads the global storage.\<close>

abbreviation csubst :: "string \<Rightarrow> string conf" where
  "csubst raw \<equiv> cbnd (cget variable_storage) (\<lambda>vs. lift (substitute_variables vs raw))"

section \<open>Running programs\<close>

named_theorems conf_simps \<open>equations that run a command symbolically\<close>

lemma cret_app [conf_simps]: "cret a s = (Val a, s)"
  and cthrow_app [conf_simps]: "cthrow m s = (Throws m, s)"
  and lift_app [conf_simps]: "lift r s = (r, s)"
  and cget_app [conf_simps]: "cget f s = (Val (f s), s)"
  and print_app [conf_simps]: "print m s = (Val (), s\<lparr>out := out s @ [m]\<rparr>)"
  and say_app [conf_simps]: "say m s = (Val (), s\<lparr>out := out s @ [endl m]\<rparr>)"
  and vprint_app [conf_simps]: "vprint fl m s = (Val (), s\<lparr>out := out s @ (if verbose fl then [m] else [])\<rparr>)"
  and vsay_app [conf_simps]: "vsay fl m s = (Val (), s\<lparr>out := out s @ (if verbose fl then [endl m] else [])\<rparr>)"
  and cpath_app [conf_simps]: "cpath n st s = (Val (config_path (variable_storage s) n CFG_GENERAL st), s)"
  and fexists_app [conf_simps]: "fexists p s = (Val (files s p \<noteq> None), s)"
  and write_file_app [conf_simps]: "write_file p c s = (Val (), s\<lparr>files := (files s)(p := Some c)\<rparr>)"
  by (simp_all add: cret_def cthrow_def lift_def cget_def print_def say_def vprint_def vsay_def cpath_def fexists_def write_file_def)

lemma cbnd_app [conf_simps]:
  "cbnd m k s = (case m s of
      (Val a, t) \<Rightarrow> k a t | (Throws e, t) \<Rightarrow> (Throws e, t) | (Undef u, t) \<Rightarrow> (Undef u, t))"
  by (simp add: cbnd_def)

lemma cseq_app [conf_simps]:
  "cseq m k s = (case m s of
      (Val a, t) \<Rightarrow> k t | (Throws e, t) \<Rightarrow> (Throws e, t) | (Undef u, t) \<Rightarrow> (Undef u, t))"
  by (simp add: cseq_def cbnd_def)

lemma fs_copy_app [conf_simps]:
  "fs_copy e ow src dst s = (case files s src of
      None \<Rightarrow> (Throws ''filesystem error: cannot copy'', s)
    | Some c \<Rightarrow> if files s dst \<noteq> None \<and> \<not> ow then (Throws ''filesystem error: cannot copy: File exists'', s)
        else if \<not> can_write e dst then (Throws ''filesystem error: cannot copy'', s)
        else (Val (), s\<lparr>files := (files s)(dst := Some c)\<rparr>))"
  by (simp add: fs_copy_def conf_simps split: option.split)

lemma fs_rename_app [conf_simps]:
  "fs_rename e src dst s = (case files s src of
      None \<Rightarrow> (Throws ''filesystem error: cannot rename'', s)
    | Some c \<Rightarrow> if \<not> can_write e dst then (Throws ''filesystem error: cannot rename'', s)
        else (Val (), s\<lparr>files := (files s)(src := None, dst := Some c)\<rparr>))"
  by (simp add: fs_rename_def conf_simps split: option.split)

lemma open_config_app [conf_simps]:
  "open_config fl p s = (case files s p of
      None \<Rightarrow> (Throws (''Config path ['' @ takeWhile (\<lambda>c. c \<noteq> CHR 0x00) p @ ''] not exitsts''), s)
    | Some c \<Rightarrow> (Val (load_lines c), s\<lparr>out := out s @ (if verbose fl
        then [endl (''[VC] Loaded '' @ show_nat (length (load_lines c)) @ '' lines form '' @ qpath p)] else [])\<rparr>))"
  by (simp add: open_config_def conf_simps Let_def split: option.split)

lemma say_all_run [conf_simps]: "say_all ls s = (Val (), s\<lparr>out := out s @ map endl ls\<rparr>)"
  by (induction ls arbitrary: s) (simp_all add: conf_simps)

lemma save_config_app [conf_simps]:
  "save_config e fl p ls s = (let t = s\<lparr>out := out s @ (if verbose fl
       then [endl (''[VC] saving '' @ show_nat (length ls) @ '' lines to '' @ qpath p)] else [])\<rparr> in
     (Val True, if dryrun fl then t\<lparr>out := out t @ map endl ls\<rparr>
        else if can_write e p then t\<lparr>files := (files t)(p := Some (save_lines ls))\<rparr> else t))"
  by (simp add: save_config_def conf_simps Let_def)

text \<open>
  The programs of the class are its functions on lines, with messages. \<open>says m r\<close>: every run of \<open>m\<close> has the result \<open>r\<close> and
  only prints.
\<close>

definition says :: "'a conf \<Rightarrow> 'a cxx \<Rightarrow> bool" where
  "says m r \<longleftrightarrow> (\<forall>s. \<exists>ms. m s = (r, s\<lparr>out := out s @ ms\<rparr>))"

lemma says_run: "says m r \<Longrightarrow> \<exists>ms. m s = (r, s\<lparr>out := out s @ ms\<rparr>)"
  by (simp add: says_def)

lemma says_basic: "says (cret a) (Val a)" "says (cthrow x) (Throws x)" "says (lift r) r"
  "says (print m) (Val ())" "says (say m) (Val ())" "says (vprint fl m) (Val ())" "says (vsay fl m) (Val ())"
  by (auto simp: says_def conf_simps intro: exI [of _ "[]"])

lemma says_cbnd:
  assumes "says m r" and "\<And>a. r = Val a \<Longrightarrow> says (k a) (f a)"
  shows "says (cbnd m k) (cbind r f)"
  unfolding says_def
proof
  fix s
  obtain ms where m: "m s = (r, s\<lparr>out := out s @ ms\<rparr>)" using assms(1) says_run by blast
  show "\<exists>ms. cbnd m k s = (cbind r f, s\<lparr>out := out s @ ms\<rparr>)"
  proof (cases r)
    case (Val a)
    then obtain ns where "k a (s\<lparr>out := out s @ ms\<rparr>) = (f a, s\<lparr>out := (out s @ ms) @ ns\<rparr>)"
      using says_run [OF assms(2) [OF Val], of "s\<lparr>out := out s @ ms\<rparr>"] by auto
    with m Val show ?thesis by (auto simp: cbnd_app)
  qed (use m in \<open>auto simp: cbnd_app\<close>)
qed

lemma says_cseq: "says m (Val ()) \<Longrightarrow> says k r \<Longrightarrow> says (cseq m k) r"
  unfolding cseq_def using says_cbnd [of m "Val ()" "\<lambda>_. k" "\<lambda>_. r"] by simp

lemma says_if: "(c \<Longrightarrow> says m r) \<Longrightarrow> (\<not> c \<Longrightarrow> says n q) \<Longrightarrow> says (if c then m else n) (if c then r else q)"
  by simp

lemma exists_steps_says: "says (exists_steps fl grp param gn found n ls) (exists_from grp param found n ls)"
proof (induction ls arbitrary: gn found n)
  case (Cons l ls)
  show ?case
    unfolding exists_steps.simps exists_from.simps Let_def
    by (intro says_if says_cbnd says_basic Cons)
      (auto split: option.split prod.split intro!: says_if says_cbnd says_cseq says_basic Cons)
qed (simp add: says_basic)

lemma config_exists_says: "says (config_exists fl path ls g p) (cfg_exists ls g p)"
  unfolding config_exists_def cfg_exists_def by (intro says_cseq says_basic exists_steps_says)

lemma config_set_says: "says (config_set fl path ls g p v) (cfg_set ls g p v)"
  unfolding config_set_def cfg_set_def Let_def
  by (intro says_cseq says_cbnd says_basic config_exists_says) (auto split: prod.split intro: says_basic)

lemma config_replace_app [conf_simps]:
  "config_replace_placeholders fl path ls s = (replace_placeholders (variable_storage s) ls,
     s\<lparr>out := out s @ (if verbose fl then [endl (''[VC] replacing placeholders in'' @ qpath path)] else [])\<rparr>)"
  by (simp add: config_replace_placeholders_def conf_simps)

lemma cbnd_Val: "m s = (Val a, t) \<Longrightarrow> cbnd m k s = k a t"
  by (simp add: conf_simps)

lemma cbnd_Val_iff: "cbnd m k s = (Val b, t) \<longleftrightarrow> (\<exists>a u. m s = (Val a, u) \<and> k a u = (Val b, t))"
  by (auto simp: cbnd_app split: cxx.splits prod.splits)

section \<open>What a program leaves alone\<close>

text \<open>
  \<open>conf_keeps R m\<close>: every run of \<open>m\<close>, however it ends, relates its start and its end by \<open>R\<close>. The rules hold for
  every reflexive and transitive relation.
\<close>

definition conf_keeps :: "(conf_state \<Rightarrow> conf_state \<Rightarrow> bool) \<Rightarrow> 'a conf \<Rightarrow> bool" where
  "conf_keeps R m \<longleftrightarrow> (\<forall>s. R s (snd (m s)))"

locale conf_preorder =
  fixes R :: "conf_state \<Rightarrow> conf_state \<Rightarrow> bool"
  assumes R_refl: "R s s"
    and R_trans: "R s t \<Longrightarrow> R t u \<Longrightarrow> R s u"
begin

lemma keeps_pure: "conf_keeps R (cret a)" "conf_keeps R (cthrow m)" "conf_keeps R (lift r)" "conf_keeps R (cget f)"
  "conf_keeps R (cpath n st)" "conf_keeps R (fexists p)"
  by (simp_all add: conf_keeps_def conf_simps R_refl)

lemma keeps_cbnd:
  assumes "conf_keeps R m" and "\<And>a. conf_keeps R (k a)"
  shows "conf_keeps R (cbnd m k)"
  unfolding conf_keeps_def
proof
  fix s
  obtain r t where m: "m s = (r, t)" by fastforce
  with assms(1) have st: "R s t" unfolding conf_keeps_def by (metis snd_conv)
  show "R s (snd (cbnd m k s))"
  proof (cases r)
    case (Val a)
    with assms(2) [of a] have "R t (snd (k a t))" by (simp add: conf_keeps_def)
    with st R_trans m Val show ?thesis by (auto simp: conf_simps)
  qed (use m st in \<open>simp_all add: conf_simps\<close>)
qed

lemma keeps_cseq: "conf_keeps R m \<Longrightarrow> conf_keeps R k \<Longrightarrow> conf_keeps R (cseq m k)"
  unfolding cseq_def by (rule keeps_cbnd)

lemma keeps_if: "(c \<Longrightarrow> conf_keeps R p) \<Longrightarrow> (\<not> c \<Longrightarrow> conf_keeps R q) \<Longrightarrow> conf_keeps R (if c then p else q)"
  by simp

lemma keeps_let: "(\<And>x. conf_keeps R (f x)) \<Longrightarrow> conf_keeps R (Let v f)"
  by (simp add: Let_def)

lemma keeps_prod: "(\<And>x y. conf_keeps R (f x y)) \<Longrightarrow> conf_keeps R (case v of (x, y) \<Rightarrow> f x y)"
  by (simp split: prod.split)

lemma keeps_option: "conf_keeps R p \<Longrightarrow> (\<And>x. conf_keeps R (f x)) \<Longrightarrow> conf_keeps R (case v of None \<Rightarrow> p | Some x \<Rightarrow> f x)"
  by (simp split: option.split)

lemma keeps_listing:
  "conf_keeps R p \<Longrightarrow> conf_keeps R q \<Longrightarrow> (\<And>x. conf_keeps R (f x))
    \<Longrightarrow> conf_keeps R (case v of No_Dir \<Rightarrow> p | Not_A_Dir \<Rightarrow> q | Entries x \<Rightarrow> f x)"
  by (simp split: dir_listing.split)

lemmas keeps_rules = keeps_pure keeps_cbnd keeps_cseq keeps_if keeps_let keeps_prod keeps_option keeps_listing

end

text \<open>\<open>frozen\<close>: the file system stays as it is. \<open>confined\<close>: so do the variables.\<close>

definition same_fs :: "conf_state \<Rightarrow> conf_state \<Rightarrow> bool" where
  "same_fs s t \<longleftrightarrow> files t = files s"

definition same_conf :: "conf_state \<Rightarrow> conf_state \<Rightarrow> bool" where
  "same_conf s t \<longleftrightarrow> files t = files s \<and> variable_storage t = variable_storage s"

abbreviation frozen :: "'a conf \<Rightarrow> bool" where
  "frozen \<equiv> conf_keeps same_fs"

abbreviation confined :: "'a conf \<Rightarrow> bool" where
  "confined \<equiv> conf_keeps same_conf"

interpretation fs: conf_preorder same_fs
  by unfold_locales (simp_all add: same_fs_def)

interpretation conf: conf_preorder same_conf
  by unfold_locales (simp_all add: same_conf_def)

lemma frozen_iff: "frozen m \<longleftrightarrow> (\<forall>s. files (snd (m s)) = files s)"
  by (simp add: conf_keeps_def same_fs_def)

lemma confined_iff:
  "confined m \<longleftrightarrow> (\<forall>s. files (snd (m s)) = files s \<and> variable_storage (snd (m s)) = variable_storage s)"
  by (simp add: conf_keeps_def same_conf_def)

lemma confined_frozen: "confined m \<Longrightarrow> frozen m"
  by (simp add: frozen_iff confined_iff)

lemma says_confined: "says m r \<Longrightarrow> confined m"
  unfolding confined_iff
proof
  fix s assume "says m r"
  from says_run [OF this, of s] show "files (snd (m s)) = files s \<and> variable_storage (snd (m s)) = variable_storage s"
    by auto
qed

lemma say_confined: "confined (print m)" "confined (say m)" "confined (vprint fl m)" "confined (vsay fl m)" "confined (say_all ls)"
  "confined (open_config fl p)" "confined (config_exists fl p ls g q)" "confined (config_set fl p ls g q v)"
  "confined (config_replace_placeholders fl p ls)"
  by (simp_all add: says_basic [THEN says_confined] config_exists_says [THEN says_confined]
      config_set_says [THEN says_confined]) (simp_all add: confined_iff conf_simps split: option.split)

lemma frozen_save_dry: "dryrun fl \<Longrightarrow> frozen (save_config e fl p ls)"
  by (simp add: frozen_iff conf_simps Let_def)

lemmas frozen_rules = fs.keeps_rules say_confined [THEN confined_frozen]
lemmas confined_rules = conf.keeps_rules say_confined

end
