(* ===== verification/Conf_Service.thy ===== *)
theory Conf_Service
  imports Conf_State
begin

text \<open>
  Service control: \<open>CServiceControl\<close> on Linux (\<^verbatim>\<open>conftool/service/service_linux.cpp\<close>), macOS
  (\<^verbatim>\<open>service_macos.cpp\<close>, \<^verbatim>\<open>macos_auth.m\<close>) and Windows (\<^verbatim>\<open>service_win.cpp\<close>), and the command \<^verbatim>\<open>service\<close> on top of
  it (\<^verbatim>\<open>conftool/commands/ServiceCommand.cpp\<close>). The interface is a locale: what every system promises the
  command. It is interpreted for each of the three.
\<close>

unbundle bit_operations_syntax

section \<open>The interface\<close>

record service_ops =
  enable :: "bool conf"
  disable :: "bool conf"
  serviceStatus :: "32 word conf"
  start :: "bool conf"
  stop :: "bool conf"
  restart :: "bool conf"

definition SERVICE_ENABLED :: "32 word" where
  "SERVICE_ENABLED = push_bit 0 1"

definition PROCESS_RUNNING :: "32 word" where
  "PROCESS_RUNNING = push_bit 2 1"

text \<open>\<open>std::system\<close>\<close>

definition shell :: "conf_env \<Rightarrow> string \<Rightarrow> int conf" where
  "shell e cmd = (\<lambda>s. (Val (system e (ext_calls s) cmd), s\<lparr>ext_calls := ext_calls s @ [Shell cmd]\<rparr>))"

text \<open>\<open>res == 0 ? true : false\<close>\<close>

definition succeeded :: "int conf \<Rightarrow> bool conf" where
  "succeeded m = cbnd m (\<lambda>res. cret (res = 0))"

definition status_of :: "bool \<Rightarrow> bool \<Rightarrow> 32 word" where
  "status_of enabled running =
     (if enabled then SERVICE_ENABLED else 0) OR (if running then PROCESS_RUNNING else 0)"

section \<open>Linux\<close>

definition systemctl :: "conf_env \<Rightarrow> string \<Rightarrow> bool conf" where
  "systemctl e action = succeeded (shell e (''systemctl '' @ action @ '' cellframe-node.service > /dev/null''))"

definition linux_enable :: "conf_env \<Rightarrow> bool conf" where
  "linux_enable e = cbnd (cget variable_storage) (\<lambda>vs. succeeded (shell e (''systemctl enable ''
     @ path_of (get_var vs ''CONFIGS_PATH'') [''share'', ''cellframe-node.service > /dev/null''])))"

definition linux_status :: "conf_env \<Rightarrow> 32 word conf" where
  "linux_status e =
     cbnd (systemctl e ''is-enabled'') (\<lambda>enabled.
     cbnd (succeeded (shell e ''pgrep -x cellframe-node > /dev/null'')) (\<lambda>running.
     cret (status_of enabled running)))"

definition linux_service :: "conf_env \<Rightarrow> service_ops" where
  "linux_service e = \<lparr>enable = linux_enable e, disable = systemctl e ''disable'', serviceStatus = linux_status e,
     start = systemctl e ''start'', stop = systemctl e ''stop'', restart = systemctl e ''restart''\<rparr>"

section \<open>macOS\<close>

text \<open>
  \<open>callSecScript\<close> runs a shell command through AppleScript and returns 0 whatever happened;
  \<open>callSec\<close>, which nothing calls, looks at the result of the authorisation.
\<close>

definition callSecScript :: "string \<Rightarrow> int conf" where
  "callSecScript script = (\<lambda>s. (Val 0, s\<lparr>ext_calls := ext_calls s @
     [AppleScript (''do shell script '' @ [CHR 0x22] @ script @ [CHR 0x22] @ '' with administrator privileges'')]\<rparr>))"

definition callSec :: "conf_env \<Rightarrow> string \<Rightarrow> string list \<Rightarrow> int conf" where
  "callSec e tool args = (\<lambda>s. (Val (if auth_execute e (ext_calls s) tool args = 0 then 0 else -1),
     s\<lparr>ext_calls := ext_calls s @ [AuthTool tool args]\<rparr>))"

definition launchctl :: "string \<Rightarrow> bool conf" where
  "launchctl verb = succeeded (callSecScript
     (''launchctl '' @ verb @ '' -w /Library/LaunchDaemons/com.demlabs.cellframe-node.plist''))"

definition apple_enable :: "bool conf" where
  "apple_enable = launchctl ''load''"

definition apple_disable :: "bool conf" where
  "apple_disable = launchctl ''unload''"

definition apple_status :: "conf_env \<Rightarrow> 32 word conf" where
  "apple_status e =
     cbnd (succeeded (shell e ''launchctl print system/com.demlabs.cellframe-node > /dev/null'')) (\<lambda>enabled.
     cbnd (succeeded (shell e ''pgrep -x cellframe-node > /dev/null'')) (\<lambda>running.
     cret (status_of enabled running)))"

definition apple_restart :: "bool conf" where
  "apple_restart = cbnd apple_disable (\<lambda>_. cbnd apple_enable (\<lambda>_. cret True))"

definition apple_service :: "conf_env \<Rightarrow> service_ops" where
  "apple_service e = \<lparr>enable = apple_enable, disable = apple_disable, serviceStatus = apple_status e,
     start = apple_enable, stop = apple_disable, restart = apple_restart\<rparr>"

section \<open>Windows\<close>

text \<open>\<open>_tcsicmp\<close>: equal up to the case of the letters A to Z.\<close>

definition to_lower :: "char \<Rightarrow> char" where
  "to_lower c = (let n = of_char c :: nat in if 65 \<le> n \<and> n \<le> 90 then char_of (n + 32) else c)"

definition tcsicmp_eq :: "string \<Rightarrow> string \<Rightarrow> bool" where
  "tcsicmp_eq a b \<longleftrightarrow> map to_lower a = map to_lower b"

text \<open>\<open>isProcessRunning\<close>: the loop over the snapshot; an empty snapshot is \<open>Process32First\<close> returning FALSE.\<close>

fun isProcessRunning :: "string \<Rightarrow> string list \<Rightarrow> bool" where
  "isProcessRunning executableName [] = False"
| "isProcessRunning executableName (szExeFile # entries) =
     (if tcsicmp_eq szExeFile executableName then True else isProcessRunning executableName entries)"

definition ERROR_CANCELLED :: "32 word" where
  "ERROR_CANCELLED = 1223"

text \<open>
  \<open>runShellAdmin\<close>. \<open>rc\<close> has no initial value: when \<open>GetExitCodeProcess\<close> fails and writes nothing, returning it reads
  an uninitialised variable.
\<close>

definition runShellAdmin :: "conf_env \<Rightarrow> string \<Rightarrow> string \<Rightarrow> int conf" where
  "runShellAdmin e app cmd =
     cbnd (cget ext_calls) (\<lambda>h.
     let sei = \<lparr>lpVerb = ''runas'', lpFile = app, lpParameters = cmd, fMask = 0, hProcess = 0\<rparr>;
         (ok, sei2) = ShellExecuteEx (win e) h sei in
     cseq (\<lambda>s. (Val (), s\<lparr>ext_calls := h @ [RunAs app cmd]\<rparr>))
    (cbnd (cget ext_calls) (\<lambda>h2.
     let dwError = GetLastError (win e) h2;
         finish = (case GetExitCodeProcess (win e) h2 (hProcess sei2) of
             None \<Rightarrow> lift (Undef Uninit)
           | Some rc \<Rightarrow> cret (sint rc)) in
     if \<not> ok then
       if dwError = ERROR_CANCELLED then cseq (say ''End user did not allow elevation'') (cret (-1))
       else cseq (say (''Exec failed'' @ show_nat (unat dwError))) finish
     else finish)))"

definition windows_enable :: "conf_env \<Rightarrow> bool conf" where
  "windows_enable e = cbnd (cget variable_storage) (\<lambda>vs.
     let base = get_var vs ''NODE_BINARY_PATH'';
         nodebinpath = (if base = [] \<or> last base = CHR ''/'' \<or> last base = CHR 0x5C
           then base @ ''cellframe-node.exe'' else base @ [CHR 0x5C] @ ''cellframe-node.exe'') in
     succeeded (runShellAdmin e ''schtasks.exe'' (''/Create /F /RL highest /SC onlogon /TR '' @ [CHR 0x22, CHR 0x27]
       @ nodebinpath @ [CHR 0x27, CHR 0x22] @ '' /TN CellframeNode'')))"

definition windows_disable :: "conf_env \<Rightarrow> bool conf" where
  "windows_disable e = succeeded (runShellAdmin e ''schtasks.exe'' ''/Delete  /TN CellframeNode /f'')"

definition windows_status :: "conf_env \<Rightarrow> 32 word conf" where
  "windows_status e =
     cbnd (succeeded (shell e ''schtasks /query  /TN CellframeNode'')) (\<lambda>enabled.
     cbnd (cget ext_calls) (\<lambda>h.
     let running = isProcessRunning ''cellframe-node.exe'' (process_snapshot (win e) h) in
     cseq (if running then say ''proc running'' else cret ())
          (cret (status_of enabled running))))"

definition windows_start :: "conf_env \<Rightarrow> bool conf" where
  "windows_start e = succeeded (runShellAdmin e ''schtasks.exe'' ''/run  /TN CellframeNode'')"

definition windows_stop :: "conf_env \<Rightarrow> bool conf" where
  "windows_stop e = succeeded (runShellAdmin e ''taskkill.exe'' ''/IM cellframe-node.exe  /F'')"

definition windows_restart :: "conf_env \<Rightarrow> bool conf" where
  "windows_restart e = cbnd (windows_stop e) (\<lambda>_. cbnd (windows_start e) (\<lambda>_. cret True))"

definition windows_service :: "conf_env \<Rightarrow> service_ops" where
  "windows_service e = \<lparr>enable = windows_enable e, disable = windows_disable e, serviceStatus = windows_status e,
     start = windows_start e, stop = windows_stop e, restart = windows_restart e\<rparr>"

section \<open>The command\<close>

definition CServiceControl :: "conf_env \<Rightarrow> service_ops" where
  "CServiceControl e = (case os e of
      OS_LINUX \<Rightarrow> linux_service e
    | OS_ANDROID \<Rightarrow> linux_service e
    | OS_APPLE \<Rightarrow> apple_service e
    | OS_WINDOWS \<Rightarrow> windows_service e)"

definition report :: "bool conf \<Rightarrow> string \<Rightarrow> bool conf" where
  "report m msg = cbnd m (\<lambda>ok. cseq (say (if ok then msg else ''error'')) (cret True))"

definition exec_service :: "service_ops \<Rightarrow> string \<Rightarrow> bool conf" where
  "exec_service ops action =
    (if action = ''enable'' then report (enable ops) ''enabled''
     else if action = ''disable'' then report (disable ops) ''disabled''
     else if action = ''status'' then
       cbnd (serviceStatus ops) (\<lambda>status.
       cseq (say (if status AND SERVICE_ENABLED \<noteq> 0 then ''service: enabled'' else ''service: disabled''))
      (cseq (say (if status AND PROCESS_RUNNING \<noteq> 0 then ''process: running'' else ''process: notfound''))
            (cret True)))
     else if action = ''start'' then report (start ops) ''started''
     else if action = ''stop'' then report (stop ops) ''stoped''
     else if action = ''restart'' then report (restart ops) ''restarted''
     else cret True)"

section \<open>What every system promises\<close>

text \<open>
  No operation touches the configuration files or the variables, none throws, and a status that is
  returned has no bit but the two of \<open>EServiceStatus\<close>.
\<close>

definition no_throw :: "'a conf \<Rightarrow> bool" where
  "no_throw m \<longleftrightarrow> (\<forall>s e. fst (m s) \<noteq> Throws e)"

lemma no_throw_rules: "no_throw (cret a)" "no_throw (cget f)" "no_throw (say m)" "no_throw (lift (Undef u))"
  by (simp_all add: no_throw_def conf_simps)

lemma no_throw_cbnd:
  assumes "no_throw m" and "\<And>a. no_throw (k a)"
  shows "no_throw (cbnd m k)"
  unfolding no_throw_def
proof (intro allI)
  fix s e
  obtain r t where "m s = (r, t)" by fastforce
  with assms show "fst (cbnd m k s) \<noteq> Throws e"
    by (cases r) (auto simp: conf_simps no_throw_def, metis fst_conv)
qed

lemma no_throw_cseq: "no_throw m \<Longrightarrow> no_throw k \<Longrightarrow> no_throw (cseq m k)"
  unfolding cseq_def by (rule no_throw_cbnd)

locale service_control =
  fixes ops :: service_ops
  assumes ops_confined: "confined (enable ops)" "confined (disable ops)" "confined (serviceStatus ops)"
      "confined (start ops)" "confined (stop ops)" "confined (restart ops)"
    and ops_no_throw: "no_throw (enable ops)" "no_throw (disable ops)" "no_throw (serviceStatus ops)"
      "no_throw (start ops)" "no_throw (stop ops)" "no_throw (restart ops)"
    and status_bits: "serviceStatus ops s = (Val w, t) \<Longrightarrow> w AND NOT (SERVICE_ENABLED OR PROCESS_RUNNING) = 0"
begin

lemma report_confined: "confined m \<Longrightarrow> confined (report m msg)"
  unfolding report_def by (intro confined_rules)

lemma report_no_throw: "no_throw m \<Longrightarrow> no_throw (report m msg)"
  unfolding report_def by (intro no_throw_cbnd no_throw_cseq no_throw_rules)

lemma exec_confined: "confined (exec_service ops action)"
  unfolding exec_service_def by (intro confined_rules report_confined ops_confined)

lemma exec_no_throw: "no_throw (exec_service ops action)"
  unfolding exec_service_def
  by (auto intro!: no_throw_cbnd no_throw_cseq no_throw_rules report_no_throw ops_no_throw)

end

section \<open>The three systems\<close>

lemma shell_confined: "confined (shell e cmd)" "confined (callSecScript script)" "confined (callSec e tool args)"
  by (simp_all add: confined_iff shell_def callSecScript_def callSec_def)

lemma shell_no_throw: "no_throw (shell e cmd)" "no_throw (callSecScript script)" "no_throw (callSec e tool args)"
  by (simp_all add: no_throw_def shell_def callSecScript_def callSec_def)

lemma note_run: "confined (\<lambda>s. (Val (), s\<lparr>ext_calls := h\<rparr>))" "no_throw (\<lambda>s. (Val (), s\<lparr>ext_calls := h\<rparr>))"
  by (simp_all add: confined_iff no_throw_def)

lemma succeeded_rules: "confined m \<Longrightarrow> confined (succeeded m)" "no_throw m \<Longrightarrow> no_throw (succeeded m)"
  unfolding succeeded_def by (intro confined_rules; assumption) (intro no_throw_cbnd no_throw_rules; assumption)

lemma runShellAdmin_confined: "confined (runShellAdmin e app cmd)"
  unfolding runShellAdmin_def Let_def by (intro confined_rules note_run)

lemma no_throw_split:
  "(c \<Longrightarrow> no_throw p) \<Longrightarrow> (\<not> c \<Longrightarrow> no_throw q) \<Longrightarrow> no_throw (if c then p else q)"
  "no_throw p \<Longrightarrow> (\<And>x. no_throw (f x)) \<Longrightarrow> no_throw (case v of None \<Rightarrow> p | Some x \<Rightarrow> f x)"
  "(\<And>x y. no_throw (g x y)) \<Longrightarrow> no_throw (case w of (x, y) \<Rightarrow> g x y)"
  "(\<And>x. no_throw (h x)) \<Longrightarrow> no_throw (Let u h)"
  by (simp_all split: option.split prod.split)

lemmas no_throw_all = no_throw_rules no_throw_cbnd no_throw_cseq no_throw_split

lemma runShellAdmin_no_throw: "no_throw (runShellAdmin e app cmd)"
  unfolding runShellAdmin_def Let_def by (intro no_throw_all note_run)

lemma status_of_bits: "status_of a b AND NOT SERVICE_ENABLED AND NOT PROCESS_RUNNING = 0"
  by (simp add: status_of_def SERVICE_ENABLED_def PROCESS_RUNNING_def)

lemma status_of_tests:
  "status_of a b AND SERVICE_ENABLED \<noteq> 0 \<longleftrightarrow> a" "status_of a b AND PROCESS_RUNNING \<noteq> 0 \<longleftrightarrow> b"
  by (simp_all add: status_of_def SERVICE_ENABLED_def PROCESS_RUNNING_def)

lemma statuses_bits:
  "linux_status e s = (Val w, t) \<Longrightarrow> w AND NOT (SERVICE_ENABLED OR PROCESS_RUNNING) = 0"
  "apple_status e s = (Val w, t) \<Longrightarrow> w AND NOT (SERVICE_ENABLED OR PROCESS_RUNNING) = 0"
  "windows_status e s = (Val w, t) \<Longrightarrow> w AND NOT (SERVICE_ENABLED OR PROCESS_RUNNING) = 0"
  by (auto simp: linux_status_def apple_status_def windows_status_def systemctl_def succeeded_def shell_def conf_simps
      status_of_bits Let_def split: if_splits)

lemmas linux_defs = linux_service_def linux_enable_def systemctl_def linux_status_def
lemmas apple_defs = apple_service_def apple_enable_def apple_disable_def launchctl_def apple_status_def apple_restart_def
lemmas windows_defs = windows_service_def windows_enable_def windows_disable_def windows_status_def windows_start_def
  windows_stop_def windows_restart_def

interpretation linux: service_control "linux_service e" for e
proof unfold_locales
  show "serviceStatus (linux_service e) s = (Val w, t) \<Longrightarrow> w AND NOT (SERVICE_ENABLED OR PROCESS_RUNNING) = 0" for s w t
    unfolding linux_service_def service_ops.simps by (rule statuses_bits)
qed (unfold linux_defs service_ops.simps; intro confined_rules no_throw_all succeeded_rules shell_confined shell_no_throw)+

interpretation apple: service_control "apple_service e" for e
proof unfold_locales
  show "serviceStatus (apple_service e) s = (Val w, t) \<Longrightarrow> w AND NOT (SERVICE_ENABLED OR PROCESS_RUNNING) = 0" for s w t
    unfolding apple_service_def service_ops.simps by (rule statuses_bits)
qed (unfold apple_defs service_ops.simps; intro confined_rules no_throw_all succeeded_rules shell_confined shell_no_throw)+

interpretation windows: service_control "windows_service e" for e
proof unfold_locales
  show "serviceStatus (windows_service e) s = (Val w, t) \<Longrightarrow> w AND NOT (SERVICE_ENABLED OR PROCESS_RUNNING) = 0" for s w t
    unfolding windows_service_def service_ops.simps by (rule statuses_bits)
qed (unfold windows_defs service_ops.simps; intro confined_rules no_throw_all succeeded_rules shell_confined shell_no_throw
      runShellAdmin_confined runShellAdmin_no_throw)+

interpretation service: service_control "CServiceControl e" for e
  unfolding CServiceControl_def
  by (cases "os e") (simp_all add: linux.service_control_axioms apple.service_control_axioms windows.service_control_axioms)

lemma process_found: "isProcessRunning exe snap \<longleftrightarrow> (\<exists>p \<in> set snap. tcsicmp_eq p exe)"
  by (induction snap) auto

section \<open>Properties\<close>

text \<open>
  On every system the command \<^verbatim>\<open>service\<close> leaves the configuration files and the variables as they are and
  never throws, and a status it obtains is one of the four combinations of \<open>SERVICE_ENABLED\<close> and
  \<open>PROCESS_RUNNING\<close>.
\<close>

theorem service_contract:
  "files (snd (exec_service (CServiceControl e) action s)) = files s
   \<and> variable_storage (snd (exec_service (CServiceControl e) action s)) = variable_storage s
   \<and> fst (exec_service (CServiceControl e) action s) \<noteq> Throws m
   \<and> (case serviceStatus (CServiceControl e) s of (Val w, _) \<Rightarrow> w AND NOT (SERVICE_ENABLED OR PROCESS_RUNNING) = 0 | _ \<Rightarrow> True)"
  using service.exec_confined [of e action] service.exec_no_throw [of e action] service.status_bits [of e s]
  by (auto simp: confined_iff no_throw_def split: cxx.split prod.split)

definition enabled_query :: "host_os \<Rightarrow> string" where
  "enabled_query h = (case h of
      OS_APPLE \<Rightarrow> ''launchctl print system/com.demlabs.cellframe-node > /dev/null''
    | OS_WINDOWS \<Rightarrow> ''schtasks /query  /TN CellframeNode''
    | _ \<Rightarrow> ''systemctl is-enabled cellframe-node.service > /dev/null'')"

definition process_seen :: "conf_env \<Rightarrow> ext_call list \<Rightarrow> bool" where
  "process_seen e h = (if os e = OS_WINDOWS
     then \<exists>p \<in> set (process_snapshot (win e) h). tcsicmp_eq p ''cellframe-node.exe''
     else system e h ''pgrep -x cellframe-node > /dev/null'' = 0)"

text \<open>
  What the user is told. On Linux the command reports success exactly when the service manager
  ended with 0. On macOS it reports success whatever the system answers, because the result of the
  script is dropped. On all systems \<^verbatim>\<open>status\<close> says \<^verbatim>\<open>enabled\<close> exactly when the query of the service succeeded,
  and \<^verbatim>\<open>running\<close> exactly when the process was found.
\<close>

theorem service_reports:
  "last (out (snd (exec_service (linux_service e) ''start'' s))) =
     (if system e (ext_calls s) ''systemctl start cellframe-node.service > /dev/null'' = 0 then endl ''started'' else endl ''error'')
   \<and> last (out (snd (exec_service (apple_service e) ''start'' s))) = endl ''started''
   \<and> (let h = ext_calls s @ [Shell (enabled_query (os e))];
          t = snd (exec_service (CServiceControl e) ''status'' s) in
      drop (length (out t) - 2) (out t) =
        [if system e (ext_calls s) (enabled_query (os e)) = 0 then endl ''service: enabled'' else endl ''service: disabled'',
         if process_seen e h then endl ''process: running'' else endl ''process: notfound''])"
proof -
  have "drop (length (out t) - 2) (out t) =
        [if system e (ext_calls s) (enabled_query (os e)) = 0 then endl ''service: enabled'' else endl ''service: disabled'',
         if process_seen e (ext_calls s @ [Shell (enabled_query (os e))]) then endl ''process: running'' else endl ''process: notfound'']"
    if "t = snd (exec_service (CServiceControl e) ''status'' s)" for t
    unfolding that
    by (cases "os e")
      (simp_all add: exec_service_def CServiceControl_def linux_defs apple_defs windows_defs succeeded_def shell_def
        conf_simps enabled_query_def process_seen_def process_found status_of_tests Let_def)
  moreover have "last (out (snd (exec_service (linux_service e) ''start'' s))) =
     (if system e (ext_calls s) ''systemctl start cellframe-node.service > /dev/null'' = 0 then endl ''started'' else endl ''error'')"
    by (simp add: exec_service_def linux_defs succeeded_def shell_def report_def conf_simps)
  moreover have "last (out (snd (exec_service (apple_service e) ''start'' s))) = endl ''started''"
    by (simp add: exec_service_def apple_defs succeeded_def callSecScript_def report_def conf_simps)
  ultimately show ?thesis by (simp only: Let_def)
qed

text \<open>
  On Windows the result of an elevated command never arrives. The tool asks \<open>ShellExecuteEx\<close> for no process
  handle (\<open>fMask\<close> is 0), so the handle stays NULL, \<open>GetExitCodeProcess\<close> fails on it, and the tool returns a
  variable nobody wrote: unless the user refuses the elevation, every action ends in undefined behaviour.
\<close>

theorem windows_exit_code_lost:
  assumes "\<forall>h sei. fMask sei = 0 \<longrightarrow> hProcess (snd (ShellExecuteEx (win e) h sei)) = 0"
    and "\<forall>h. GetExitCodeProcess (win e) h 0 = None" and "\<forall>h. GetLastError (win e) h \<noteq> ERROR_CANCELLED"
    and "action \<in> {''enable'', ''disable'', ''start'', ''stop'', ''restart''}"
  shows "fst (exec_service (windows_service e) action s) = Undef Uninit"
proof -
  have run: "\<exists>t. runShellAdmin e app cmd u = (Undef Uninit, t)" for app cmd u
  proof -
    let ?sei = "\<lparr>lpVerb = ''runas'', lpFile = app, lpParameters = cmd, fMask = 0, hProcess = 0\<rparr>"
    obtain ok sei2 where x: "ShellExecuteEx (win e) (ext_calls u) ?sei = (ok, sei2)" by fastforce
    with assms(1) [rule_format, of ?sei "ext_calls u"] have "hProcess sei2 = 0" by simp
    with x assms(2,3) show ?thesis by (simp add: runShellAdmin_def conf_simps Let_def)
  qed
  have lost: "fst (report m msg s) = Undef Uninit" if "\<exists>t. m s = (Undef Uninit, t)" for m msg
    using that by (auto simp: report_def conf_simps)
  have lost_run: "\<exists>t. succeeded (runShellAdmin e app cmd) u = (Undef Uninit, t)" for app cmd u
    using run [of app cmd u] by (auto simp: succeeded_def conf_simps)
  have stop: "\<exists>t. windows_stop e s = (Undef Uninit, t)" and start: "\<exists>t. windows_start e s = (Undef Uninit, t)"
    and disable: "\<exists>t. windows_disable e s = (Undef Uninit, t)"
    unfolding windows_stop_def windows_start_def windows_disable_def by (rule lost_run)+
  have restart: "\<exists>t. windows_restart e s = (Undef Uninit, t)"
    using stop by (auto simp: windows_restart_def conf_simps)
  have enable: "\<exists>t. windows_enable e s = (Undef Uninit, t)"
    unfolding windows_enable_def cbnd_app cget_app Let_def using lost_run by simp
  note lost_all = lost [of "windows_enable e", OF enable] lost [of "windows_disable e", OF disable]
    lost [of "windows_start e", OF start] lost [of "windows_stop e", OF stop] lost [of "windows_restart e", OF restart]
  from assms(4) show ?thesis
    by (elim insertE emptyE) (simp_all add: exec_service_def windows_service_def lost_all)
qed

text \<open>A system on which the two facts of the Windows interface hold, and a start of the service there.\<close>

definition sample_win :: win_api where
  "sample_win = \<lparr>ShellExecuteEx = (\<lambda>_ sei. (True, sei\<lparr>hProcess := (if fMask sei AND 0x40 = 0 then 0 else 7)\<rparr>)),
     GetLastError = (\<lambda>_. 0), GetExitCodeProcess = (\<lambda>_ h. if h = 0 then None else Some 0), process_snapshot = (\<lambda>_. [])\<rparr>"

definition sample_env :: conf_env where
  "sample_env = \<lparr>os = OS_LINUX, listing = (\<lambda>_ _. Entries []), can_write = (\<lambda>_. True), system = (\<lambda>_ _. 0),
     auth_execute = (\<lambda>_ _ _. 0), win = sample_win\<rparr>"

theorem windows_exit_code_lost_witness:
  "fst (exec_service (windows_service sample_env) ''start'' \<lparr>variable_storage = [], files = (\<lambda>_. None), out = [], ext_calls = []\<rparr>)
     = Undef Uninit"
  by (rule windows_exit_code_lost) (simp_all add: sample_env_def sample_win_def ERROR_CANCELLED_def)

end
