(* ===== verification/Conf_Commands.thy ===== *)
theory Conf_Commands
  imports Conf_Service
begin

text \<open>
  The commands of the configuration tool (\<^verbatim>\<open>conftool/commands\<close>): the registry, what the
  constructors accept and what \<open>execute\<close> does to the variables and to the file system.
\<close>

section \<open>Commands and their constructors\<close>

datatype cond_op = COND_EQUAL | COND_NOT_EQUAL | COND_IS_SET

datatype net_filter = NETS_ALL | NETS_ON | NETS_OFF

datatype cmd =
    Network string string string
  | NetList net_filter
  | Config string string string string string
  | FromTemplate string string
  | If cond_op string string
  | Endif
  | Var string string
  | Service string

definition allowed_states :: "string list" where
  "allowed_states = [''on'', ''off'']"

definition new_network :: "string list \<Rightarrow> cmd conf" where
  "new_network ts =
    (if length ts \<le> 2 then cthrow ''network command has no command arguments''
     else cbnd (cpath (ts ! 1) CFG_TEMPLATE) (\<lambda>tp. cbnd (fexists tp) (\<lambda>ex.
       if \<not> ex then cthrow ''network_cmd: template not found in share config path''
       else let action = ts ! 2 in
         if action = ''default'' then
           (if length ts < 4 \<or> ts ! 3 \<notin> set allowed_states
            then cthrow (''network_cmd: [default] require '' @ [CHR 0x27] @ ''on or off'' @ [CHR 0x27] @ '' state for net'')
            else cret (Network (ts ! 1) action (ts ! 3)))
         else if action = ''ensure'' then
           (if length ts < 4 \<or> ts ! 3 \<notin> set allowed_states
            then cthrow (''network_cmd: [ensure] require '' @ [CHR 0x27] @ ''on or off'' @ [CHR 0x27] @ '' state for net'')
            else cret (Network (ts ! 1) action (ts ! 3)))
         else if action = ''check'' then cret (Network (ts ! 1) action [])
         else cthrow ''network_cmd: unknown action for network_cmd'')))"

definition new_net_list :: "string list \<Rightarrow> cmd conf" where
  "new_net_list ts = cret (NetList
     (if 2 \<le> length ts then (if ts ! 1 = ''on'' then NETS_ON else if ts ! 1 = ''off'' then NETS_OFF else NETS_ALL)
      else NETS_ALL))"

definition new_config :: "string list \<Rightarrow> cmd conf" where
  "new_config ts =
    (if length ts \<le> 4 then cthrow ''config command invalid numbers of arguments''
     else cbnd (cpath (ts ! 1) CFG_TEMPLATE) (\<lambda>tp. cbnd (fexists tp) (\<lambda>ex.
       if ts ! 1 \<noteq> ''cellframe-node'' \<and> \<not> ex
       then cbnd (lift (string_format ''config_cmd: config for [%s] not exitst'' [ts ! 1])) cthrow
       else if ts ! 4 \<notin> {''default'', ''ensure'', ''get''}
       then cbnd (lift (string_format ''config_cmd: allowed actions are get|ensure|default, not %s'' [ts ! 4])) cthrow
       else cret (Config (ts ! 1) (ts ! 2) (ts ! 3) (ts ! 4) (if 5 < length ts then ts ! 5 else [])))))"

definition new_fromtemplate :: "string list \<Rightarrow> cmd conf" where
  "new_fromtemplate ts =
    (if length ts \<le> 2 then cthrow ''config command invalid numbers of arguments''
     else cbnd (cpath (ts ! 1) CFG_TEMPLATE) (\<lambda>tp. cbnd (fexists tp) (\<lambda>ex.
       if ts ! 1 \<noteq> ''cellframe-node'' \<and> \<not> ex then cthrow ''config_cmd: config  not exitst''
       else cret (FromTemplate (ts ! 1) (ts ! 2)))))"

definition new_if :: "string list \<Rightarrow> cmd conf" where
  "new_if ts = (let joined = string_join (tl ts) [];
       eq = contains ''=='' joined; neq = contains ''!='' joined;
       op = (if neq then COND_NOT_EQUAL else if eq then COND_EQUAL else COND_IS_SET);
       tokens = tokenize_cond joined in
     if op = COND_IS_SET \<and> length tokens \<noteq> 1 then cthrow ''IS_SET condition requre only one variable for check''
     else if op \<noteq> COND_IS_SET \<and> length tokens \<noteq> 2 then cthrow ''CONDITION EQ | NEQ requre only two tokens''
     else cret (If op (tokens ! 0) (if op \<noteq> COND_IS_SET then tokens ! 1 else [])))"

definition new_var :: "string list \<Rightarrow> cmd conf" where
  "new_var ts = (let tokens = tokenize_eq (string_join (tl ts) []) in
     if length tokens \<noteq> 2 then cthrow ''var command uses exactly VAR=VAL syntax''
     else cret (Var (tokens ! 0) (tokens ! 1)))"

definition new_service :: "string list \<Rightarrow> cmd conf" where
  "new_service ts = (if length ts < 2 then cthrow ''service command require action argument''
     else cret (Service (ts ! 1)))"

text \<open>
  The registry of \<^verbatim>\<open>AbstractCommand.h\<close>: names of commands and the functions that create them, filled by one
  \<open>Registrar\<close> for each command before \<open>main\<close> runs.
\<close>

type_synonym creators = "string \<rightharpoonup> (string list \<Rightarrow> cmd conf)"

definition registrate :: "string \<Rightarrow> (string list \<Rightarrow> cmd conf) \<Rightarrow> creators \<Rightarrow> creators" where
  "registrate name fp reg = reg(name \<mapsto> fp)"

definition registry :: creators where
  "registry = registrate ''network'' new_network (registrate ''net_list'' new_net_list
     (registrate ''config'' new_config (registrate ''fromtemplate'' new_fromtemplate
     (registrate ''if'' new_if (registrate ''endif'' (\<lambda>_. cret Endif)
     (registrate ''var'' new_var (registrate ''service'' new_service Map.empty)))))))"

definition cmd_exists :: "string \<Rightarrow> bool" where
  "cmd_exists name \<longleftrightarrow> registry name \<noteq> None"

text \<open>An object of the class \<open>CAbstractScriptCommand\<close>: its words and the fields of its subclass.\<close>

record script_command =
  cmd_tokens :: "string list"
  payload :: cmd

definition instantiate :: "string \<Rightarrow> string list \<Rightarrow> script_command option conf" where
  "instantiate name tokens = (case registry name of
      None \<Rightarrow> cret None
    | Some create \<Rightarrow> cbnd (create tokens) (\<lambda>c. cret (Some \<lparr>cmd_tokens = tokens, payload = c\<rparr>)))"

text \<open>\<open>CAbstractScriptCommand::build\<close>: \<open>None\<close> for a command that is not registered. \<open>represent\<close> prints its tokens.\<close>

definition build_cmd :: "string \<Rightarrow> script_command option conf" where
  "build_cmd line = (let tokens = tokenize_space line in
     case tokens of
       [] \<Rightarrow> lift (Undef OutOfBounds)
     | cmd # _ \<Rightarrow> if \<not> cmd_exists cmd then cret None else instantiate cmd tokens)"

definition represent :: "script_command \<Rightarrow> string" where
  "represent c = string_join (cmd_tokens c) '' ''"

text \<open>The virtual functions \<open>is_condition_open\<close> and \<open>is_condition_close\<close>, false but for one class each.\<close>

fun is_condition_open :: "cmd \<Rightarrow> bool" where
  "is_condition_open (If op a1 a2) = True"
| "is_condition_open c = False"

fun is_condition_close :: "cmd \<Rightarrow> bool" where
  "is_condition_close Endif = True"
| "is_condition_close c = False"

section \<open>execute\<close>

definition network_default :: "conf_env \<Rightarrow> flags \<Rightarrow> string \<Rightarrow> string \<Rightarrow> bool conf" where
  "network_default e fl net val =
     cbnd (cpath net CFG_TEMPLATE) (\<lambda>template_path.
     cbnd (cpath net CFG_OFF) (\<lambda>off. cbnd (cpath net CFG_ON) (\<lambda>on.
     cbnd (fexists off) (\<lambda>ex_off. cbnd (fexists on) (\<lambda>ex_on.
     if ex_off \<and> ex_on then
       cseq (say (''[C][network default] you have both enabled and disabled files for network ['' @ net @ ''], skip this step''))
            (cret False)
     else if val \<noteq> ''on'' \<and> val \<noteq> ''off'' then cseq (say ''wtf'') (cret False)
     else let check_exist_path = (if val = ''on'' then off else on);
              template_copy_dest = (if val = ''on'' then on else off);
              alt_state_path = (if val = ''on'' then off else on) in
       cbnd (fexists template_copy_dest) (\<lambda>there.
       if there then
         cseq (say (''[C][network default '' @ val @ ''] Network ['' @ net @ ''] already '' @ val @ '', skip this step'')) (cret True)
       else cbnd (fexists check_exist_path) (\<lambda>other.
       if other then
         cseq (vprint fl (''[VE][network default] File '' @ qpath check_exist_path
                @ '' exists, but default state requested ['' @ val @ '']''))
        (cseq (say (''[C][network default] Skip altering state for network ['' @ net @ ''] due to it was user-configured'')) (cret False))
       else cbnd (fexists alt_state_path) (\<lambda>alt.
       if alt then
         cseq (vprint fl (''[VE][network default] Network ['' @ net @ ''] already configured in opposite state: '' @ qpath alt_state_path))
        (cseq (say (''[C][network default] Skip creating default config for network ['' @ net
                @ ''] - user has it configured in opposite state'')) (cret False))
       else cseq (say (''[C][network default] Set-up net ['' @ net @ ''] as ['' @ (if val = ''on'' then ''ENABLED'' else ''DISABLED'')
                   @ ''] from template '' @ qpath template_path))
           (cseq (vsay fl (''[VE][network default] copy file from '' @ qpath template_path @ '' to '' @ qpath template_copy_dest))
           (cseq (if dryrun fl then cret () else fs_copy e False template_path template_copy_dest)
                 (cret True)))))))))))"

definition network_ensure :: "conf_env \<Rightarrow> flags \<Rightarrow> string \<Rightarrow> string \<Rightarrow> bool conf" where
  "network_ensure e fl net val =
     cbnd (cpath net CFG_TEMPLATE) (\<lambda>template_path.
     cbnd (cpath net CFG_OFF) (\<lambda>off. cbnd (cpath net CFG_ON) (\<lambda>on.
     cbnd (fexists on) (\<lambda>net_enabled. cbnd (fexists off) (\<lambda>ex_off.
     if val = ''on'' \<and> net_enabled then
       cseq (say (''[C][network ensure on]: Network ['' @ net @ ''] already enabled'')) (cret False)
     else if val = ''off'' \<and> \<not> net_enabled \<and> ex_off then
       cseq (say (''[C][network ensure off]: Network ['' @ net @ ''] already disabled'')) (cret False)
     else let requested = (if val = ''on'' then on else off); oposite = (if val = ''on'' then off else on) in
       cbnd (fexists oposite) (\<lambda>other.
       if other then
         cseq (say (''[C][network ensure '' @ val @ ''] move file from '' @ qpath oposite @ '' to '' @ qpath requested))
        (cseq (if dryrun fl then cret () else fs_rename e oposite requested) (cret True))
       else
         cseq (say (''[C][network ensure '' @ val @ ''] copy file from '' @ qpath template_path @ '' to '' @ qpath requested))
        (cseq (if dryrun fl then cret () else fs_copy e False template_path requested) (cret True))))))))"

definition network_check :: "string \<Rightarrow> bool conf" where
  "network_check net = cbnd (cpath net CFG_ON) (\<lambda>on. cbnd (fexists on) (\<lambda>net_enabled.
     cseq (say (''[C][network check]: Network ['' @ net @ ''] '' @ (if net_enabled then ''on'' else ''off''))) (cret True)))"

definition exec_network :: "conf_env \<Rightarrow> flags \<Rightarrow> string \<Rightarrow> string \<Rightarrow> string \<Rightarrow> bool conf" where
  "exec_network e fl net action val =
    (if action = ''default'' then network_default e fl net val
     else if action = ''ensure'' then network_ensure e fl net val
     else if action = ''check'' then network_check net
     else cthrow ''bad_function_call'')"

definition is_placeholder :: "string \<Rightarrow> bool" where
  "is_placeholder val \<longleftrightarrow> val = [] \<or> hd val = CHR ''$'' \<and> last val = CHR ''}''"

text \<open>The configuration a \<^verbatim>\<open>config\<close> command works on: the enabled one when there is one.\<close>

definition choose_cfg :: "string \<Rightarrow> string conf" where
  "choose_cfg name =
     cbnd (cpath name CFG_ON) (\<lambda>on. cbnd (cpath name CFG_OFF) (\<lambda>off.
     if name = ''cellframe-node'' then cret on
     else cbnd (fexists off) (\<lambda>ex_off. cbnd (fexists on) (\<lambda>ex_on.
       cseq (if ex_on \<and> ex_off
             then say (''[C][config] cfg '' @ name @ '' is in both on&off states, use enabled cfg for modifications'')
             else cret ())
            (cret (if ex_on then on else if ex_off then off else on))))))"

definition config_action ::
  "flags \<Rightarrow> string \<Rightarrow> string \<Rightarrow> string \<Rightarrow> string \<Rightarrow> string \<Rightarrow> string \<Rightarrow> string list \<Rightarrow> (bool \<times> string list) conf" where
  "config_action fl path name grp param action val lines =
    (if action = ''default'' then
       cbnd (config_exists fl path lines grp param) (\<lambda>(param_exists, cfg_val, _, _).
       if param_exists \<and> \<not> is_placeholder cfg_val then
         cseq (say (''[C][config default] ['' @ name @ ''] ['' @ grp @ ''] '' @ param @ ''=='' @ cfg_val @ '', skip altering''))
              (cret (False, lines))
       else cseq (say (''[C][config default] ['' @ name @ ''] ['' @ grp @ ''] set '' @ param @ ''='' @ val))
           (cbnd (config_set fl path lines grp param val) (\<lambda>lines2. cret (True, lines2))))
     else if action = ''ensure'' then
       cseq (say (''[C][config ensure] ['' @ name @ ''] ['' @ grp @ ''] set '' @ param @ ''='' @ val))
      (cbnd (config_set fl path lines grp param val) (\<lambda>lines2. cret (True, lines2)))
     else if action = ''get'' then
       cbnd (config_exists fl path lines grp param) (\<lambda>(_, cfg_val, _, _).
       cseq (say (name @ '': ['' @ grp @ ''] '' @ param @ ''='' @ cfg_val)) (cret (False, lines)))
     else cthrow ''bad_function_call'')"

definition exec_config :: "conf_env \<Rightarrow> flags \<Rightarrow> string \<Rightarrow> string \<Rightarrow> string \<Rightarrow> string \<Rightarrow> string \<Rightarrow> bool conf" where
  "exec_config e fl name grp param action raw =
     cbnd (csubst raw) (\<lambda>val.
     cbnd (choose_cfg name) (\<lambda>path.
     cbnd (open_config fl path) (\<lambda>lines.
     cbnd (config_action fl path name grp param action val lines) (\<lambda>(res, lines2).
     cbnd (if res then save_config e fl path lines2 else cret True) (\<lambda>_.
     cret True)))))"

definition exec_fromtemplate :: "conf_env \<Rightarrow> flags \<Rightarrow> string \<Rightarrow> string \<Rightarrow> bool conf" where
  "exec_fromtemplate e fl name action =
     cbnd (cpath name CFG_TEMPLATE) (\<lambda>path_from. cbnd (cpath name CFG_ON) (\<lambda>path_to.
     cbnd (fexists path_to) (\<lambda>there.
     if action = ''default'' \<and> there then
       cseq (say (''[C][fromtemplate default]  ['' @ name @ ''] exists, skip altering'')) (cret True)
     else
       cseq (if action = ''default'' then
               cseq (say (''[C] [fromtemplate default] copy '' @ qpath path_from @ '' to '' @ qpath path_to))
                    (if dryrun fl then cret () else fs_copy e False path_from path_to)
             else if action = ''ensure'' then
               cseq (say (''[C] [fromtemplate ensure] copy '' @ qpath path_from @ '' to '' @ qpath path_to))
                    (if dryrun fl then cret () else fs_copy e True path_from path_to)
             else cret ())
      (cbnd (open_config fl path_to) (\<lambda>lines.
       cbnd (config_replace_placeholders fl path_to lines) (\<lambda>lines2.
       cbnd (save_config e fl path_to lines2) (\<lambda>_. cret True)))))))"

text \<open>The verbose message prints the operator as the number of its enumerator, and a \<open>bool\<close> as 0 or 1.\<close>

definition cond_number :: "cond_op \<Rightarrow> string" where
  "cond_number op = (case op of COND_EQUAL \<Rightarrow> ''0'' | COND_NOT_EQUAL \<Rightarrow> ''1'' | COND_IS_SET \<Rightarrow> ''2'')"

definition opsym :: "cond_op \<Rightarrow> string" where
  "opsym op = (case op of COND_EQUAL \<Rightarrow> ''=='' | COND_NOT_EQUAL \<Rightarrow> ''!='' | COND_IS_SET \<Rightarrow> ''exists'')"

definition exec_if :: "flags \<Rightarrow> cond_op \<Rightarrow> string \<Rightarrow> string \<Rightarrow> bool conf" where
  "exec_if fl op arg1 arg2 =
     cseq (vprint fl (''[VE] Condition exec: '' @ arg1 @ '' '' @ cond_number op @ '' '' @ arg2 @ '' -> ''))
    (cbnd (csubst arg1) (\<lambda>a1val. cbnd (csubst arg2) (\<lambda>a2val.
     let res = (case op of COND_EQUAL \<Rightarrow> a1val = a2val | COND_NOT_EQUAL \<Rightarrow> a1val \<noteq> a2val | COND_IS_SET \<Rightarrow> a1val = []) in
     cseq (vsay fl (a1val @ '' '' @ opsym op @ '' '' @ a2val @ '' -> '' @ (if res then ''1'' else ''0'')))
          (cret res))))"

text \<open>The verbose message shows the whole storage behind the assignment.\<close>

definition put_var :: "string \<Rightarrow> string \<Rightarrow> unit conf" where
  "put_var n v = (\<lambda>s. (Val (), s\<lparr>variable_storage := set_var (variable_storage s) n v\<rparr>))"

definition exec_var :: "flags \<Rightarrow> string \<Rightarrow> string \<Rightarrow> bool conf" where
  "exec_var fl var val =
     cbnd (csubst val) (\<lambda>real_val.
     cseq (put_var var real_val)
    (cbnd (cget variable_storage) (\<lambda>stor.
     cseq (vsay fl (''[VC] Set '' @ real_val @ '' as '' @ var @ '', current stor = {''
             @ concat (map (\<lambda>(n, v). n @ '' : '' @ v @ '', '') stor) @ ''}''))
          (cret True))))"

text \<open>
  \<open>removeSubstring\<close> erases at the position it found and looks on from there. \<open>find\<close> of an empty text succeeds
  at once, so for an empty text the loop does not end. \<open>remove_all\<close> is the result the loop has for
  every other text.
\<close>

fun find_at :: "string \<Rightarrow> string \<Rightarrow> nat option" where
  "find_at sub s = (if take (length sub) s = sub then Some 0
     else case s of [] \<Rightarrow> None | _ # cs \<Rightarrow> map_option Suc (find_at sub cs))"

definition find_from :: "string \<Rightarrow> string \<Rightarrow> nat \<Rightarrow> nat option" where
  "find_from sub str pos = (if pos \<le> length str then map_option (\<lambda>k. pos + k) (find_at sub (drop pos str)) else None)"

partial_function (option) removeSubstring :: "string \<Rightarrow> string \<Rightarrow> nat \<Rightarrow> string option" where
  "removeSubstring tuRemove str pos = (case find_from tuRemove str pos of
      None \<Rightarrow> Some str
    | Some p \<Rightarrow> removeSubstring tuRemove (take p str @ drop (p + length tuRemove) str) p)"

function remove_all :: "string \<Rightarrow> string \<Rightarrow> string" where
  "remove_all sub [] = []"
| "remove_all sub (c # cs) =
    (if sub \<noteq> [] \<and> take (length sub) (c # cs) = sub then remove_all sub (drop (length sub) (c # cs))
     else c # remove_all sub cs)"
  by pat_completeness auto
termination
  by (relation "measure (\<lambda>(sub, s). length s)") auto

definition net_entry :: "net_filter \<Rightarrow> string \<Rightarrow> (string \<times> string) list" where
  "net_entry st name = (let isDis = contains ''.dis'' name; isCfg = contains ''.cfg'' name in
     if isDis \<and> isCfg \<and> (st = NETS_ALL \<or> st = NETS_OFF) then [(remove_all ''.cfg.dis'' name, ''off'')]
     else if \<not> isDis \<and> isCfg \<and> (st = NETS_ALL \<or> st = NETS_ON) then [(remove_all ''.cfg'' name, ''on'')]
     else if \<not> isDis \<and> \<not> isCfg \<and> st = NETS_ALL then [(name, ''unknown'')]
     else [])"

definition exec_net_list :: "conf_env \<Rightarrow> net_filter \<Rightarrow> bool conf" where
  "exec_net_list e st =
     cbnd (cget (\<lambda>s. listing e (files s) (get_config_path (variable_storage s) CFG_NETWORK))) (\<lambda>dir. case dir of
       No_Dir \<Rightarrow> cseq (say ''The catalog was not found.'') (cret False)
     | Not_A_Dir \<Rightarrow> cseq (say ''The specified path is not a directory.'') (cret False)
     | Entries entries \<Rightarrow>
       let configs = concat (map (\<lambda>(name, is_regular). if is_regular then net_entry st name else []) entries) in
       cseq (if configs = [] then print ''No networks were found.''
             else say_all (map (\<lambda>(n, x). ''name: '' @ n @ [CHR 0x09] @ '' state:'' @ x) configs))
            (cret True))"

definition execute :: "conf_env \<Rightarrow> flags \<Rightarrow> cmd \<Rightarrow> bool conf" where
  "execute e fl c = (case c of
      Network net action val \<Rightarrow> exec_network e fl net action val
    | NetList st \<Rightarrow> exec_net_list e st
    | Config name grp param action val \<Rightarrow> exec_config e fl name grp param action val
    | FromTemplate name action \<Rightarrow> exec_fromtemplate e fl name action
    | If op a1 a2 \<Rightarrow> exec_if fl op a1 a2
    | Endif \<Rightarrow> cret True
    | Var var val \<Rightarrow> exec_var fl var val
    | Service action \<Rightarrow> exec_service (CServiceControl e) action)"

section \<open>Running commands\<close>

lemma put_var_app [conf_simps]:
  "put_var n v s = (Val (), s\<lparr>variable_storage := set_var (variable_storage s) n v\<rparr>)"
  by (simp add: put_var_def)

lemma confined_choose: "confined (choose_cfg name)"
  and confined_action: "confined (config_action fl path name grp param action val lines)"
  unfolding choose_cfg_def config_action_def by (intro confined_rules)+

lemmas frozen_choose = confined_choose [THEN confined_frozen] confined_action [THEN confined_frozen]

lemma frozen_put_var: "frozen (put_var n v)"
  by (simp add: frozen_iff conf_simps)

lemma dry_commands:
  assumes "dryrun fl"
  shows "frozen (network_default e fl net val)" "frozen (network_ensure e fl net val)" "frozen (network_check net)"
  "frozen (exec_config e fl name grp param action raw)" "frozen (exec_fromtemplate e fl name action)"
  "frozen (exec_net_list e st)" "frozen (exec_if fl op a1 a2)" "frozen (exec_service (CServiceControl e) action)" "frozen (exec_var fl n v)"
  unfolding network_default_def network_ensure_def network_check_def exec_config_def exec_fromtemplate_def
    exec_net_list_def exec_if_def exec_var_def if_P [OF assms]
  by (intro frozen_rules frozen_save_dry assms frozen_choose frozen_put_var service.exec_confined [THEN confined_frozen])+

lemma dry_execute: "dryrun fl \<Longrightarrow> frozen (execute e fl c)"
  by (cases c) (simp_all add: execute_def exec_network_def dry_commands frozen_rules)

section \<open>Through the file and back\<close>

text \<open>The line with a newline that \<open>set\<close> inserts becomes two empty lines in the file.\<close>

definition reloaded :: "string list \<Rightarrow> string list" where
  "reloaded ls = concat (map (\<lambda>l. if l = [CHR 0x0A] then [[], []] else [l]) ls)"

lemma save_reloaded: "save_lines (reloaded ls) = save_lines ls"
  by (induction ls) (simp_all add: save_lines_def reloaded_def)

lemma load_save_reloaded:
  assumes "\<forall>l \<in> set ls. CHR 0x0A \<notin> set l \<or> l = [CHR 0x0A]"
  shows "load_lines (save_lines ls) = reloaded ls"
proof -
  have "\<forall>l \<in> set (reloaded ls). CHR 0x0A \<notin> set l"
  proof
    fix l assume "l \<in> set (reloaded ls)"
    then obtain k where k: "k \<in> set ls" "l \<in> set (if k = [CHR 0x0A] then [[], []] else [k])"
      unfolding reloaded_def set_concat set_map by blast
    from bspec [OF assms k(1)] k(2) show "CHR 0x0A \<notin> set l" by (cases "k = [CHR 0x0A]") simp_all
  qed
  then show ?thesis using load_save [of "reloaded ls"] by (simp add: save_reloaded)
qed

lemma classify_empty: "classify [] = Val Blank"
  by (simp add: classify_def clean_def trim_def rtrim_def ltrim_def)

lemma lookup_blanks: "lookup_from g p f (filter (\<lambda>c. c \<noteq> Blank) cs) = lookup_from g p f cs"
  by (induction g p f cs rule: lookup_from.induct) auto

lemma reloaded_entries:
  "filter (\<lambda>c. c \<noteq> Blank) (map entry_of (reloaded ls)) = filter (\<lambda>c. c \<noteq> Blank) (map entry_of ls)"
  by (induction ls) (auto simp: reloaded_def entry_of_def classify_empty classify_newline)

lemma reloaded_legible: "legible ls \<Longrightarrow> legible (reloaded ls)"
  by (auto simp: legible_def reloaded_def classify_empty)

lemma split_at_chars: "t \<in> set (split_at P s acc) \<Longrightarrow> c \<in> set t \<Longrightarrow> c \<in> set acc \<or> \<not> P c"
proof (induction s arbitrary: acc)
  case (Cons x xs)
  show ?case
  proof (cases "P x")
    case True
    then consider "t = rev acc" | "t \<in> set (split_at P xs [])" using Cons.prems(1) by auto
    then show ?thesis using Cons.IH [of "[]"] Cons.prems(2) by cases auto
  next
    case False
    then have "t \<in> set (split_at P xs (x # acc))" using Cons.prems(1) by simp
    from Cons.IH [OF this Cons.prems(2)] False show ?thesis by auto
  qed
qed simp

lemma load_no_newline:
  assumes "l \<in> set (load_lines s)"
  shows "CHR 0x0A \<notin> set l"
proof -
  have "l \<in> set (split_at (\<lambda>c. c = CHR 0x0A) s [])"
    using assms by (auto simp: load_lines_def Let_def split: if_splits dest: in_set_butlastD)
  from split_at_chars [OF this, of "CHR 0x0A"] show ?thesis by auto
qed

lemma insert_at_subset: "set xs \<subseteq> A \<Longrightarrow> x \<in> A \<Longrightarrow> set (insert_at n x xs) \<subseteq> A"
  using set_take_subset [of n xs] set_drop_subset [of n xs] by (auto simp: insert_at_def)

lemma cfg_set_lines:
  assumes "cfg_set ls g p v = Val ls'"
  shows "set ls' \<subseteq> set ls \<union> {p @ ''='' @ v, ''['' @ g @ '']'', [CHR 0x0A]}"
proof -
  let ?A = "set ls \<union> {p @ ''='' @ v, ''['' @ g @ '']'', [CHR 0x0A]}"
  obtain b w k ge where ex: "cfg_exists ls g p = Val (b, w, k, ge)"
    using assms by (auto simp: cfg_set_def cbind_Val)
  then have "cfg_set ls g p v = Val (put_lines g p v b k ge ls)"
    by (simp add: cfg_set_def put_lines_def Let_def)
  with assms have "ls' = put_lines g p v b k ge ls" by simp
  moreover have "set (put_lines g p v b k ge ls) \<subseteq> ?A"
    unfolding put_lines_def by (simp split: if_split, intro conjI impI insert_at_subset set_update_subsetI) auto
  ultimately show ?thesis by simp
qed

lemma cfg_set_reload:
  assumes "legible (load_lines c)" and "ok_group g" and "ok_param p" and "ok_value v"
    and "CHR 0x0A \<notin> set g" and "CHR 0x0A \<notin> set p" and "CHR 0x0A \<notin> set v"
  shows "\<exists>ls'. cfg_set (load_lines c) g p v = Val ls' \<and> legible (load_lines (save_lines ls'))
     \<and> cfg_get (load_lines (save_lines ls')) g p = Val (Some v)
     \<and> (\<forall>h q. ok_group h \<and> ok_param q \<and> (h, q) \<noteq> (g, p) \<longrightarrow>
          cfg_get (load_lines (save_lines ls')) h q = cfg_get (load_lines c) h q)"
proof -
  obtain ls' where s: "cfg_set (load_lines c) g p v = Val ls'" "legible ls'"
    using cfg.put_total [OF assms(1-4)] by blast
  have "\<forall>l \<in> set ls'. CHR 0x0A \<notin> set l \<or> l = [CHR 0x0A]"
  proof
    fix l assume "l \<in> set ls'"
    then have "l \<in> set (load_lines c) \<or> l \<in> {p @ ''='' @ v, ''['' @ g @ '']'', [CHR 0x0A]}"
      using cfg_set_lines [OF s(1)] by blast
    then show "CHR 0x0A \<notin> set l \<or> l = [CHR 0x0A]"
      using load_no_newline assms(5-7) by (elim disjE insertE) simp_all
  qed
  then have ld: "load_lines (save_lines ls') = reloaded ls'" by (rule load_save_reloaded)
  have same: "cfg_get (reloaded ls') h q = cfg_get ls' h q" if "ok_group h" "ok_param q" for h q
    using cfg_refines [OF s(2) that assms(4)] cfg_refines [OF reloaded_legible [OF s(2)] that assms(4)]
      reloaded_entries [of ls'] lookup_blanks by metis
  show ?thesis
    using s ld same assms(2,3) reloaded_legible [OF s(2)] cfg.get_put [OF assms(1-4) s(1)]
      cfg.get_other [OF assms(1-4) _ _ _ s(1)] by (intro exI [of _ ls']) simp
qed

section \<open>The configuration a command chooses\<close>

definition chosen :: "conf_state \<Rightarrow> string \<Rightarrow> string" where
  "chosen s name = (let on = config_path (variable_storage s) name CFG_GENERAL CFG_ON;
       off = config_path (variable_storage s) name CFG_GENERAL CFG_OFF in
     if name = ''cellframe-node'' \<or> files s on \<noteq> None \<or> files s off = None then on else off)"

lemma choose_cfg_run:
  "\<exists>t. choose_cfg name s = (Val (chosen s name), t) \<and> files t = files s \<and> variable_storage t = variable_storage s"
  by (auto simp: choose_cfg_def chosen_def Let_def conf_simps)

text \<open>The chosen file is opened and read; the state changes in its output only.\<close>

lemma exec_config_open:
  assumes "files s (chosen s name) = Some c" and "substitute_variables (variable_storage s) raw = Val val"
  shows "\<exists>u. files u = files s \<and> exec_config e fl name grp param action raw s =
     cbnd (config_action fl (chosen s name) name grp param action val (load_lines c))
       (\<lambda>(res, lines2). cbnd (if res then save_config e fl (chosen s name) lines2 else cret True) (\<lambda>_. cret True)) u"
proof -
  obtain t where t: "choose_cfg name s = (Val (chosen s name), t)" "files t = files s" using choose_cfg_run by blast
  obtain ms where "open_config fl (chosen s name) t = (Val (load_lines c), t\<lparr>out := ms\<rparr>)"
    using t(2) assms by (simp add: open_config_app)
  with t have "exec_config e fl name grp param action raw s =
     cbnd (config_action fl (chosen s name) name grp param action val (load_lines c))
       (\<lambda>(res, lines2). cbnd (if res then save_config e fl (chosen s name) lines2 else cret True) (\<lambda>_. cret True)) (t\<lparr>out := ms\<rparr>)"
    by (simp only: exec_config_def cget_app cbnd_app lift_app assms(2) prod.case cxx.case)
  then show ?thesis using t(2) by (intro exI [of _ "t\<lparr>out := ms\<rparr>"]) simp
qed

lemma exists_get: "cfg_get ls g p = Val (Some w) \<longleftrightarrow> (\<exists>n ge. cfg_exists ls g p = Val (True, w, n, ge))"
  by (auto simp: cfg_get_def cbind_Val split: if_splits)

lemma exec_config_ensure:
  assumes "files s (chosen s name) = Some c" and "legible (load_lines c)" and "can_write e (chosen s name)"
    and "ok_group grp" and "ok_param param" and "CHR 0x0A \<notin> set grp" and "CHR 0x0A \<notin> set param"
    and "substitute_variables (variable_storage s) raw = Val val" and "ok_value val" and "CHR 0x0A \<notin> set val"
    and "\<not> dryrun fl"
  shows "\<exists>t c'. exec_config e fl name grp param ''ensure'' raw s = (Val True, t)
     \<and> files t = (files s)(chosen s name := Some c') \<and> legible (load_lines c')
     \<and> cfg_get (load_lines c') grp param = Val (Some val)
     \<and> (\<forall>h q. ok_group h \<and> ok_param q \<and> (h, q) \<noteq> (grp, param) \<longrightarrow>
          cfg_get (load_lines c') h q = cfg_get (load_lines c) h q)"
proof -
  let ?path = "chosen s name"
  obtain u where u: "files u = files s" "exec_config e fl name grp param ''ensure'' raw s =
     cbnd (config_action fl ?path name grp param ''ensure'' val (load_lines c))
       (\<lambda>(res, lines2). cbnd (if res then save_config e fl ?path lines2 else cret True) (\<lambda>_. cret True)) u"
    using exec_config_open [OF assms(1,8)] by blast
  obtain ls' where "cfg_set (load_lines c) grp param val = Val ls'" "legible (load_lines (save_lines ls'))"
    "cfg_get (load_lines (save_lines ls')) grp param = Val (Some val)"
    "\<forall>h q. ok_group h \<and> ok_param q \<and> (h, q) \<noteq> (grp, param) \<longrightarrow>
       cfg_get (load_lines (save_lines ls')) h q = cfg_get (load_lines c) h q"
    using cfg_set_reload [OF assms(2,4,5,9,6,7,10)] by blast
  moreover have "\<exists>t. exec_config e fl name grp param ''ensure'' raw s = (Val True, t)
      \<and> files t = (files s)(?path := Some (save_lines ls'))"
  proof -
    define u2 where "u2 = snd (say (''[C][config ensure] ['' @ name @ ''] ['' @ grp @ ''] set '' @ param @ ''='' @ val) u)"
    obtain ms where "config_set fl ?path (load_lines c) grp param val u2
        = (cfg_set (load_lines c) grp param val, u2\<lparr>out := out u2 @ ms\<rparr>)"
      using says_run [OF config_set_says] by blast
    with calculation(1) u assms(3,11) show ?thesis by (simp add: config_action_def conf_simps u2_def Let_def)
  qed
  ultimately show ?thesis by blast
qed

section \<open>Properties\<close>

text \<open>
  C24. \<^verbatim>\<open>config <name> <group> <param> default <value>\<close> respects the user: when the parameter has a value that is
  not empty and not a placeholder, the command leaves the file system exactly as it was, and it succeeds
  unless the substitution of the variables in its own value throws.
\<close>

theorem config_default_keeps_value:
  assumes "files s (chosen s name) = Some c" and "cfg_get (load_lines c) grp param = Val (Some w)"
    and "\<not> is_placeholder w"
    and "exec_config e fl name grp param ''default'' raw s = (r, t)"
  shows "files t = files s \<and> (\<forall>val. substitute_variables (variable_storage s) raw = Val val \<longrightarrow> r = Val True)"
proof (cases "substitute_variables (variable_storage s) raw")
  case (Val val)
  obtain u where u: "files u = files s" "exec_config e fl name grp param ''default'' raw s =
     cbnd (config_action fl (chosen s name) name grp param ''default'' val (load_lines c))
       (\<lambda>(res, lines2). cbnd (if res then save_config e fl (chosen s name) lines2 else cret True) (\<lambda>_. cret True)) u"
    using exec_config_open [OF assms(1) Val] by blast
  obtain n ge where ex: "cfg_exists (load_lines c) grp param = Val (True, w, n, ge)"
    using assms(2) by (auto simp: exists_get)
  obtain ms where "config_exists fl (chosen s name) (load_lines c) grp param u
      = (cfg_exists (load_lines c) grp param, u\<lparr>out := out u @ ms\<rparr>)"
    using says_run [OF config_exists_says] by blast
  with u ex assms(3,4) show ?thesis by (auto simp: config_action_def conf_simps)
qed (use assms(4) in \<open>auto simp: exec_config_def conf_simps\<close>)

text \<open>
  C25. \<^verbatim>\<open>config <name> <group> <param> ensure <value>\<close> takes effect: the chosen file is rewritten so that reading
  it back gives the parameter that value (with its variables substituted), every other
  parameter its old value, and no other file changed.
\<close>

theorem config_ensure_sets:
  assumes "files s (chosen s name) = Some c" and "legible (load_lines c)" and "can_write e (chosen s name)"
    and "ok_group grp" and "ok_param param" and "CHR 0x0A \<notin> set grp" and "CHR 0x0A \<notin> set param"
    and "substitute_variables (variable_storage s) raw = Val val" and "ok_value val" and "CHR 0x0A \<notin> set val"
    and "\<not> dryrun fl"
  shows "\<exists>t c'. exec_config e fl name grp param ''ensure'' raw s = (Val True, t)
     \<and> files t = (files s)(chosen s name := Some c') \<and> legible (load_lines c')
     \<and> cfg_get (load_lines c') grp param = Val (Some val)
     \<and> (\<forall>h q. ok_group h \<and> ok_param q \<and> (h, q) \<noteq> (grp, param) \<longrightarrow>
          cfg_get (load_lines c') h q = cfg_get (load_lines c) h q)"
  using assms by (rule exec_config_ensure)

text \<open>
  C26. \<^verbatim>\<open>network <net> default\<close> and \<^verbatim>\<open>fromtemplate <name> default\<close> only ever add a file: whatever existed before has the
  same content afterwards, whether the command succeeds or throws.
\<close>

theorem defaults_keep_files:
  assumes "c = Network net ''default'' val \<or> c = FromTemplate name ''default''"
    and "execute e fl c s = (r, t)" and "files s p = Some x"
  shows "files t p = Some x"
proof -
  have "files t p = Some x" if "network_default e fl net val s = (r, t)"
    using that assms(3)
    by (auto simp: network_default_def conf_simps Let_def split: if_splits option.splits)
  moreover have "files t p = Some x" if "exec_fromtemplate e fl name ''default'' s = (r, t)"
    using that assms(3)
    by (auto simp: exec_fromtemplate_def conf_simps Let_def split: if_splits option.splits cxx.splits)
  ultimately show ?thesis using assms(1,2) by (auto simp: execute_def exec_network_def)
qed

text \<open>
  C27. \<^verbatim>\<open>network <net> ensure\<close> reaches the state it is asked for: after a run that did not throw, the
  enabled configuration exists for \<^verbatim>\<open>on\<close>; for \<^verbatim>\<open>off\<close> the disabled one exists and the enabled one does
  not. A configuration that was there before keeps its content under its new name.
\<close>

theorem network_ensure_state:
  assumes "exec_network e fl net ''ensure'' val s = (Val b, t)" and "val \<in> set allowed_states"
    and "on = config_path (variable_storage s) net CFG_GENERAL CFG_ON"
    and "off = config_path (variable_storage s) net CFG_GENERAL CFG_OFF" and "on \<noteq> off" and "\<not> dryrun fl"
  shows "(if val = ''on'' then files t on \<noteq> None \<and> (files s on = None \<and> files s off \<noteq> None \<longrightarrow> files t on = files s off)
     else files t off \<noteq> None \<and> files t on = None \<and> (files s on \<noteq> None \<longrightarrow> files t off = files s on))"
  using assms
  by (auto simp: exec_network_def network_ensure_def conf_simps Let_def allowed_states_def
      split: if_splits option.splits)

text \<open>
  C28. The names of the variables become regular expressions with only their braces escaped. When one of them is not a
  well-formed pattern, every later \<^verbatim>\<open>var\<close>, \<^verbatim>\<open>config\<close> and \<^verbatim>\<open>if\<close> throws \<open>regex_error\<close> without a change of the files or the variables, whether it
  refers to that variable or not, so the script cannot repair it; otherwise every \<^verbatim>\<open>var\<close> and \<^verbatim>\<open>if\<close> returns. A name without special
  characters is never such a name, and with an open parenthesis behind it always.
\<close>

theorem bad_name_blocks:
  assumes "vars_ok (variable_storage s)"
  shows "(if \<exists>(n, v) \<in> set (variable_storage s). bad_name n
      then exec_config e fl name grp param action raw s = (regex_error, s) \<and> exec_var fl var val s = (regex_error, s)
        \<and> (\<exists>t. exec_if fl op a1 a2 s = (regex_error, t) \<and> files t = files s \<and> variable_storage t = variable_storage s)
      else (\<exists>t. exec_var fl var val s = (Val True, t)) \<and> (\<exists>b t. exec_if fl op a1 a2 s = (Val b, t)))
   \<and> (\<forall>n. plain_name n \<longrightarrow> \<not> bad_name n \<and> bad_name (n @ ''(''))"
proof -
  note bad = substitute_bad [OF vars_ok_distinct [OF assms]]
  show ?thesis
  proof (cases "\<exists>(n, v) \<in> set (variable_storage s). bad_name n")
    case True
    then have "substitute_variables (variable_storage s) x = Throws ''regex_error''" for x using bad by (simp add: regex_error_def)
    with True show ?thesis
      by (simp add: exec_config_def exec_var_def exec_if_def conf_simps regex_error_def plain_name_ok open_paren_bad)
  next
    case False
    then have "\<exists>w. substitute_variables (variable_storage s) x = Val w" for x using bad [of x] by (auto simp: regex_result_def)
    then obtain f where "\<And>x. substitute_variables (variable_storage s) x = Val (f x)" by metis
    with False show ?thesis
      by (simp add: exec_var_def exec_if_def put_var_def conf_simps Let_def plain_name_ok open_paren_bad)
  qed
qed

text \<open>A vertical bar in a name makes alternatives of the reference: text that is no reference is replaced.\<close>

theorem alternative_replaced: "substitute_variables [(''A|on'', ''off'')] ''[on}] ${A'' = Val ''[off] off''"
  by code_simp

section \<open>Witnesses\<close>

definition sample_conf :: conf_state where
  "sample_conf = \<lparr>variable_storage = [(''CONFIGS_PATH'', ''/opt'')],
     files = [''/opt/etc/cellframe-node.cfg'' \<mapsto> save_lines sample_cfg,
              ''/opt/etc/network/riemann.cfg'' \<mapsto> [],
              ''/opt/share/configs/network/riemann.cfg'' \<mapsto> []], out = [], ext_calls = []\<rparr>"

lemma sample_conf_chosen: "chosen sample_conf ''cellframe-node'' = ''/opt/etc/cellframe-node.cfg''"
  "files sample_conf ''/opt/etc/cellframe-node.cfg'' = Some (save_lines sample_cfg)"
  by (simp_all add: chosen_def config_path_def path_of_def path_join_def get_var_def sample_conf_def)

lemma sample_subst: "CHR ''$'' \<notin> set x \<Longrightarrow> substitute_variables (variable_storage sample_conf) x = Val x"
  by (rule substitute_no_dollar) (simp_all add: sample_conf_def vars_ok_def plain_name_def)

lemma sample_conf_net: "files sample_conf ''/opt/etc/network/riemann.cfg'' = Some []"
  "files sample_conf ''/opt/etc/network/riemann.cfg.dis'' = None" "can_write sample_env p"
  by (simp_all add: sample_conf_def sample_env_def)

lemma sample_cfg_load: "load_lines (save_lines sample_cfg) = sample_cfg"
  by (rule load_save) (simp add: sample_cfg_def)

lemma sample_cfg_value: "cfg_get sample_cfg ''general'' ''debug_mode'' = Val (Some ''false'')"
  using cfg_refines [OF sample_legible sample_ok(1,3,6)]
    classify_group [OF sample_ok(1)] classify_pair [OF sample_ok(3,5)]
  by (simp add: sample_cfg_def entry_of_def)

theorem config_default_keeps_value_witness:
  "\<exists>t. exec_config sample_env 0 ''cellframe-node'' ''general'' ''debug_mode'' ''default'' ''true'' sample_conf = (Val True, t)
     \<and> files t = files sample_conf"
proof -
  obtain r t where run: "exec_config sample_env 0 ''cellframe-node'' ''general'' ''debug_mode'' ''default'' ''true'' sample_conf = (r, t)"
    by fastforce
  from config_default_keeps_value [OF _ _ _ run, of "save_lines sample_cfg" "''false''"] run show ?thesis
    by (simp add: sample_conf_chosen sample_cfg_load sample_cfg_value is_placeholder_def sample_subst)
qed

theorem config_ensure_sets_witness:
  "\<exists>t c'. exec_config sample_env 0 ''cellframe-node'' ''general'' ''debug_mode'' ''ensure'' ''true'' sample_conf = (Val True, t)
     \<and> cfg_get (load_lines c') ''general'' ''debug_mode'' = Val (Some ''true'')"
proof -
  have "substitute_variables (variable_storage sample_conf) ''true'' = Val ''true''" by (simp add: sample_subst)
  from config_ensure_sets [of sample_conf "''cellframe-node''" "save_lines sample_cfg" sample_env "''general''"
      "''debug_mode''", OF _ _ _ sample_ok(1,3) _ _ this sample_ok(6), of 0]
  show ?thesis by (auto simp: sample_conf_chosen sample_cfg_load sample_legible sample_env_def)
qed

theorem defaults_keep_files_witness:
  "\<exists>r t. execute sample_env 0 (Network ''riemann'' ''default'' ''off'') sample_conf = (r, t)
     \<and> files t ''/opt/etc/network/riemann.cfg'' = Some []"
proof -
  obtain r t where run: "execute sample_env 0 (Network ''riemann'' ''default'' ''off'') sample_conf = (r, t)"
    by fastforce
  with defaults_keep_files [OF _ run, of "''riemann''" "''off''" _ "''/opt/etc/network/riemann.cfg''" "[]"] show ?thesis
    by (simp add: sample_conf_def)
qed

theorem network_ensure_state_witness:
  "\<exists>b t. exec_network sample_env 0 ''riemann'' ''ensure'' ''off'' sample_conf = (Val b, t)
     \<and> files t ''/opt/etc/network/riemann.cfg.dis'' = Some []"
proof -
  have p: "config_path (variable_storage sample_conf) ''riemann'' CFG_GENERAL CFG_ON = ''/opt/etc/network/riemann.cfg''"
    "config_path (variable_storage sample_conf) ''riemann'' CFG_GENERAL CFG_OFF = ''/opt/etc/network/riemann.cfg.dis''"
    by (simp_all add: config_path_def path_of_def path_join_def get_var_def sample_conf_def)
  obtain b t where run: "exec_network sample_env 0 ''riemann'' ''ensure'' ''off'' sample_conf = (Val b, t)"
    by (simp add: exec_network_def network_ensure_def conf_simps p Let_def sample_conf_net)
  from network_ensure_state [OF run _ p(1) [symmetric] p(2) [symmetric]] run show ?thesis
    by (auto simp: allowed_states_def sample_conf_def)
qed

theorem bad_name_blocks_witness:
  "exec_var 0 ''B'' ''2'' (sample_conf\<lparr>variable_storage := [(''A('', ''1'')]\<rparr>)
     = (Throws ''regex_error'', sample_conf\<lparr>variable_storage := [(''A('', ''1'')]\<rparr>)"
proof -
  let ?s = "sample_conf\<lparr>variable_storage := [(''A('', ''1'')]\<rparr>"
  have "bad_name (''A'' @ ''('')" by (rule open_paren_bad) (simp add: plain_name_def)
  with bad_name_blocks [of ?s _ _ _ _ _ _ _ "''B''" "''2''"] show ?thesis by (simp add: vars_ok_def regex_error_def)
qed

end
