(* ===== verification/Conf_Host.thy ===== *)
theory Conf_Host
  imports Conf_State
begin

text \<open>
  What the configuration tool learns about its host (\<^verbatim>\<open>conftool/main.cpp\<close>, \<^verbatim>\<open>conftool/build_config.h\<close>): the
  name of the host, the directories of the node, on Windows from the registry, and the four variables
  it starts with. The functions of the system are the record \<open>host_api\<close>.
\<close>

section \<open>The registry of Windows\<close>

type_synonym wchar = "16 word"

text \<open>
  \<open>RegOpenKeyExW\<close> writes the key only when it succeeds. \<open>RegQueryValueExW\<close> is given the size of the buffer in
  bytes; it returns an error code and the characters it wrote, or the number it wrote.
\<close>

record host_api =
  gethostname :: "string option"
  RegOpenKeyExW :: "string \<Rightarrow> nat option"
  RegQueryString :: "nat \<Rightarrow> string \<Rightarrow> nat \<Rightarrow> 32 word \<times> wchar list"
  RegQueryDword :: "nat \<Rightarrow> string \<Rightarrow> 32 word \<times> 32 word"

definition GetDWORDRegKey :: "host_api \<Rightarrow> nat \<Rightarrow> string \<Rightarrow> 32 word \<Rightarrow> 32 word \<times> 32 word" where
  "GetDWORDRegKey a hKey strValueName nDefaultValue =
    (let (nError, nResult) = RegQueryDword a hKey strValueName in
     (nError, if nError = 0 then nResult else nDefaultValue))"

text \<open>The old value of \<open>bValue\<close> stays when the key cannot be read.\<close>

definition GetBoolRegKey :: "host_api \<Rightarrow> nat \<Rightarrow> string \<Rightarrow> bool \<Rightarrow> bool \<Rightarrow> 32 word \<times> bool" where
  "GetBoolRegKey a hKey strValueName bValue bDefaultValue =
    (let nDefValue = (if bDefaultValue then 1 else 0);
         (nError, nResult) = GetDWORDRegKey a hKey strValueName nDefValue in
     (nError, if nError = 0 then nResult \<noteq> 0 else bValue))"

text \<open>
  \<open>GetStringRegKey\<close> has a buffer of 512 characters, 1024 bytes. \<open>strValue = szBuffer\<close> copies up to the first NUL; when the system
  wrote none, the copy reads behind what was written.
\<close>

definition GetStringRegKey :: "host_api \<Rightarrow> nat \<Rightarrow> string \<Rightarrow> wchar list \<Rightarrow> (32 word \<times> wchar list) cxx" where
  "GetStringRegKey a hKey strValueName strDefaultValue =
    (let (nError, szBuffer) = RegQueryString a hKey strValueName 1024 in
     if nError \<noteq> 0 then Val (nError, strDefaultValue)
     else if 0 \<notin> set szBuffer then Undef Uninit
     else Val (nError, takeWhile (\<lambda>w. w \<noteq> 0) szBuffer))"

text \<open>\<open>std::string(path.begin(), path.end())\<close> keeps the low byte of every character.\<close>

definition narrow :: "wchar list \<Rightarrow> string" where
  "narrow ws = map (\<lambda>w. char_of (unat (ucast w :: 8 word))) ws"

text \<open>A path of the registry. The result of opening the key is not looked at: without it the key is uninitialised.\<close>

definition registry_path :: "host_api \<Rightarrow> string \<Rightarrow> string \<Rightarrow> string cxx" where
  "registry_path a key strValueName = (case RegOpenKeyExW a key of
      None \<Rightarrow> Undef Uninit
    | Some hKey \<Rightarrow> cbind (GetStringRegKey a hKey strValueName []) (\<lambda>(_, path). Val (narrow path)))"

text \<open>\<open>operator/\<close> of a path on Windows, for a relative right side.\<close>

definition win_join :: "string \<Rightarrow> string \<Rightarrow> string" where
  "win_join a b = (if a = [] \<or> last a \<in> {CHR ''/'', CHR 0x5C, CHR '':''} then a @ b else a @ [CHR 0x5C] @ b)"

section \<open>The host\<close>

definition getHostName :: "host_api \<Rightarrow> string" where
  "getHostName a = (case gethostname a of Some tmp \<Rightarrow> tmp | None \<Rightarrow> ''unknown'')"

definition HOST_OS :: "host_os \<Rightarrow> string" where
  "HOST_OS h = (case h of OS_APPLE \<Rightarrow> ''Macos'' | OS_WINDOWS \<Rightarrow> ''Windows'' | _ \<Rightarrow> ''Linux'')"

definition shell_folders_key :: string where
  "shell_folders_key = ''SOFTWARE'' @ [CHR 0x5C] @ ''Microsoft'' @ [CHR 0x5C] @ ''Windows'' @ [CHR 0x5C]
     @ ''CurrentVersion'' @ [CHR 0x5C] @ ''Explorer'' @ [CHR 0x5C] @ ''Shell Folders''"

definition node_key :: string where
  "node_key = ''SOFTWARE'' @ [CHR 0x5C] @ ''cellframe-node'' @ [CHR 0x5C]"

definition getNodeConfigPath :: "host_os \<Rightarrow> host_api \<Rightarrow> string \<Rightarrow> string cxx" where
  "getNodeConfigPath h a basepath = (case h of
      OS_ANDROID \<Rightarrow> Val basepath
    | OS_LINUX \<Rightarrow> Val ''/opt/cellframe-node''
    | OS_APPLE \<Rightarrow> Val ''/Library/Application Support/CellframeNode''
    | OS_WINDOWS \<Rightarrow> cbind (registry_path a shell_folders_key ''Common Documents'')
        (\<lambda>stdpath. Val (win_join stdpath ''cellframe-node'')))"

definition getNodeBinaryPath :: "host_os \<Rightarrow> host_api \<Rightarrow> string cxx" where
  "getNodeBinaryPath h a = (case h of
      OS_APPLE \<Rightarrow> Val ''/Applications/CellframeNode.app/Contents/MacOS/''
    | OS_WINDOWS \<Rightarrow> registry_path a node_key ''Path''
    | _ \<Rightarrow> Val ''/opt/cellframe-node/bin/'')"

definition populate_variables :: "host_os \<Rightarrow> host_api \<Rightarrow> string \<Rightarrow> vars \<Rightarrow> vars cxx" where
  "populate_variables h a basepath vs =
     cbind (getNodeConfigPath h a basepath) (\<lambda>configs_path.
     cbind (getNodeBinaryPath h a) (\<lambda>binary_path.
     Val (set_var (set_var (set_var (set_var vs ''HOST_OS'' (HOST_OS h)) ''HOSTNAME'' (getHostName a))
       ''CONFIGS_PATH'' configs_path) ''NODE_BINARY_PATH'' binary_path)))"

section \<open>Properties\<close>

lemma populate_ok:
  assumes "populate_variables h a base vs = Val ws" and "vars_ok vs"
  shows "vars_ok ws"
  using assms by (auto simp: populate_variables_def cbind_Val set_var_ok)

lemma registry_path_defined:
  "(\<exists>p. registry_path a key name = Val p) \<longleftrightarrow> (\<exists>k. RegOpenKeyExW a key = Some k
     \<and> (fst (RegQueryString a k name 1024) \<noteq> 0 \<or> 0 \<in> set (snd (RegQueryString a k name 1024))))"
  by (auto simp: registry_path_def GetStringRegKey_def Let_def split: option.split prod.split)

lemma takeWhile_shorter: "x \<in> set xs \<Longrightarrow> \<not> P x \<Longrightarrow> length (takeWhile P xs) < length xs"
  by (induction xs) auto

lemma registry_path_bound:
  assumes "\<forall>k n size. length (snd (RegQueryString a k n size)) \<le> size div 2" and "registry_path a key name = Val p"
  shows "length p < 512"
proof -
  obtain k where k: "RegOpenKeyExW a key = Some k" using assms(2) by (auto simp: registry_path_def split: option.splits)
  obtain err buf where q: "RegQueryString a k name 1024 = (err, buf)" by fastforce
  with assms(1) [rule_format, of k name 1024] have "length buf \<le> 512" by simp
  with k q assms(2) takeWhile_shorter [of 0 buf "\<lambda>w. w \<noteq> 0"] show ?thesis
    by (auto simp: registry_path_def GetStringRegKey_def narrow_def split: if_splits)
qed

definition readable_value :: "host_api \<Rightarrow> string \<Rightarrow> string \<Rightarrow> bool" where
  "readable_value a key name = (case RegOpenKeyExW a key of None \<Rightarrow> False
     | Some k \<Rightarrow> fst (RegQueryString a k name 1024) \<noteq> 0 \<or> 0 \<in> set (snd (RegQueryString a k name 1024)))"

text \<open>
  C37. The variables the tool starts with. They are defined on every system but Windows. On Windows they are
  defined exactly when both keys of the registry can be opened and each value that is read has a NUL
  character; then \<open>CONFIGS_PATH\<close> has at most the 511 characters of the buffer and the 15 of the directory, as long as
  the system respects the size of the buffer it is given. The storage never has a name twice.
\<close>

theorem startup_variables:
  assumes "\<forall>k n size. length (snd (RegQueryString a k n size)) \<le> size div 2" and "vars_ok vs"
  shows "((\<exists>ws. populate_variables h a base vs = Val ws) \<longleftrightarrow>
           (h \<noteq> OS_WINDOWS \<or> readable_value a shell_folders_key ''Common Documents'' \<and> readable_value a node_key ''Path''))
     \<and> (\<forall>ws. populate_variables h a base vs = Val ws \<longrightarrow> vars_ok ws \<and> get_var ws ''HOST_OS'' = HOST_OS h
          \<and> (h = OS_WINDOWS \<longrightarrow> length (get_var ws ''CONFIGS_PATH'') \<le> 526))"
proof -
  have readable: "(\<exists>p. registry_path a key name = Val p) \<longleftrightarrow> readable_value a key name" for key name
    by (auto simp: readable_value_def registry_path_defined split: option.split)
  have windows: "length (win_join p ''cellframe-node'') \<le> 526" if "registry_path a key name = Val p" for key name p
    using registry_path_bound [OF assms(1) that] by (simp add: win_join_def)
  show ?thesis
    using populate_ok [OF _ assms(2), of h a base] readable [of shell_folders_key "''Common Documents''"]
      readable [of node_key "''Path''"] windows [of shell_folders_key "''Common Documents''"]
    by (cases h) (auto simp: populate_variables_def getNodeConfigPath_def getNodeBinaryPath_def set_var_get cbind_Val)
qed

definition sample_host :: host_api where
  "sample_host = \<lparr>gethostname = Some ''node'', RegOpenKeyExW = (\<lambda>_. Some 1),
     RegQueryString = (\<lambda>_ _ size. (0, take (size div 2) [67, 58, 0])), RegQueryDword = (\<lambda>_ _. (0, 1))\<rparr>"

theorem startup_variables_witness:
  "\<exists>ws. populate_variables OS_WINDOWS sample_host [] [] = Val ws \<and> length (get_var ws ''CONFIGS_PATH'') \<le> 526"
  using startup_variables [of sample_host "[]" OS_WINDOWS "[]"]
  by (auto simp: sample_host_def readable_value_def vars_ok_def)

end
