(* ===== verification/Conf_Script.thy ===== *)
theory Conf_Script
  imports Conf_Commands Conf_Host
begin

text \<open>
  \<^verbatim>\<open>conftool/main.cpp\<close>: the options, reading a setup script, running a list of commands under its
  conditions, and \<open>main\<close>.
\<close>

section \<open>Variables and options\<close>

definition populate :: "conf_env \<Rightarrow> host_api \<Rightarrow> string \<Rightarrow> unit conf" where
  "populate e a basepath =
     cbnd (cget variable_storage) (\<lambda>vs.
     cbnd (lift (populate_variables (os e) a basepath vs)) (\<lambda>ws s.
     (Val (), s\<lparr>variable_storage := ws\<rparr>)))"

definition cmdOptionExists :: "argv \<Rightarrow> string \<Rightarrow> bool" where
  "cmdOptionExists av option \<longleftrightarrow> option \<in> set av"

definition behind :: "string \<Rightarrow> argv \<Rightarrow> argv" where
  "behind option av = drop 1 (dropWhile (\<lambda>a. a \<noteq> option) av)"

definition getCmdOption :: "argv \<Rightarrow> string \<Rightarrow> string \<Rightarrow> string" where
  "getCmdOption av option_long option_short =
     (let option = (if cmdOptionExists av option_long then option_long else option_short) in
      case behind option av of [] \<Rightarrow> [] | v # _ \<Rightarrow> v)"

section \<open>Scripts\<close>

definition parse_line_to_cmd :: "flags \<Rightarrow> string \<Rightarrow> nat \<Rightarrow> script_command conf" where
  "parse_line_to_cmd fl line line_no = cbnd (build_cmd line) (\<lambda>oc. case oc of
      None \<Rightarrow> cthrow (''setup file line '' @ show_nat line_no @ '' << {'' @ line @ ''} >> error: unknown command'')
    | Some c \<Rightarrow> cseq (vsay fl (''[V] Command: '' @ represent c)) (cret c))"

fun parse_lines :: "flags \<Rightarrow> nat \<Rightarrow> string list \<Rightarrow> script_command list conf" where
  "parse_lines fl n [] = cret []"
| "parse_lines fl n (l # ls) = (let line = clean l in
     if line = [] then parse_lines fl (Suc n) ls
     else cbnd (parse_line_to_cmd fl line n) (\<lambda>c. cbnd (parse_lines fl (Suc n) ls) (\<lambda>cs. cret (c # cs))))"

definition parse_setup_file :: "flags \<Rightarrow> string \<Rightarrow> script_command list conf" where
  "parse_setup_file fl init_file_name =
     cseq (vsay fl (''[V] Parsing '' @ init_file_name @ '' as setup-script''))
    (cbnd (cget files) (\<lambda>fs.
     parse_lines fl 0 (case fs init_file_name of None \<Rightarrow> [] | Some c \<Rightarrow> load_lines c)))"

definition print_cond_stack :: "script_command list \<Rightarrow> unit conf" where
  "print_cond_stack condition_stack =
     say (''[VE] Condition stack: ['' @ concat (map (\<lambda>a. ''{'' @ represent a @ ''} '') condition_stack) @ ''] '')"

text \<open>A command runs when the condition on the top of the stack holds at that moment.\<close>

definition run_guarded :: "conf_env \<Rightarrow> flags \<Rightarrow> script_command list \<Rightarrow> cmd \<Rightarrow> unit conf" where
  "run_guarded e fl condition_stack c =
    (if condition_stack \<noteq> [] then
       cbnd (execute e fl (payload (last condition_stack))) (\<lambda>passed.
         if passed then cbnd (execute e fl c) (\<lambda>_. cret ()) else cret ())
     else cbnd (execute e fl c) (\<lambda>_. cret ()))"

text \<open>\<open>run_commands\<close>: \<open>pop_back\<close> of an empty vector is undefined.\<close>

fun run_commands :: "conf_env \<Rightarrow> flags \<Rightarrow> script_command list \<Rightarrow> script_command list \<Rightarrow> bool conf" where
  "run_commands e fl [] condition_stack = cret True"
| "run_commands e fl (c # cs) condition_stack =
    (if is_condition_open (payload c) then
       (let stack = condition_stack @ [c] in
        cseq (if verbose fl then print_cond_stack stack else cret ()) (run_commands e fl cs stack))
     else if is_condition_close (payload c) then
       (if condition_stack = [] then lift (Undef OutOfBounds)
        else let stack = butlast condition_stack in
          cseq (if verbose fl then print_cond_stack stack else cret ()) (run_commands e fl cs stack))
     else cseq (run_guarded e fl condition_stack (payload c)) (run_commands e fl cs condition_stack))"

definition init_configs :: "conf_env \<Rightarrow> flags \<Rightarrow> string \<Rightarrow> int conf" where
  "init_configs e fl init_file_name =
    (if init_file_name = [] then cseq (say ''No setup file provided for init procedure, see --help'') (cret (-1))
     else cbnd (fexists init_file_name) (\<lambda>ex.
       if \<not> ex then cseq (say (''Setup file '' @ init_file_name @ '' not found'')) (cret (-1))
       else cbnd (cget (\<lambda>s. get_var (variable_storage s) ''CONFIGS_PATH'')) (\<lambda>p.
         cseq (say (''Cellframe-node configs install path: '' @ p))
        (cbnd (parse_setup_file fl init_file_name) (\<lambda>commands.
         cbnd (run_commands e fl commands []) (\<lambda>_. cret 0))))))"

section \<open>main\<close>

text \<open>The command lines behind \<^verbatim>\<open>-e\<close>: words with a space behind each, cut at every \<^verbatim>\<open>and\<close>.\<close>

fun command_lines :: "string \<Rightarrow> argv \<Rightarrow> string list" where
  "command_lines curr_cmd [] = [curr_cmd]"
| "command_lines curr_cmd (w # ws) =
     (if w = ''and'' then curr_cmd # command_lines [] ws else command_lines (curr_cmd @ w @ '' '') ws)"

fun parse_commands :: "flags \<Rightarrow> nat \<Rightarrow> string list \<Rightarrow> script_command list conf" where
  "parse_commands fl n [] = cret []"
| "parse_commands fl n (l # ls) =
     cbnd (parse_line_to_cmd fl l n) (\<lambda>c. cbnd (parse_commands fl (Suc n) ls) (\<lambda>cs. cret (c # cs)))"

definition set_install_path :: "string \<Rightarrow> unit conf" where
  "set_install_path p = (if p = [] then cret () else put_var ''CONFIGS_PATH'' p)"

definition main_flags :: "argv \<Rightarrow> flags" where
  "main_flags av = (let fl = 0;
     fl = (if cmdOptionExists av ''--verbose'' \<or> cmdOptionExists av ''-v'' then fl OR F_VERBOSE else fl) in
     if cmdOptionExists av ''--dryrun'' \<or> cmdOptionExists av ''-d'' then fl OR F_DRYRUN else fl)"

text \<open>\<open>print_help\<close>, line by line.\<close>

definition print_help :: "string list" where
  "print_help = [
     ''cellframe-node-config -h | --help'',
     [CHR 0x09] @ '' prints this help message'',
     ''cellframe-node-config -s | --vars'',
     [CHR 0x09] @ '' prints installation config variables.'',
     ''cellframe-node-config -v | --verbose'',
     [CHR 0x09] @ '' enable verbose output'',
     ''cellframe-node-config -d | --dry-run'',
     [CHR 0x09] @ '' do not actual do a file-system commands'',
     ''cellframe-node-config -i | --init /path/to/cellframe-node.setup'',
     [CHR 0x09] @ '' do initial configuration based on provided setup script'',
     ''cellframe-node-config -e | --exec <command> [and <command> [and <command>]...]'',
     [CHR 0x09] @ '' execute provided commands. '',
     [],
     ''Allowed commands:'',
     [CHR 0x09] @ ''network <netname> ensure on|off'',
     [CHR 0x09] @ [CHR 0x09] @ '' enable | disable <netname> network'',
     [CHR 0x09] @ ''net_list all|on|off'',
     [CHR 0x09] @ [CHR 0x09] @ '' on - active networks. off - not active networks. all or nothing - all network'',
     [CHR 0x09] @ ''config  <configname>  <section>  <param> ensure  <value>'',
     [CHR 0x09] @ [CHR 0x09] @ '' set a parameter <param> in section <section> in config <configname> to <value>'',
     [CHR 0x09] @ [CHR 0x09] @ '' Possible configs: '' @ [CHR 0x22] @ ''cellframe-node'' @ [CHR 0x22] @ '',  '' @ [CHR 0x22] @ ''<netname>'' @ [CHR 0x22],
     [CHR 0x09] @ ''service  enable'',
     [CHR 0x09] @ [CHR 0x09] @ '' set cellframe-node to autostart on boot'',
     [CHR 0x09] @ ''service  disable'',
     [CHR 0x09] @ [CHR 0x09] @ '' remove cellframe-node from autostart on boot'',
     [CHR 0x09] @ ''service  start'',
     [CHR 0x09] @ [CHR 0x09] @ '' start cellframe-node (if registred as service!)'',
     [CHR 0x09] @ ''service  stop'',
     [CHR 0x09] @ [CHR 0x09] @ '' stop cellframe-node (if registred as service!)'',
     [CHR 0x09] @ ''service  status'',
     [CHR 0x09] @ [CHR 0x09] @ '' get service & process statuses'']"

definition conf_main :: "host_api \<Rightarrow> conf_env \<Rightarrow> argv \<Rightarrow> int conf" where
  "conf_main a e av =
     cseq (populate e a [])
    (if cmdOptionExists av ''-h'' \<or> cmdOptionExists av ''--help'' then cseq (say_all print_help) (cret 0)
     else if cmdOptionExists av ''--vars'' \<or> cmdOptionExists av ''-s'' then
       cbnd (cget variable_storage) (\<lambda>vs.
       cseq (say_all (map (\<lambda>(n, v). n @ ''='' @ v) vs)) (cret 0))
     else
       let fl = main_flags av in
       cseq (set_install_path (getCmdOption av ''--path'' ''-p''))
      (if cmdOptionExists av ''-i'' \<or> cmdOptionExists av ''--init'' then
         init_configs e fl (getCmdOption av ''--init'' ''-i'')
       else if cmdOptionExists av ''-e'' \<or> cmdOptionExists av ''--exec'' then
         let option = (if cmdOptionExists av ''--exec'' then ''--exec'' else ''-e'') in
         cbnd (parse_commands fl 0 (command_lines [] (behind option av))) (\<lambda>script_cmds.
         cbnd (run_commands e fl script_cmds []) (\<lambda>_. cret 0))
       else cseq (say_all print_help) (cret 0)))"

section \<open>Lemmas\<close>

lemma main_flags_bits:
  "verbose (main_flags av) \<longleftrightarrow> cmdOptionExists av ''--verbose'' \<or> cmdOptionExists av ''-v''"
  "dryrun (main_flags av) \<longleftrightarrow> cmdOptionExists av ''--dryrun'' \<or> cmdOptionExists av ''-d''"
  by (auto simp: main_flags_def verbose_def dryrun_def F_VERBOSE_def F_DRYRUN_def Let_def)

lemma frozen_stack: "frozen (print_cond_stack st)"
  unfolding print_cond_stack_def by (rule say_confined [THEN confined_frozen])

lemma frozen_run_commands: "dryrun fl \<Longrightarrow> frozen (run_commands e fl cs st)"
proof (induction cs arbitrary: st)
  case (Cons c cs)
  then show ?case unfolding run_commands.simps run_guarded_def by (intro frozen_rules dry_execute frozen_stack)
qed (simp add: frozen_rules)

lemma frozen_new: "frozen (new_network ts)" "frozen (new_net_list ts)" "frozen (new_config ts)"
  "frozen (new_fromtemplate ts)" "frozen (new_if ts)" "frozen (new_var ts)" "frozen (new_service ts)"
  unfolding new_network_def new_net_list_def new_config_def new_fromtemplate_def new_if_def new_var_def new_service_def
  by (intro frozen_rules)+

lemma registry_cases:
  assumes "registry name = Some create"
  shows "create \<in> {new_network, new_net_list, new_config, new_fromtemplate, new_if, \<lambda>_. cret Endif, new_var, new_service}"
  using assms by (auto simp: registry_def registrate_def split: if_splits)

lemma frozen_build: "frozen (build_cmd line)"
proof -
  have "frozen (create ts)" if "registry name = Some create" for name create ts
    using registry_cases [OF that] by (auto intro: frozen_new frozen_rules)
  then have "frozen (instantiate name ts)" for name ts
    unfolding instantiate_def by (auto intro!: frozen_rules split: option.split)
  then show ?thesis
    unfolding build_cmd_def Let_def by (cases "tokenize_space line") (auto intro!: frozen_rules)
qed

lemma frozen_parse_line: "frozen (parse_line_to_cmd fl line n)"
  unfolding parse_line_to_cmd_def by (intro frozen_rules frozen_build)

lemma frozen_parse: "frozen (parse_lines fl n ls)" "frozen (parse_commands fl n ls)"
proof (induction ls arbitrary: n)
  case (Cons l ls)
  { case 1 then show ?case unfolding parse_lines.simps by (intro frozen_rules frozen_parse_line Cons) }
  { case 2 then show ?case unfolding parse_commands.simps by (intro frozen_rules frozen_parse_line Cons) }
qed (simp_all add: frozen_rules)

lemma frozen_main: "dryrun fl \<Longrightarrow> frozen (init_configs e fl name)"
  unfolding init_configs_def parse_setup_file_def
  by (intro frozen_rules frozen_parse frozen_run_commands)

text \<open>The words between the separators \<^verbatim>\<open>and\<close>.\<close>

fun command_words :: "string list \<Rightarrow> argv \<Rightarrow> string list list" where
  "command_words acc [] = [acc]"
| "command_words acc (w # ws) = (if w = ''and'' then acc # command_words [] ws else command_words (acc @ [w]) ws)"

lemma drop_empty_append [simp]: "drop_empty (xs @ ys) = drop_empty xs @ drop_empty ys"
  by (simp add: drop_empty_def)

lemma split_at_append:
  "P x \<Longrightarrow> split_at P (s @ x # t) acc = split_at P s acc @ split_at P t []"
  by (induction s arbitrary: acc) auto

definition spaced :: "string list \<Rightarrow> string" where
  "spaced ws = concat (map (\<lambda>w. w @ '' '') ws)"

lemma tokenize_spaced:
  assumes "\<forall>w \<in> set ws. w \<noteq> [] \<and> (\<forall>c \<in> set w. \<not> is_space c)"
  shows "tokenize_space (spaced ws) = ws"
  using assms
proof (induction ws)
  case (Cons w ws)
  have "is_space (CHR '' '')" by (simp add: is_space_def)
  then have "split_at is_space (w @ CHR '' '' # spaced ws) [] = split_at is_space w [] @ split_at is_space (spaced ws) []"
    by (rule split_at_append)
  moreover have "split_at is_space w [] = [w]" using split_at_none [of w is_space "[]"] Cons.prems by simp
  ultimately have "tokenize_space (w @ CHR '' '' # spaced ws) = w # tokenize_space (spaced ws)"
    using Cons.prems by (simp add: tokenize_space_split drop_empty_def)
  with Cons show ?case by (simp add: spaced_def)
qed (simp add: spaced_def tokenize_space_split drop_empty_def)

lemma command_lines_words: "command_lines (spaced acc) ws = map spaced (command_words acc ws)"
proof (induction acc ws rule: command_words.induct)
  case (2 acc w ws)
  have "spaced (acc @ [w]) = spaced acc @ w @ '' ''" "spaced [] = []" by (simp_all add: spaced_def)
  with 2 show ?case by (cases "w = ''and''") simp_all
qed simp

lemma command_words_set: "\<forall>ws' \<in> set (command_words acc ws). set ws' \<subseteq> set acc \<union> set ws"
  by (induction acc ws rule: command_words.induct) auto

section \<open>Conditions\<close>

text \<open>The nesting depth never goes below zero.\<close>

fun depth_ok :: "nat \<Rightarrow> cmd list \<Rightarrow> bool" where
  "depth_ok n [] = True"
| "depth_ok n (c # cs) =
    (if is_condition_open c then depth_ok (Suc n) cs
     else if is_condition_close c then n \<noteq> 0 \<and> depth_ok (n - 1) cs
     else depth_ok n cs)"

text \<open>Commands that return and keep \<open>I\<close> whenever \<open>I\<close> holds, such as that the names of all variables are plain.\<close>

definition returns_in :: "(conf_state \<Rightarrow> bool) \<Rightarrow> conf_env \<Rightarrow> flags \<Rightarrow> cmd \<Rightarrow> bool" where
  "returns_in I e fl c \<longleftrightarrow> (\<forall>s. I s \<longrightarrow> (\<exists>b t. execute e fl c s = (Val b, t) \<and> I t))"

definition plain_storage :: "conf_state \<Rightarrow> bool" where
  "plain_storage s \<longleftrightarrow> vars_ok (variable_storage s) \<and> (\<forall>(n, v) \<in> set (variable_storage s). plain_name n)"

lemma plain_storage_subst: "plain_storage s \<Longrightarrow> \<exists>w. substitute_variables (variable_storage s) x = Val w"
  using substitute_entries [of "variable_storage s"] unfolding plain_storage_def by blast

lemma plain_storage_out [simp]: "plain_storage (s\<lparr>out := x\<rparr>) = plain_storage s"
  by (simp add: plain_storage_def)

lemma plain_storage_put:
  assumes "plain_storage s" and "plain_name n"
  shows "plain_storage (s\<lparr>variable_storage := set_var (variable_storage s) n v\<rparr>)"
proof -
  have "set (map_put n v m) \<subseteq> insert (n, v) (set m)" for m by (induction n v m rule: map_put.induct) auto
  then have "set (set_var (variable_storage s) n v) \<subseteq> insert (n, v) (set (variable_storage s))" by (simp add: set_var_def)
  with assms show ?thesis by (fastforce simp: plain_storage_def set_var_ok)
qed

lemma returns_conditions:
  "returns_in plain_storage e fl (If op a b)" "returns_in I e fl Endif"
  "plain_name n \<Longrightarrow> returns_in plain_storage e fl (Var n v)"
proof -
  show "returns_in plain_storage e fl (If op a b)"
    unfolding returns_in_def
  proof (intro allI impI)
    fix s assume s: "plain_storage s"
    obtain v w where "substitute_variables (variable_storage s) a = Val v" "substitute_variables (variable_storage s) b = Val w"
      using plain_storage_subst [OF s] by meson
    with s show "\<exists>c t. execute e fl (If op a b) s = (Val c, t) \<and> plain_storage t"
      by (simp add: execute_def exec_if_def conf_simps Let_def)
  qed
  show "plain_name n \<Longrightarrow> returns_in plain_storage e fl (Var n v)"
    unfolding returns_in_def
  proof (intro allI impI)
    fix s assume n: "plain_name n" and s: "plain_storage s"
    obtain w where "substitute_variables (variable_storage s) v = Val w" using plain_storage_subst [OF s] by blast
    with plain_storage_put [OF s n, of w] show "\<exists>b t. execute e fl (Var n v) s = (Val b, t) \<and> plain_storage t"
      by (auto simp: execute_def exec_var_def put_var_def conf_simps intro: exI [of _ True])
  qed
qed (auto simp: returns_in_def execute_def conf_simps intro: exI [of _ True])

text \<open>
  Without \<^verbatim>\<open>-v\<close> the words of a command play no part in a run: \<open>run_quiet\<close> is \<open>run_commands\<close> on the fields alone.
\<close>

definition quiet_guarded :: "conf_env \<Rightarrow> flags \<Rightarrow> cmd list \<Rightarrow> cmd \<Rightarrow> unit conf" where
  "quiet_guarded e fl st c =
    (if st \<noteq> [] then cbnd (execute e fl (last st)) (\<lambda>passed.
         if passed then cbnd (execute e fl c) (\<lambda>_. cret ()) else cret ())
     else cbnd (execute e fl c) (\<lambda>_. cret ()))"

fun run_quiet :: "conf_env \<Rightarrow> flags \<Rightarrow> cmd list \<Rightarrow> cmd list \<Rightarrow> bool conf" where
  "run_quiet e fl [] st = cret True"
| "run_quiet e fl (c # cs) st =
    (if is_condition_open c then run_quiet e fl cs (st @ [c])
     else if is_condition_close c then
       (if st = [] then lift (Undef OutOfBounds) else run_quiet e fl cs (butlast st))
     else cseq (quiet_guarded e fl st c) (run_quiet e fl cs st))"

lemma run_commands_quiet:
  assumes "\<not> verbose fl"
  shows "run_commands e fl cs st = run_quiet e fl (map payload cs) (map payload st)"
proof (induction cs arbitrary: st)
  case (Cons c cs)
  have skip: "cseq (cret ()) m = m" for m :: "bool conf" by (rule ext) (simp add: conf_simps)
  have guard: "run_guarded e fl st (payload c) = quiet_guarded e fl (map payload st) (payload c)"
    by (simp add: run_guarded_def quiet_guarded_def last_map)
  show ?case by (simp add: Cons guard skip assms Let_def map_butlast)
qed simp

lemma quiet_guarded_returns:
  assumes "returns_in I e fl c" and "\<forall>x \<in> set st. returns_in I e fl x" and "I s"
  shows "\<exists>t. quiet_guarded e fl st c s = (Val (), t) \<and> I t"
proof -
  have step: "\<exists>t. cbnd (execute e fl c) (\<lambda>_. cret ()) s = (Val (), t) \<and> I t" if "I s" for s
    using assms(1) that unfolding returns_in_def by (metis cbnd_Val cret_app)
  show ?thesis
  proof (cases "st = []")
    case False
    then have "returns_in I e fl (last st)" using assms(2) by simp
    with assms(3) obtain b t where "execute e fl (last st) s = (Val b, t)" "I t" unfolding returns_in_def by blast
    with step [of t] False show ?thesis by (cases b) (simp_all add: quiet_guarded_def cbnd_Val cret_app)
  qed (use step assms(3) in \<open>simp add: quiet_guarded_def\<close>)
qed

lemma run_quiet_depth:
  assumes "\<forall>c \<in> set cs. returns_in I e fl c" and "\<forall>c \<in> set st. returns_in I e fl c" and "I s"
  shows "fst (run_quiet e fl cs st s) = (if depth_ok (length st) cs then Val True else Undef OutOfBounds)"
  using assms
proof (induction cs arbitrary: st s)
  case (Cons c cs)
  consider "is_condition_open c" | "is_condition_close c" "\<not> is_condition_open c"
    | "\<not> is_condition_open c" "\<not> is_condition_close c" by blast
  then show ?case
  proof cases
    case 1
    with Cons.IH [of "st @ [c]"] Cons.prems show ?thesis by simp
  next
    case 2
    show ?thesis
    proof (cases "st = []")
      case False
      have "\<forall>x \<in> set (butlast st). returns_in I e fl x" using Cons.prems(2) in_set_butlastD by fast
      with 2 False Cons.IH [of "butlast st"] Cons.prems show ?thesis by simp
    qed (use 2 in \<open>simp add: lift_app\<close>)
  next
    case 3
    obtain t where "quiet_guarded e fl st c s = (Val (), t)" "I t"
      using quiet_guarded_returns [of I e fl c st s] Cons.prems by auto
    with 3 Cons.IH [of st t] Cons.prems show ?thesis by (simp add: cseq_app)
  qed
qed (simp add: cret_app)

section \<open>Scripts as blocks\<close>

text \<open>
  The meaning a script is written for: commands and blocks under a condition. A command of a block runs when the
  condition of the block holds at that moment, in the variables the commands before it left; the conditions around the
  block play no part. An exception, in a condition or in a command, ends the script.
\<close>

datatype block = Do cmd | Under cond_op string string "block list"

fun commands_of :: "block \<Rightarrow> cmd list" where
  "commands_of (Do c) = [c]"
| "commands_of (Under op a1 a2 bs) = If op a1 a2 # concat (map commands_of bs) @ [Endif]"

definition cond_holds :: "cond_op \<Rightarrow> string \<Rightarrow> string \<Rightarrow> bool conf" where
  "cond_holds op a1 a2 = cbnd (csubst a1) (\<lambda>v1. cbnd (csubst a2) (\<lambda>v2.
     cret (case op of COND_EQUAL \<Rightarrow> v1 = v2 | COND_NOT_EQUAL \<Rightarrow> v1 \<noteq> v2 | COND_IS_SET \<Rightarrow> v1 = [])))"

fun run_block :: "conf_env \<Rightarrow> flags \<Rightarrow> bool conf \<Rightarrow> block \<Rightarrow> unit conf" where
  "run_block e fl g (Do c) = cbnd g (\<lambda>holds. if holds then cbnd (execute e fl c) (\<lambda>_. cret ()) else cret ())"
| "run_block e fl g (Under op a1 a2 bs) = foldr cseq (map (run_block e fl (cond_holds op a1 a2)) bs) (cret ())"

definition run_blocks :: "conf_env \<Rightarrow> flags \<Rightarrow> block list \<Rightarrow> unit conf" where
  "run_blocks e fl bs = foldr cseq (map (run_block e fl (cret True)) bs) (cret ())"

fun plain_block :: "block \<Rightarrow> bool" where
  "plain_block (Do c) \<longleftrightarrow> \<not> is_condition_open c \<and> \<not> is_condition_close c"
| "plain_block (Under op a1 a2 bs) \<longleftrightarrow> list_all plain_block bs"

text \<open>The guard that a condition stack stands for.\<close>

definition stack_guard :: "cmd list \<Rightarrow> bool conf" where
  "stack_guard st = (if st = [] then cret True else case last st of If op a1 a2 \<Rightarrow> cond_holds op a1 a2 | _ \<Rightarrow> cret True)"

lemma execute_If: "\<not> verbose fl \<Longrightarrow> execute e fl (If op a1 a2) = cond_holds op a1 a2"
  by (rule ext) (auto simp: execute_def exec_if_def cond_holds_def conf_simps Let_def split: cxx.split)

lemma quiet_guarded_block:
  assumes "list_all is_condition_open st" and "\<not> verbose fl"
  shows "quiet_guarded e fl st c = run_block e fl (stack_guard st) (Do c)"
proof (cases st rule: rev_cases)
  case (snoc xs x)
  with assms(1) have "is_condition_open x" by simp
  then obtain op a1 a2 where "x = If op a1 a2" by (cases x) auto
  with snoc show ?thesis by (simp add: quiet_guarded_def stack_guard_def execute_If assms(2))
qed (simp add: quiet_guarded_def stack_guard_def fun_eq_iff conf_simps)

lemma cseq_assoc: "cseq (cseq m n) k = cseq m (cseq n k)"
  by (rule ext) (simp add: cseq_app split: prod.split cxx.split)

lemma cseq_ret: "cseq (cret ()) k = k" "cseq m (cret ()) = m"
  by (rule ext, simp add: cseq_app cret_app split: prod.split cxx.split)+

lemma run_quiet_block:
  assumes "plain_block b" and "list_all is_condition_open st" and "\<not> verbose fl"
  shows "run_quiet e fl (commands_of b @ cs) st = cseq (run_block e fl (stack_guard st) b) (run_quiet e fl cs st)"
  using assms
proof (induction b arbitrary: st cs)
  case (Do c)
  then show ?case by (simp add: quiet_guarded_block)
next
  case (Under op a1 a2 bs)
  let ?st = "st @ [If op a1 a2]"
  have g: "stack_guard ?st = cond_holds op a1 a2" by (simp add: stack_guard_def)
  have "run_quiet e fl (concat (map commands_of xs) @ ys) ?st
      = cseq (foldr cseq (map (run_block e fl (stack_guard ?st)) xs) (cret ())) (run_quiet e fl ys ?st)"
    if "set xs \<subseteq> set bs" for xs ys
    using that
  proof (induction xs)
    case (Cons x xs)
    then have "x \<in> set bs" "plain_block x" using Under.prems(1) by (auto simp: list_all_iff)
    from Under.IH [OF this, of ?st] Under.prems(2,3) Cons show ?case by (simp add: cseq_assoc)
  qed (simp add: cseq_ret)
  from this [of bs] show ?case by (simp add: g)
qed

lemma run_quiet_blocks:
  assumes "list_all plain_block bs" and "\<not> verbose fl"
  shows "run_quiet e fl (concat (map commands_of bs)) [] = cseq (run_blocks e fl bs) (cret True)"
  using assms
proof (induction bs)
  case (Cons b bs)
  have "stack_guard [] = cret True" by (simp add: stack_guard_def)
  with Cons run_quiet_block [of b "[]"] show ?case by (simp add: run_blocks_def cseq_assoc)
qed (simp add: run_blocks_def cseq_ret)

section \<open>Properties\<close>



text \<open>
  \<^verbatim>\<open>-e\<close> takes the command line apart as it stands: the commands the tool builds have exactly the
  words between the separators \<^verbatim>\<open>and\<close>, in order. Nothing between two separators, or nothing
  behind \<^verbatim>\<open>-e\<close>, is an empty command, for which \<open>build\<close> is undefined.
\<close>

theorem exec_words:
  assumes "\<forall>w \<in> set ws. w \<noteq> [] \<and> (\<forall>c \<in> set w. \<not> is_space c)"
  shows "map tokenize_space (command_lines [] ws) = command_words [] ws
     \<and> ([] \<in> set (command_words [] ws) \<longrightarrow>
          (\<exists>l \<in> set (command_lines [] ws). \<forall>s. fst (build_cmd l s) = Undef OutOfBounds))"
proof -
  have lines: "command_lines [] ws = map spaced (command_words [] ws)"
    using command_lines_words [of "[]" ws] by (simp add: spaced_def)
  have "map tokenize_space (command_lines [] ws) = map (\<lambda>ts. tokenize_space (spaced ts)) (command_words [] ws)"
    by (simp add: lines)
  also have "\<dots> = map (\<lambda>ts. ts) (command_words [] ws)"
  proof (rule map_cong [OF refl])
    fix ts assume "ts \<in> set (command_words [] ws)"
    then have "set ts \<subseteq> set ws" using command_words_set [of "[]" ws] by auto
    then show "tokenize_space (spaced ts) = ts" using assms by (intro tokenize_spaced) blast
  qed
  moreover have "fst (build_cmd (spaced []) s) = Undef OutOfBounds" for s
    by (simp add: build_cmd_def spaced_def tokenize_space_split drop_empty_def lift_app)
  ultimately show ?thesis unfolding lines by auto
qed

section \<open>Witnesses\<close>


definition bare_cmd :: "cmd \<Rightarrow> script_command" where
  "bare_cmd c = \<lparr>cmd_tokens = [], payload = c\<rparr>"


theorem exec_words_witness:
  "map tokenize_space (command_lines [] [''service'', ''start'', ''and'', ''net_list'']) = [[''service'', ''start''], [''net_list'']]"
  using exec_words [of "[''service'', ''start'', ''and'', ''net_list'']"] by (simp add: is_space_def)

end
