(* ===== verification/Conf_Networks.thy ===== *)
theory Conf_Networks
  imports Conf_Commands
begin

text \<open>
  The list of networks (\<^verbatim>\<open>conftool/commands/NetworkListCommand.cpp\<close>): the loop that removes the extension
  ends, and the list shows what the command \<^verbatim>\<open>network\<close> set.
\<close>

section \<open>Removing a text\<close>

lemma find_at_Some:
  assumes "find_at sub s = Some k"
  shows "k + length sub \<le> length s \<and> take (length sub) (drop k s) = sub
     \<and> (sub \<noteq> [] \<longrightarrow> remove_all sub s = take k s @ remove_all sub (drop (k + length sub) s))"
  using assms
proof (induction s arbitrary: k)
  case Nil
  then show ?case by (auto split: if_splits)
next
  case (Cons c cs)
  show ?case
  proof (cases "take (length sub) (c # cs) = sub")
    case True
    then have "length sub \<le> length (c # cs)" by (metis length_take min.cobounded1)
    with True Cons.prems show ?thesis by auto
  next
    case False
    then obtain j where "find_at sub cs = Some j" "k = Suc j" using Cons.prems by (auto split: if_splits)
    with Cons.IH False show ?thesis by auto
  qed
qed

lemma find_at_None: "find_at sub s = None \<Longrightarrow> remove_all sub s = s"
  by (induction s) (auto split: if_splits)

lemma removeSubstring_ends:
  assumes "sub \<noteq> []"
  shows "removeSubstring sub (pre @ s) (length pre) = Some (pre @ remove_all sub s)"
proof (induction "length s" arbitrary: pre s rule: less_induct)
  case less
  show ?case
  proof (cases "find_at sub s")
    case None
    then show ?thesis by (subst removeSubstring.simps) (simp add: find_from_def find_at_None)
  next
    case (Some k)
    note k = find_at_Some [OF Some]
    let ?t = "drop (k + length sub) s"
    have "length ?t < length s" using k assms by (cases sub) auto
    from less [OF this, of "pre @ take k s"] k assms have
      "removeSubstring sub ((pre @ take k s) @ ?t) (length pre + k) = Some (pre @ remove_all sub s)" by simp
    with Some k show ?thesis by (subst removeSubstring.simps) (simp add: find_from_def add.commute add.left_commute)
  qed
qed

lemma removeSubstring_empty:
  assumes "removeSubstring sub str pos = Some y"
  shows "sub = [] \<longrightarrow> length str < pos"
proof (rule removeSubstring.raw_induct [where P = "\<lambda>sub str pos y. sub = [] \<longrightarrow> length str < pos", OF _ assms])
  fix f sub str pos y
  assume IH: "\<And>sub str pos y. f sub str pos = Some y \<Longrightarrow> sub = [] \<longrightarrow> length str < pos"
    and "(case find_from sub str pos of None \<Rightarrow> Some str
      | Some p \<Rightarrow> f sub (take p str @ drop (p + length sub) str) p) = Some (y :: string)"
  moreover have "False" if "f [] str pos = Some y" "pos \<le> length str"
    using IH [OF that(1)] that(2) by simp
  ultimately show "sub = [] \<longrightarrow> length str < pos"
    by (cases "pos \<le> length str") (auto simp: find_from_def)
qed

text \<open>
  C36. The loop that removes a text ends for every text but the empty one, with the result of one pass from left to
  right; for the empty text it never ends. The command calls it with \<^verbatim>\<open>.cfg\<close> and \<^verbatim>\<open>.cfg.dis\<close> only.
\<close>

theorem removeSubstring_terminates:
  "removeSubstring sub str 0 = (if sub \<noteq> [] then Some (remove_all sub str) else None)"
proof (cases "sub = []")
  case True
  with removeSubstring_empty [of sub str 0] show ?thesis by (cases "removeSubstring sub str 0") auto
next
  case False
  with removeSubstring_ends [of sub "[]" str] show ?thesis by simp
qed

section \<open>The list shows the state of a network\<close>

lemma contains_append: "contains sub t \<Longrightarrow> contains sub (s @ t)"
proof (induction s)
  case (Cons c s)
  then show ?case by simp
qed simp

lemma contains_head:
  assumes "d \<notin> set s"
  shows "contains (d # sub) (s @ t) \<longleftrightarrow> contains (d # sub) t"
  using assms by (induction s) auto

lemma remove_all_head:
  assumes "d \<notin> set s"
  shows "remove_all (d # sub) (s @ t) = s @ remove_all (d # sub) t"
  using assms by (induction s) auto

lemma net_entry_on: "CHR ''.'' \<notin> set net \<Longrightarrow> net_entry NETS_ALL (net @ ''.cfg'') = [(net, ''on'')]"
  by (simp add: net_entry_def contains_head remove_all_head)

lemma net_entry_off: "CHR ''.'' \<notin> set net \<Longrightarrow> net_entry NETS_ALL (net @ ''.cfg.dis'') = [(net, ''off'')]"
  by (simp add: net_entry_def contains_head remove_all_head)

lemma path_of_slash: "path_of base [x, ''network/'', y] = path_of base [x, ''network/''] @ y" if "take 1 y \<noteq> ''/''"
  using that by (simp add: path_of_def path_join_def)

definition state_line :: "string \<Rightarrow> string \<Rightarrow> string" where
  "state_line net st = endl (''name: '' @ net @ [CHR 0x09] @ '' state:'' @ st)"

text \<open>
  \<open>directory_iterator\<close>: the entries that are regular files are the names of the files of the directory.
\<close>

definition lists_files :: "conf_env \<Rightarrow> (string \<Rightarrow> string option) \<Rightarrow> string \<Rightarrow> bool" where
  "lists_files e fs dir \<longleftrightarrow> (\<exists>es. listing e fs dir = Entries es
     \<and> (\<forall>n. n \<noteq> [] \<and> CHR ''/'' \<notin> set n \<longrightarrow> (n, True) \<in> set es \<longleftrightarrow> fs (dir @ n) \<noteq> None))"

lemma net_list_line:
  assumes "lists_files e (files s) (get_config_path (variable_storage s) CFG_NETWORK)"
    and "files s (get_config_path (variable_storage s) CFG_NETWORK @ name) \<noteq> None" and "name \<noteq> []" and "CHR ''/'' \<notin> set name"
    and "net_entry NETS_ALL name = [(net, st)]"
  shows "\<exists>u. exec_net_list e NETS_ALL s = (Val True, u) \<and> state_line net st \<in> set (out u)"
proof -
  obtain es where es: "listing e (files s) (get_config_path (variable_storage s) CFG_NETWORK) = Entries es"
    "(name, True) \<in> set es"
    using assms(1-4) unfolding lists_files_def by blast
  define cs where "cs = concat (map (\<lambda>(name, is_regular). if is_regular then net_entry NETS_ALL name else []) es)"
  have line: "(net, st) \<in> set cs" unfolding cs_def using es(2) assms(5) by force
  then have "cs \<noteq> []" by auto
  with es(1) have "exec_net_list e NETS_ALL s
      = (Val True, s\<lparr>out := out s @ map endl (map (\<lambda>(n, x). ''name: '' @ n @ [CHR 0x09] @ '' state:'' @ x) cs)\<rparr>)"
    unfolding exec_net_list_def by (simp only: conf_simps dir_listing.case Let_def cs_def [symmetric] prod.case cxx.case if_False)
  with line show ?thesis by (force simp: state_line_def)
qed

text \<open>
  C35. The two commands agree: after \<^verbatim>\<open>network <net> ensure <state>\<close> has run, \<^verbatim>\<open>net_list\<close> shows the network in that state.
\<close>

theorem net_list_after_ensure:
  assumes "exec_network e fl net ''ensure'' val s = (Val b, t)" and "val \<in> set allowed_states"
    and "net \<noteq> []" and "CHR ''.'' \<notin> set net" and "CHR ''/'' \<notin> set net" and "net \<noteq> ''cellframe-node''"
    and "lists_files e (files t) (get_config_path (variable_storage s) CFG_NETWORK)" and "\<not> dryrun fl"
  shows "\<exists>u. exec_net_list e NETS_ALL t = (Val True, u) \<and> state_line net val \<in> set (out u)"
proof -
  let ?dir = "get_config_path (variable_storage s) CFG_NETWORK"
  have head: "take 1 (net @ x) \<noteq> ''/''" for x using assms(3,5) by (cases net) auto
  have on: "config_path (variable_storage s) net CFG_GENERAL CFG_ON = ?dir @ net @ ''.cfg''"
    and off: "config_path (variable_storage s) net CFG_GENERAL CFG_OFF = ?dir @ net @ ''.cfg.dis''"
    using assms(6) head by (simp_all add: config_path_def get_config_path_def path_of_slash)
  have same: "variable_storage t = variable_storage s"
    using assms(1,2)
    by (auto simp: exec_network_def network_ensure_def conf_simps Let_def split: if_splits option.splits)
  have "files t (?dir @ net @ (if val = ''on'' then ''.cfg'' else ''.cfg.dis'')) \<noteq> None"
    using assms(1,2,8) on off
    by (auto simp: exec_network_def network_ensure_def conf_simps Let_def allowed_states_def split: if_splits option.splits)
  moreover have "net_entry NETS_ALL (net @ (if val = ''on'' then ''.cfg'' else ''.cfg.dis'')) = [(net, val)]"
    using assms(2,4) by (auto simp: net_entry_on net_entry_off allowed_states_def)
  ultimately show ?thesis
    using net_list_line [of e t "net @ (if val = ''on'' then ''.cfg'' else ''.cfg.dis'')" net val] assms(3,5,7)
    by (auto simp: same)
qed

theorem net_list_after_ensure_witness:
  "\<exists>e b t u. exec_network e 0 ''riemann'' ''ensure'' ''off'' sample_conf = (Val b, t)
     \<and> exec_net_list e NETS_ALL t = (Val True, u) \<and> state_line ''riemann'' ''off'' \<in> set (out u)"
proof -
  define e where "e = sample_env\<lparr>listing := (\<lambda>_ _. Entries [(''riemann.cfg.dis'', True)])\<rparr>"
  have p: "config_path (variable_storage sample_conf) ''riemann'' CFG_GENERAL CFG_ON = ''/opt/etc/network/riemann.cfg''"
    "config_path (variable_storage sample_conf) ''riemann'' CFG_GENERAL CFG_OFF = ''/opt/etc/network/riemann.cfg.dis''"
    "get_config_path (variable_storage sample_conf) CFG_NETWORK = ''/opt/etc/network/''"
    by (simp_all add: config_path_def get_config_path_def path_of_def path_join_def get_var_def sample_conf_def)
  obtain b t where run: "exec_network e 0 ''riemann'' ''ensure'' ''off'' sample_conf = (Val b, t)"
    and t: "files t = (files sample_conf)(''/opt/etc/network/riemann.cfg'' := None, ''/opt/etc/network/riemann.cfg.dis'' := Some [])"
    by (simp add: exec_network_def network_ensure_def conf_simps p Let_def sample_conf_net e_def sample_env_def)
  have "lists_files e (files t) ''/opt/etc/network/''"
    by (auto simp: lists_files_def t e_def sample_conf_def)
  with net_list_after_ensure [OF run, folded p(3)] run p(3) show ?thesis by (auto simp: allowed_states_def)
qed

end
