(* ===== verification/Conf_Types.thy ===== *)
theory Conf_Types
  imports Conf_Script Conf_Networks
begin

text \<open>
  Setup scripts as a typed language: the commands that a constructor accepts are well-formed, parsing builds
  only such commands, and running them never reaches an action that no branch handles. Then the ways a
  command can be written: its printed form, the words behind \<^verbatim>\<open>-e\<close>, and a line of a script build the same
  command.
\<close>

section \<open>Well-formed commands\<close>

fun wf_cmd :: "cmd \<Rightarrow> bool" where
  "wf_cmd (Network net action val) \<longleftrightarrow>
     action \<in> {''default'', ''ensure''} \<and> val \<in> set allowed_states \<or> action = ''check'' \<and> val = []"
| "wf_cmd (Config name grp param action val) \<longleftrightarrow> action \<in> {''default'', ''ensure'', ''get''}"
| "wf_cmd (If op a1 a2) \<longleftrightarrow> a1 \<noteq> [] \<and> (if op = COND_IS_SET then a2 = [] else a2 \<noteq> [])"
| "wf_cmd (Var n v) \<longleftrightarrow> n \<noteq> [] \<and> v \<noteq> [] \<and> CHR ''='' \<notin> set n \<and> CHR ''='' \<notin> set v"
| "wf_cmd _ \<longleftrightarrow> True"

lemma drop_empty_nonempty: "t \<in> set (drop_empty ts) \<Longrightarrow> t \<noteq> []"
  by (simp add: drop_empty_def)

lemma token_chars:
  assumes "t \<in> set (drop_empty (split_at P s []))"
  shows "t \<noteq> [] \<and> (\<forall>c \<in> set t. \<not> P c)"
proof -
  have "t \<in> set (split_at P s [])" "t \<noteq> []" using assms by (simp_all add: drop_empty_def)
  with split_at_chars [OF this(1)] show ?thesis by auto
qed

lemma tokenize_eq_chars: "t \<in> set (tokenize_eq s) \<Longrightarrow> t \<noteq> [] \<and> CHR ''='' \<notin> set t"
  unfolding tokenize_eq_split by (drule token_chars) auto

lemma tokenize_space_chars: "t \<in> set (tokenize_space s) \<Longrightarrow> t \<noteq> [] \<and> (\<forall>c \<in> set t. \<not> is_space c)"
  unfolding tokenize_space_split by (rule token_chars)

lemma new_wf:
  "new_network ts s = (Val c, t) \<Longrightarrow> wf_cmd c \<and> t = s"
  "new_net_list ts s = (Val c, t) \<Longrightarrow> wf_cmd c \<and> t = s"
  "new_config ts s = (Val c, t) \<Longrightarrow> wf_cmd c \<and> t = s"
  "new_fromtemplate ts s = (Val c, t) \<Longrightarrow> wf_cmd c \<and> t = s"
  "new_service ts s = (Val c, t) \<Longrightarrow> wf_cmd c \<and> t = s"
  by (auto simp: new_network_def new_net_list_def new_config_def new_fromtemplate_def new_service_def conf_simps Let_def
      split: if_splits)

lemma new_if_wf: "new_if ts s = (Val c, t) \<Longrightarrow> wf_cmd c \<and> t = s"
proof -
  assume run: "new_if ts s = (Val c, t)"
  define tokens where "tokens = tokenize_cond (string_join (tl ts) [])"
  have "tokens ! i \<noteq> []" if "i < length tokens" for i
    using nth_mem [OF that] drop_empty_nonempty by (auto simp: tokens_def tokenize_cond_split)
  with run show ?thesis
    by (auto simp: new_if_def Let_def tokens_def [symmetric] conf_simps split: if_splits)
qed

lemma new_var_wf: "new_var ts s = (Val c, t) \<Longrightarrow> wf_cmd c \<and> t = s"
proof -
  assume run: "new_var ts s = (Val c, t)"
  define tokens where "tokens = tokenize_eq (string_join (tl ts) [])"
  have "tokens ! i \<noteq> [] \<and> CHR ''='' \<notin> set (tokens ! i)" if "i < length tokens" for i
    using nth_mem [OF that] tokenize_eq_chars unfolding tokens_def by blast
  with run show ?thesis
    by (auto simp: new_var_def Let_def tokens_def [symmetric] conf_simps split: if_splits)
qed

lemma build_wf:
  assumes "build_cmd line s = (Val (Some c), t)"
  shows "wf_cmd (payload c) \<and> cmd_tokens c = tokenize_space line \<and> t = s"
proof -
  obtain name create ts where reg: "registry name = Some create" and run: "create ts s = (Val (payload c), t)"
    and words: "cmd_tokens c = tokenize_space line"
    using assms
    by (auto simp: build_cmd_def instantiate_def conf_simps Let_def split: list.splits if_splits option.splits
        cxx.splits prod.splits)
  from registry_cases [OF reg] run have "wf_cmd (payload c) \<and> t = s"
    using new_wf new_if_wf new_var_wf by (elim insertE emptyE) (auto simp: conf_simps)
  with words show ?thesis by simp
qed

lemma parse_line_wf:
  assumes "parse_line_to_cmd fl line n s = (Val c, t)"
  shows "wf_cmd (payload c) \<and> t = s\<lparr>out := out t\<rparr>"
proof -
  obtain oc u where oc: "build_cmd line s = (Val oc, u)"
    and run: "(case oc of
      None \<Rightarrow> cthrow (''setup file line '' @ show_nat n @ '' << {'' @ line @ ''} >> error: unknown command'')
    | Some c \<Rightarrow> cseq (vsay fl (''[V] Command: '' @ represent c)) (cret c)) u = (Val c, t)"
    using assms unfolding parse_line_to_cmd_def cbnd_Val_iff by blast
  show ?thesis
  proof (cases oc)
    case (Some d)
    with run have "d = c" "t = u\<lparr>out := out t\<rparr>" by (auto simp: conf_simps)
    with build_wf [of line s d u] oc Some show ?thesis by simp
  qed (use run in \<open>simp add: conf_simps\<close>)
qed

lemma parse_lines_wf:
  assumes "parse_lines fl n ls s = (Val cs, t)"
  shows "list_all (\<lambda>c. wf_cmd (payload c)) cs \<and> t = s\<lparr>out := out t\<rparr>"
  using assms
proof (induction ls arbitrary: n cs s)
  case (Cons l ls)
  show ?case
  proof (cases "clean l = []")
    case True
    with Cons show ?thesis by simp
  next
    case False
    with Cons.prems obtain c u ds where c: "parse_line_to_cmd fl (clean l) n s = (Val c, u)"
      "parse_lines fl (Suc n) ls u = (Val ds, t)" "cs = c # ds"
      by (auto simp: Let_def cbnd_Val_iff cret_app)
    obtain x where x: "u = s\<lparr>out := x\<rparr>" using parse_line_wf [OF c(1)] by blast
    from Cons.IH [OF c(2)] have ds: "list_all (\<lambda>c. wf_cmd (payload c)) ds" "t = u\<lparr>out := out t\<rparr>" by blast+
    with x have "t = s\<lparr>out := out t\<rparr>" by (metis conf_state.unfold_congs(3) conf_state.select_convs(3) conf_state.surjective conf_state.update_convs(3))
    with ds parse_line_wf [OF c(1)] c(3) show ?thesis by simp
  qed
qed (simp add: conf_simps)

section \<open>Well-formed commands do not get stuck\<close>

text \<open>
  An action that no branch handles calls an empty \<open>std::function\<close>, which throws \<open>bad_function_call\<close>. \<open>handled_by m\<close>: no
  run of \<open>m\<close> does.
\<close>

definition handled_by :: "'a conf \<Rightarrow> bool" where
  "handled_by m \<longleftrightarrow> (\<forall>s. fst (m s) \<noteq> Throws ''bad_function_call'')"

lemma handled_cbnd:
  assumes "handled_by m" and "\<And>a. handled_by (k a)"
  shows "handled_by (cbnd m k)"
  unfolding handled_by_def
proof
  fix s
  obtain r t where m: "m s = (r, t)" by fastforce
  with assms(1) have "r \<noteq> Throws ''bad_function_call''" unfolding handled_by_def by (metis fst_conv)
  with m assms(2) show "fst (cbnd m k s) \<noteq> Throws ''bad_function_call''"
    by (cases r) (simp_all add: cbnd_app handled_by_def)
qed

lemma handled_cseq: "handled_by m \<Longrightarrow> handled_by k \<Longrightarrow> handled_by (cseq m k)"
  unfolding cseq_def by (rule handled_cbnd)

text \<open>A substitution throws \<open>regex_error\<close> if anything.\<close>

lemma replace_placeholders_result: "regex_result (replace_placeholders vs ls)"
  by (induction ls) (auto simp: Let_def intro!: regex_result_cbind substitute_result)

lemma regex_result_handled: "regex_result m \<Longrightarrow> m \<noteq> Throws ''bad_function_call''"
  by (auto simp: regex_result_def regex_error_def)

lemma handled_substitute: "handled_by (lift (substitute_variables vs x))"
  using regex_result_handled [OF substitute_result] by (simp add: handled_by_def conf_simps)

lemma handled_basic: "handled_by (cret a)" "handled_by (cget f)" "handled_by (print m)" "handled_by (say m)" "handled_by (vprint fl m)" "handled_by (vsay fl m)" "handled_by (cpath n st)"
  "handled_by (fexists p)" "handled_by (say_all ls)" "handled_by (open_config fl p)" "handled_by (fs_copy e ow src dst)"
  "handled_by (fs_rename e src dst)" "handled_by (save_config e fl p ls)"
  "handled_by (config_replace_placeholders fl p ls)" "handled_by (put_var n v)"
  by (simp_all add: handled_by_def conf_simps Let_def regex_result_handled [OF replace_placeholders_result] split: option.split)

lemma handled_split:
  "(c \<Longrightarrow> handled_by p) \<Longrightarrow> (\<not> c \<Longrightarrow> handled_by q) \<Longrightarrow> handled_by (if c then p else q)"
  "(\<And>x. handled_by (h x)) \<Longrightarrow> handled_by (Let u h)"
  "(\<And>x y. handled_by (g x y)) \<Longrightarrow> handled_by (case w of (x, y) \<Rightarrow> g x y)"
  "handled_by p \<Longrightarrow> handled_by q \<Longrightarrow> (\<And>x. handled_by (f x))
    \<Longrightarrow> handled_by (case v of No_Dir \<Rightarrow> p | Not_A_Dir \<Rightarrow> q | Entries x \<Rightarrow> f x)"
  by (simp_all split: prod.split dir_listing.split)

lemma is_group_decl_value: "is_group_decl l \<noteq> Throws m"
  by (auto simp: is_group_decl_def Let_def split: list.split)

lemma parse_param_value_throws: "parse_param_value l = Throws m \<Longrightarrow> m = ''config line expected to be key=value''"
  by (auto simp: parse_param_value_def split: if_splits list.splits)

lemma exists_from_throws:
  assumes "exists_from grp param found n ls = Throws e"
  shows "e = ''config line expected to be key=value''"
  using assms
proof (induction ls arbitrary: found n)
  case (Cons l ls)
  show ?case
  proof (cases "is_group_decl (clean l)")
    case (Val gd)
    then show ?thesis
    proof (cases "parse_param_value (clean l)")
      case (Throws m)
      with Val Cons parse_param_value_throws [OF Throws] show ?thesis
        by (auto simp: Let_def simp del: list.inject split: if_splits option.splits)
    qed (use Val Cons in \<open>auto simp: Let_def simp del: list.inject split: if_splits option.splits prod.splits\<close>)
  qed (use Cons is_group_decl_value [of "clean l"] in \<open>auto simp: Let_def simp del: list.inject split: if_splits\<close>)
qed simp

lemma handled_says: "says m r \<Longrightarrow> r \<noteq> Throws ''bad_function_call'' \<Longrightarrow> handled_by m"
  unfolding handled_by_def
proof
  fix s assume "says m r" "r \<noteq> Throws ''bad_function_call''"
  with says_run [of m r s] show "fst (m s) \<noteq> Throws ''bad_function_call''" by auto
qed

lemma handled_cfg: "handled_by (config_exists fl path ls g p)" "handled_by (config_set fl path ls g p v)"
  using exists_from_throws [of g p False 0 ls]
  by (auto intro!: handled_says [OF config_exists_says] handled_says [OF config_set_says]
      simp: cfg_exists_def cfg_set_def cbind_def Let_def split: cxx.splits)

lemma handled_choose: "handled_by (choose_cfg name)"
  unfolding choose_cfg_def by (intro handled_cbnd handled_cseq handled_basic handled_split)

lemma handled_config:
  assumes "action \<in> {''default'', ''ensure'', ''get''}"
  shows "handled_by (exec_config e fl name grp param action raw)"
proof -
  have "handled_by (config_action fl path name grp param action val lines)" for path val lines
    using assms unfolding config_action_def
    by (elim insertE emptyE) (simp, intro handled_cbnd handled_cseq handled_basic handled_split handled_cfg)+
  then show ?thesis
    unfolding exec_config_def
    by (intro handled_cbnd handled_basic handled_substitute handled_split handled_choose)
qed

lemma handled_network:
  assumes "action \<in> {''default'', ''ensure'', ''check''}"
  shows "handled_by (exec_network e fl net action val)"
proof -
  have "handled_by (network_default e fl net val)" "handled_by (network_ensure e fl net val)" "handled_by (network_check net)"
    unfolding network_default_def network_ensure_def network_check_def
    by (intro handled_cbnd handled_cseq handled_basic handled_split)+
  with assms show ?thesis by (auto simp: exec_network_def)
qed

lemma handled_others: "handled_by (exec_fromtemplate e fl name action)" "handled_by (exec_net_list e st)"
  "handled_by (exec_if fl op a1 a2)" "handled_by (exec_var fl n v)"
  unfolding exec_fromtemplate_def exec_net_list_def exec_if_def exec_var_def
  by (intro handled_cbnd handled_cseq handled_basic handled_substitute handled_split)+

lemma handled_service: "handled_by (exec_service (CServiceControl e) action)"
  using service.exec_no_throw [of e action] by (simp add: handled_by_def no_throw_def)

lemma execute_handled: "wf_cmd c \<Longrightarrow> handled_by (execute e fl c)"
  by (cases c) (auto simp: execute_def handled_basic handled_others handled_service intro!: handled_config handled_network)

lemma run_commands_handled:
  assumes "list_all (\<lambda>c. wf_cmd (payload c)) cs" and "list_all (\<lambda>c. wf_cmd (payload c)) st"
  shows "handled_by (run_commands e fl cs st)"
  using assms
proof (induction cs arbitrary: st)
  case (Cons c cs)
  have "handled_by (run_guarded e fl st (payload c))"
  proof -
    have "wf_cmd (payload (last st))" if "st \<noteq> []" using that Cons.prems(2) by (auto simp: list_all_iff)
    with Cons.prems(1) show ?thesis
      unfolding run_guarded_def by (intro handled_split handled_cbnd handled_basic execute_handled) simp_all
  qed
  moreover have "list_all (\<lambda>c. wf_cmd (payload c)) (butlast st)"
    using Cons.prems(2) by (auto simp: list_all_iff dest: in_set_butlastD)
  moreover have "handled_by (lift (Undef u))" for u by (simp add: handled_by_def lift_app)
  moreover have "handled_by (print_cond_stack st)" for st by (simp add: print_cond_stack_def handled_basic)
  ultimately show ?case
    using Cons unfolding run_commands.simps Let_def by (intro handled_split handled_cseq handled_basic) simp_all
qed (simp add: handled_basic)

text \<open>
  C33. Setup scripts are typed: reading a script changes nothing but the output and gives well-formed commands only, and
  no run of such commands, under any conditions and in any state, calls an action that is not there.
\<close>

theorem script_type_safe:
  assumes "parse_lines fl n ls s = (Val cs, t)"
  shows "t = s\<lparr>out := out t\<rparr> \<and> list_all (\<lambda>c. wf_cmd (payload c)) cs
     \<and> fst (run_commands e fl2 cs [] u) \<noteq> Throws ''bad_function_call''"
  using parse_lines_wf [OF assms] run_commands_handled [of cs "[]" e fl2] by (simp add: handled_by_def)

section \<open>Every variable once\<close>

text \<open>\<open>variable_storage\<close> is a \<open>std::map\<close>: no run gives a name twice.\<close>

definition keeps_vars_ok :: "conf_state \<Rightarrow> conf_state \<Rightarrow> bool" where
  "keeps_vars_ok s t \<longleftrightarrow> (vars_ok (variable_storage s) \<longrightarrow> vars_ok (variable_storage t))"

interpretation vars: conf_preorder keeps_vars_ok
  by unfold_locales (simp_all add: keeps_vars_ok_def)

lemma confined_vars: "confined m \<Longrightarrow> conf_keeps keeps_vars_ok m"
  by (simp add: conf_keeps_def keeps_vars_ok_def same_conf_def)

lemma vars_files: "conf_keeps keeps_vars_ok (fs_copy e ow src dst)" "conf_keeps keeps_vars_ok (fs_rename e src dst)"
  "conf_keeps keeps_vars_ok (save_config e fl p ls)" "conf_keeps keeps_vars_ok (put_var n v)"
  by (simp_all add: conf_keeps_def keeps_vars_ok_def conf_simps Let_def set_var_ok split: option.split)

lemmas vars_rules = vars.keeps_rules vars_files say_confined [THEN confined_vars]

lemma vars_commands: "conf_keeps keeps_vars_ok (exec_network e fl net action val)"
  "conf_keeps keeps_vars_ok (exec_config e fl name grp param action val)" "conf_keeps keeps_vars_ok (exec_fromtemplate e fl name action)"
  "conf_keeps keeps_vars_ok (exec_net_list e st)" "conf_keeps keeps_vars_ok (exec_if fl op a1 a2)"
  "conf_keeps keeps_vars_ok (exec_var fl n v)"
  unfolding exec_network_def network_default_def network_ensure_def network_check_def exec_config_def choose_cfg_def
    config_action_def exec_fromtemplate_def exec_net_list_def exec_if_def exec_var_def
  by (intro vars_rules)+

lemma vars_execute: "conf_keeps keeps_vars_ok (execute e fl c)"
  using service.exec_confined [THEN confined_vars]
  by (cases c) (simp_all add: execute_def vars_commands vars_rules)

lemma vars_run_commands: "conf_keeps keeps_vars_ok (run_commands e fl cs st)"
proof (induction cs arbitrary: st)
  case (Cons c cs)
  then show ?case unfolding run_commands.simps run_guarded_def print_cond_stack_def by (intro vars_rules vars_execute)
qed (simp add: vars_rules)

section \<open>One command, three ways to write it\<close>

lemma represent_tokens:
  assumes "\<forall>w \<in> set (cmd_tokens c). w \<noteq> [] \<and> (\<forall>x \<in> set w. \<not> is_space x)"
  shows "tokenize_space (represent c) = cmd_tokens c"
  using tokenize_spaced [OF assms] by (simp add: represent_def string_join_def spaced_def)

lemma build_cong: "tokenize_space k = tokenize_space l \<Longrightarrow> build_cmd k = build_cmd l"
  by (simp add: build_cmd_def)

text \<open>The line of a script without its trailing space has the same words.\<close>

lemma tokenize_snoc: "is_space x \<Longrightarrow> tokenize_space (l @ [x]) = tokenize_space l"
  using split_at_append [of is_space x l "[]" "[]"] by (simp add: tokenize_space_split drop_empty_def)

lemma spaced_snoc: "ws \<noteq> [] \<Longrightarrow> \<exists>l. spaced ws = l @ '' '' \<and> l = spaced (butlast ws) @ last ws"
  by (cases ws rule: rev_cases) (auto simp: spaced_def)

lemma clean_spaced:
  assumes "ws \<noteq> []" and "\<forall>w \<in> set ws. w \<noteq> [] \<and> (\<forall>c \<in> set w. \<not> is_space c) \<and> CHR ''#'' \<notin> set w"
  shows "clean (spaced ws) = spaced (butlast ws) @ last ws"
proof -
  let ?l = "spaced (butlast ws) @ last ws"
  have l: "spaced ws = ?l @ '' ''" using spaced_snoc [OF assms(1)] by auto
  have last: "last ws \<noteq> []" using assms(2) last_in_set [OF assms(1)] by blast
  then have "\<not> is_space (last (last ws))" using assms(2) last_in_set [OF assms(1)] last_in_set by blast
  have "?l \<noteq> []" using last by simp
  moreover have "\<not> is_space (hd ?l)"
  proof (cases "butlast ws")
    case Nil
    moreover have "\<not> is_space (hd (last ws))" using assms(2) last_in_set [OF assms(1)] hd_in_set [OF last] by blast
    ultimately show ?thesis by (simp add: spaced_def)
  next
    case (Cons w us)
    then have "w \<in> set ws" by (metis in_set_butlastD list.set_intros(1))
    with assms(2) Cons show ?thesis by (simp add: spaced_def)
  qed
  moreover have "\<not> is_space (last ?l)" using last \<open>\<not> is_space (last (last ws))\<close> by simp
  moreover have "CHR ''#'' \<notin> set ?l"
    using assms(2) last_in_set [OF assms(1)] by (auto simp: spaced_def dest: in_set_butlastD)
  ultimately have "clean ?l = ?l" by (rule clean_id)
  moreover have "clean (?l @ '' '') = clean ?l"
    by (simp add: clean_def trim_def rtrim_def is_space_def)
  ultimately show ?thesis by (simp add: l)
qed

lemma parse_line_cong:
  assumes "tokenize_space k = tokenize_space l" and "tokenize_space l = c # ts" and "cmd_exists c"
  shows "parse_line_to_cmd fl k n = parse_line_to_cmd fl l n"
proof -
  have "build_cmd l s \<noteq> (Val None, t)" for s t
    using assms(2,3)
    by (auto simp: build_cmd_def cmd_exists_def instantiate_def cbnd_Val_iff cret_app Let_def)
  then show ?thesis
    using build_cong [OF assms(1)]
    by (intro ext) (auto simp: parse_line_to_cmd_def cbnd_app split: prod.split cxx.split option.split)
qed

lemma parse_lines_words:
  assumes "\<forall>ws \<in> set wss. ws \<noteq> [] \<and> cmd_exists (hd ws)
      \<and> (\<forall>w \<in> set ws. w \<noteq> [] \<and> (\<forall>c \<in> set w. \<not> is_space c) \<and> CHR ''#'' \<notin> set w)"
  shows "parse_lines fl n (map spaced wss) = parse_commands fl n (map spaced wss)"
  using assms
proof (induction wss arbitrary: n)
  case (Cons ws wss)
  let ?l = "spaced (butlast ws) @ last ws"
  have ws: "ws \<noteq> []" "cmd_exists (hd ws)"
    "\<forall>w \<in> set ws. w \<noteq> [] \<and> (\<forall>c \<in> set w. \<not> is_space c) \<and> CHR ''#'' \<notin> set w" using Cons.prems by auto
  have words: "tokenize_space (spaced ws) = ws" using tokenize_spaced [of ws] ws(3) by blast
  have line: "spaced ws = ?l @ '' ''" using spaced_snoc [OF ws(1)] by auto
  have "tokenize_space ?l = tokenize_space (spaced ws)"
    using tokenize_snoc [of "CHR '' ''" ?l] line by (simp add: is_space_def)
  with words ws(1,2) have "parse_line_to_cmd fl ?l n = parse_line_to_cmd fl (spaced ws) n"
    by (intro parse_line_cong [of _ _ "hd ws" "tl ws"]) simp_all
  moreover have "last ws \<noteq> []" using ws(3) last_in_set [OF ws(1)] by blast
  ultimately show ?case using Cons clean_spaced [OF ws(1,3)] by (simp add: Let_def)
qed simp

section \<open>Properties\<close>

text \<open>
  However the tool is started and however it ends, \<open>variable_storage\<close> has every name at most once, and in order.
\<close>

theorem variables_distinct:
  assumes "vars_ok (variable_storage s)"
  shows "vars_ok (variable_storage (snd (conf_main a e av s)))"
proof -
  have parse: "conf_keeps keeps_vars_ok (parse_line_to_cmd fl l n)" for fl l n
  proof -
    have "conf_keeps keeps_vars_ok (create ts)" if "registry name = Some create" for name create ts
      using registry_cases [OF that]
      by (elim insertE emptyE) (simp_all add: new_network_def new_net_list_def new_config_def new_fromtemplate_def new_if_def
          new_var_def new_service_def Let_def vars_rules)
    then have "conf_keeps keeps_vars_ok (instantiate name ts)" for name ts
      unfolding instantiate_def by (auto intro!: vars_rules split: option.split)
    then have "conf_keeps keeps_vars_ok (build_cmd l)"
      unfolding build_cmd_def Let_def by (cases "tokenize_space l") (auto intro!: vars_rules)
    then show ?thesis unfolding parse_line_to_cmd_def by (intro vars_rules)
  qed
  have parses: "conf_keeps keeps_vars_ok (parse_lines fl n ls)" "conf_keeps keeps_vars_ok (parse_commands fl n ls)" for fl n ls
    by (induction ls arbitrary: n) (auto simp: Let_def vars_rules parse)
  have "conf_keeps keeps_vars_ok (populate e a [])"
    by (auto simp: conf_keeps_def keeps_vars_ok_def populate_def conf_simps populate_ok split: cxx.split)
  moreover have "conf_keeps keeps_vars_ok (set_install_path p)" for p
    unfolding set_install_path_def by (intro vars_rules)
  moreover have "conf_keeps keeps_vars_ok (init_configs e fl f)" for fl f
    unfolding init_configs_def parse_setup_file_def by (intro vars_rules parses vars_run_commands)
  ultimately have "conf_keeps keeps_vars_ok (conf_main a e av)"
    unfolding conf_main_def Let_def by (intro vars_rules parses vars_run_commands)
  with assms show ?thesis by (simp add: conf_keeps_def keeps_vars_ok_def)
qed

text \<open>
  C34. A command can be written in three ways that mean the same. What \<open>represent\<close> prints for a command builds
  that command again. And the words behind \<^verbatim>\<open>-e\<close> give the commands of a setup script that has the words between two
  separators on a line, as long as each is a registered command without a comment sign; the script only adds its
  verbose message.
\<close>

theorem exec_is_script:
  assumes "\<forall>w \<in> set ws. w \<noteq> [] \<and> (\<forall>c \<in> set w. \<not> is_space c) \<and> CHR ''#'' \<notin> set w"
    and "\<forall>cw \<in> set (command_words [] ws). cw \<noteq> [] \<and> cmd_exists (hd cw)"
    and "files s f = Some (save_lines (command_lines [] ws))"
    and "build_cmd line u = (Val (Some c), v)"
  shows "build_cmd (represent c) = build_cmd line
     \<and> parse_setup_file fl f s
        = cseq (vsay fl (''[V] Parsing '' @ f @ '' as setup-script'')) (parse_commands fl 0 (command_lines [] ws)) s"
proof
  have words: "cmd_tokens c = tokenize_space line" using build_wf [OF assms(4)] by simp
  have "\<forall>w \<in> set (tokenize_space line). w \<noteq> [] \<and> (\<forall>c \<in> set w. \<not> is_space c)"
    using tokenize_space_chars by blast
  with words have "tokenize_space (represent c) = tokenize_space line" using represent_tokens [of c] by simp
  then show "build_cmd (represent c) = build_cmd line" by (rule build_cong)
  have lines: "command_lines [] ws = map spaced (command_words [] ws)"
    using command_lines_words [of "[]" ws] by (simp add: spaced_def)
  have sub: "set cw \<subseteq> set ws" if "cw \<in> set (command_words [] ws)" for cw
    using command_words_set [of "[]" ws] that by auto
  have "CHR 0x0A \<notin> set (spaced cw)" if "cw \<in> set (command_words [] ws)" for cw
  proof
    assume "CHR 0x0A \<in> set (spaced cw)"
    then obtain w where "w \<in> set cw" "CHR 0x0A \<in> set w" by (auto simp: spaced_def split: if_splits)
    with sub [OF that] assms(1) have "\<not> is_space (CHR 0x0A)" by blast
    then show False by (simp add: is_space_def)
  qed
  then have "load_lines (save_lines (command_lines [] ws)) = command_lines [] ws"
    unfolding lines by (intro load_save) auto
  moreover have "parse_lines fl 0 (map spaced (command_words [] ws)) = parse_commands fl 0 (map spaced (command_words [] ws))"
    using assms(1,2) sub by (intro parse_lines_words) blast
  ultimately show "parse_setup_file fl f s
      = cseq (vsay fl (''[V] Parsing '' @ f @ '' as setup-script'')) (parse_commands fl 0 (command_lines [] ws)) s"
    using assms(3) by (simp add: parse_setup_file_def conf_simps lines)
qed

section \<open>Witnesses\<close>

lemma sample_script:
  "parse_lines 0 0 [''service start'', ''endif''] sample_conf
     = (Val [\<lparr>cmd_tokens = [''service'', ''start''], payload = Service ''start''\<rparr>, \<lparr>cmd_tokens = [''endif''], payload = Endif\<rparr>], sample_conf)"
proof -
  have "clean ''service start'' = ''service start''" "clean ''endif'' = ''endif''"
    by (simp_all add: clean_id is_space_def)
  then show ?thesis
    by (simp add: parse_line_to_cmd_def build_cmd_def tokenize_space_split drop_empty_def is_space_def cmd_exists_def instantiate_def
        registry_def registrate_def new_service_def conf_simps)
qed

theorem script_type_safe_witness:
  "\<exists>cs t. parse_lines 0 0 [''service start'', ''endif''] sample_conf = (Val cs, t) \<and> list_all (\<lambda>c. wf_cmd (payload c)) cs
     \<and> fst (run_commands sample_env 0 cs [] sample_conf) \<noteq> Throws ''bad_function_call''"
  using script_type_safe [OF sample_script, of sample_env 0 sample_conf] sample_script by blast

theorem variables_distinct_witness:
  "vars_ok (variable_storage (snd (conf_main sample_host sample_env [''conf'', ''-e'', ''var'', ''A=1''] sample_conf)))"
  by (rule variables_distinct) (simp add: vars_ok_def sample_conf_def)

theorem exec_is_script_witness:
  "\<exists>s. parse_setup_file 0 ''a.setup'' s
     = cseq (vsay 0 (''[V] Parsing '' @ ''a.setup'' @ '' as setup-script''))
         (parse_commands 0 0 (command_lines [] [''endif'', ''and'', ''net_list'', ''on''])) s"
proof -
  let ?s = "sample_conf\<lparr>files := [''a.setup'' \<mapsto> save_lines (command_lines [] [''endif'', ''and'', ''net_list'', ''on''])]\<rparr>"
  have "build_cmd ''endif'' ?s = (Val (Some \<lparr>cmd_tokens = [''endif''], payload = Endif\<rparr>), ?s)"
    by (simp add: build_cmd_def tokenize_space_split drop_empty_def is_space_def cmd_exists_def instantiate_def
        registry_def registrate_def conf_simps)
  from exec_is_script [of "[''endif'', ''and'', ''net_list'', ''on'']" ?s "''a.setup''", OF _ _ _ this, of 0]
  show ?thesis by (intro exI [of _ ?s]) (simp add: is_space_def cmd_exists_def registry_def registrate_def)
qed

end
