(* ===== verification/Node_Config.thy ===== *)
theory Node_Config
  imports Node_Start Conf_Types
begin

text \<open>
  The configuration tool and the node together: a setting made with \<^verbatim>\<open>cellframe-node-config\<close> decides what the node does when it
  starts. Between the two stands the SDK's reader of configuration files, which is a parameter.
\<close>

section \<open>The reader\<close>

text \<open>
  What is asked of the reader: a parameter that has a value in the file has that value, and the texts \<^verbatim>\<open>true\<close> and \<^verbatim>\<open>false\<close> are
  read as booleans. \<open>dir\<close> is the directory that \<open>dap_config_init\<close> was given.
\<close>

definition reads_config :: "node_sdk \<Rightarrow> (string \<Rightarrow> string option) \<Rightarrow> string \<Rightarrow> bool" where
  "reads_config d F dir \<longleftrightarrow> (\<forall>c g p v. F (dir @ ''/'' @ NODE_NAME d @ ''.cfg'') = Some c \<and> ok_group g \<and> ok_param p
     \<and> cfg_get (load_lines c) g p = Val (Some v) \<longrightarrow>
       config_str d g p = Some v \<and> (v = ''true'' \<longrightarrow> (\<forall>x. config_bool d g p x)) \<and> (v = ''false'' \<longrightarrow> (\<forall>x. \<not> config_bool d g p x)))"

section \<open>The switches of the node\<close>

text \<open>Parameters that switch a call of \<open>main\<close> on or off, with the function that is called. The service for VPN is there on Linux.\<close>

definition switches :: "(string \<times> string \<times> string) list" where
  "switches = [(''server'', ''enabled'', ''dap_server_init''), (''plugins'', ''enabled'', ''dap_plugin_init''),
     (''log'', ''rotate_enabled'', ''dap_common_enable_cleaner_log''), (''srv_vpn'', ''enabled'', ''dap_chain_net_srv_vpn_init'')]"

lemma switch_cases:
  assumes "(g, p, f) \<in> set switches"
  obtains (server) "g = ''server''" "p = ''enabled''" "f = ''dap_server_init''"
  | (plugins) "g = ''plugins''" "p = ''enabled''" "f = ''dap_plugin_init''"
  | (log) "g = ''log''" "p = ''rotate_enabled''" "f = ''dap_common_enable_cleaner_log''"
  | (vpn) "g = ''srv_vpn''" "p = ''enabled''" "f = ''dap_chain_net_srv_vpn_init''"
proof -
  from assms have "(g, p, f) = (''server'', ''enabled'', ''dap_server_init'') \<or> (g, p, f) = (''plugins'', ''enabled'', ''dap_plugin_init'')
      \<or> (g, p, f) = (''log'', ''rotate_enabled'', ''dap_common_enable_cleaner_log'') \<or> (g, p, f) = (''srv_vpn'', ''enabled'', ''dap_chain_net_srv_vpn_init'')"
    by (simp only: switches_def list.set insert_iff empty_iff simp_thms)
  then show ?thesis
    unfolding prod.inject using that by (elim disjE conjE)
qed

lemmas script_parts = net_stages_def chain_stages_def vpn_pre_stages_def cli_stages_def late_stages_def log_script_def load_script_def
  boot_script_def server_script_def server_stages_def vpn_stages_def plugin_start_stages_def deinit_stages_def

lemma not_in_static:
  assumes "(g, p, f) \<in> set switches"
  shows "f \<notin> set (map stage_name chain_stages)" "f \<notin> set (map stage_name (vpn_pre_stages b))" "f \<notin> set (map stage_name cli_stages)"
    "f \<notin> set (map stage_name late_stages)" "f \<notin> set boot_script" "f \<notin> set (server_script b d srv)"
    "f \<notin> set (map stage_name (plugin_start_stages b plug))" "f \<notin> set (map stage_name (deinit_stages b d plug))"
    "f \<notin> {''dap_set_appname'', ''S_SetExceptionFilter'', ''dap_chain_node_mempool_autoproc_init'', ''dap_http_server_new'', ''dap_events_wait''}"
  using assms by (cases rule: switch_cases; auto simp: script_parts)+

lemma in_switched:
  assumes "(g, p, f) \<in> set switches" and "DAP_OS_LINUX b" and "\<not> DAP_OS_ANDROID b"
  shows "f \<in> set (map stage_name (net_stages b d)) \<union> set (log_script d) \<union> set (load_script b d plug) \<union> set (map stage_name (vpn_stages b d))
    \<longleftrightarrow> config_bool d g p False"
  using assms(1)
proof (cases rule: switch_cases)
  case server
  with assms(2,3) show ?thesis
    by (cases "config_bool d ''server'' ''enabled'' False") (auto simp: script_parts server_enabled_def)
next
  case plugins
  with assms(2,3) show ?thesis
    by (cases "config_bool d ''plugins'' ''enabled'' False") (auto simp: script_parts server_enabled_def)
next
  case log
  with assms(2,3) show ?thesis
    by (cases "config_bool d ''log'' ''rotate_enabled'' False") (auto simp: script_parts server_enabled_def)
next
  case vpn
  with assms(2,3) show ?thesis
    by (cases "config_bool d ''srv_vpn'' ''enabled'' False") (auto simp: script_parts server_enabled_def)
qed

lemma switch_in_script:
  assumes "(g, p, f) \<in> set switches" and "DAP_OS_LINUX b" and "\<not> DAP_OS_ANDROID b"
  shows "f \<in> set (node_script b d plug srv) \<longleftrightarrow> config_bool d g p False"
  using in_switched [OF assms, of d plug] not_in_static [OF assms(1)]
  by (auto simp: node_script_def up_script_def module_script_def simp del: set_map)

section \<open>The directory of the configuration\<close>

text \<open>The symbols of a build for Linux.\<close>

definition linux_build :: "build \<Rightarrow> bool" where
  "linux_build b \<longleftrightarrow> DAP_OS_LINUX b \<and> DAP_OS_UNIX b \<and> \<not> DAP_OS_ANDROID b \<and> \<not> DAP_OS_WINDOWS b \<and> \<not> DAP_OS_MAC b"

text \<open>\<open>config_at dir\<close>: between the two states only \<open>dir\<close> was handed to \<open>dap_config_init\<close>.\<close>

definition config_at :: "string \<Rightarrow> node_state \<Rightarrow> node_state \<Rightarrow> bool" where
  "config_at dir s t \<longleftrightarrow> (\<exists>new. ntrace t = ntrace s @ new \<and> (\<forall>xs rc. NCall ''dap_config_init'' xs rc \<in> set new \<longrightarrow> xs = [dir]))"

interpretation cdir: state_preorder "config_at dir" for dir
proof unfold_locales
  fix s t u assume "config_at dir s t" and "config_at dir t u"
  then obtain x y where "ntrace t = ntrace s @ x" "ntrace u = ntrace t @ y"
    "\<forall>xs rc. NCall ''dap_config_init'' xs rc \<in> set x \<union> set y \<longrightarrow> xs = [dir]" unfolding config_at_def by blast
  then show "config_at dir s u" unfolding config_at_def by (intro exI [of _ "x @ y"]) simp
qed (simp add: config_at_def)

lemma in_calls_of: "NCall f xs rc \<in> set h \<Longrightarrow> f \<in> set (calls_of h)"
  by (force simp: calls_of_def)

lemma scripted_config_at:
  assumes "scripted m S" and "\<And>a cs. (a, cs) \<in> S \<Longrightarrow> ''dap_config_init'' \<notin> set cs"
  shows "config_at dir s (snd (m s))"
proof -
  obtain r t where run: "m s = (r, t)" by fastforce
  with assms(1) obtain new where new: "ntrace t = ntrace s @ new"
    and S: "case r of Ret a \<Rightarrow> (a, calls_of new) \<in> S | _ \<Rightarrow> (\<exists>a cs. (a, cs) \<in> S \<and> prefix (calls_of new) cs)"
    unfolding scripted_def by blast
  from S obtain a cs where "(a, cs) \<in> S" "prefix (calls_of new) cs" by (cases r) auto
  with assms(2) have "''dap_config_init'' \<notin> set (calls_of new)" by (meson set_mono_prefix subsetD)
  with new run show ?thesis unfolding config_at_def by (auto dest: in_calls_of)
qed

lemma up_script_no_config: "''dap_config_init'' \<notin> set (up_script b d plug srv)"
  by (auto simp: up_script_def module_script_def script_parts)

lemma node_up_config_at: "config_at dir s (snd (node_up b d override s))"
  by (rule scripted_config_at [OF node_up_scripted]) (auto simp: up_script_no_config)

lemma node_dirs_config_at:
  assumes "sys_dir s = Some dir"
  shows "config_at (take (MAX_PATH d) (dir @ ''/etc'')) s (snd (node_dirs b d s))"
  using assms by (simp add: config_at_def node_dirs_def Let_def log_it_def void_def emit_def ncall_def delete_sys_dir_def prog_simps)

lemma choose_unix:
  assumes "\<not> DAP_OS_WINDOWS b" "\<not> DAP_OS_MAC b" "DAP_OS_UNIX b" "sys_dir s = None"
    and "\<not> (2 < length av \<and> dap_strcmp d ''-B'' (av ! 1) = 0)"
  shows "choose_sys_dir b d av s = (Ret (), s\<lparr>sys_dir := Some (''/opt/'' @ NODE_NAME d)\<rparr>)"
  using assms by (auto simp: choose_sys_dir_def set_global_sys_dir_def prog_simps)

lemma node_main_config_at:
  assumes "\<not> DAP_OS_WINDOWS b" "\<not> DAP_OS_MAC b" "DAP_OS_UNIX b" "sys_dir n = None"
    and "\<not> (2 < length av \<and> dap_strcmp d ''-B'' (av ! 1) = 0)"
  shows "config_at (take (MAX_PATH d) (''/opt/'' @ NODE_NAME d @ ''/etc'')) n (snd (node_main b d av n))"
    (is "config_at ?dir _ _")
proof -
  have pid: "config_at ?dir s (snd (pid_check b d s))" for s
    by (rule scripted_config_at [OF fixed_pid_check]) simp
  have rest: "config_at ?dir s (snd (seq (choose_sys_dir b d av) (seq (node_dirs b d) (seq (pid_check b d) (node_up b d ov))) s))"
    if "sys_dir s = None" for s ov
  proof (rule cdir.seq_at)
    note run = choose_unix [OF assms(1-3) that assms(5)]
    show "config_at ?dir s (snd (choose_sys_dir b d av s))" by (simp add: run config_at_def)
    fix u assume "choose_sys_dir b d av s = (Ret (), u)"
    then have "sys_dir u = Some (''/opt/'' @ NODE_NAME d)" by (auto simp: run)
    from node_dirs_config_at [OF this]
    show "config_at ?dir u (snd (seq (node_dirs b d) (seq (pid_check b d) (node_up b d ov)) u))"
      by (intro cdir.seq_at pid node_up_config_at) simp
  qed
  define win where "win = (if WIN32 b \<and> NDEBUG b then void ''S_SetExceptionFilter'' [] else ret ())"
  have void: "config_at ?dir s (snd (void f xs s))" if "f \<noteq> ''dap_config_init''" for f xs s
    using that by (intro scripted_config_at [OF scripted_void]) simp
  then have win: "config_at ?dir s (snd (win s))" for s
    by (simp add: win_def cdir.R_refl prog_simps)
  have body: "config_at ?dir n (snd (seq (void ''dap_set_appname'' [NODE_NAME d]) (seq win
      (seq (choose_sys_dir b d av) (seq (node_dirs b d) (seq (pid_check b d) (node_up b d ov))))) n))" for ov
    using assms(4) by (intro cdir.seq_at void win rest) (auto simp: win_def void_def emit_def prog_simps split: if_splits)
  have "config_at ?dir n (snd ((seq (log_it m) (exit_with 0) :: int node) n))" for m
    by (rule scripted_config_at [OF fixed_log_exit [where cs = "[]"]]) simp
  with body show ?thesis
    unfolding node_main_def win_def [symmetric] Let_def bnd_app [of "arg_opt av 1"] arg_opt_app
    by (simp add: cdir.R_refl)
qed

section \<open>The command line of the tool\<close>

lemma populate_linux:
  assumes "os e = OS_LINUX" and "plain_storage s"
  shows "\<exists>ws. populate e a [] s = (Val (), s\<lparr>variable_storage := ws\<rparr>) \<and> get_var ws ''CONFIGS_PATH'' = ''/opt/cellframe-node''
     \<and> plain_storage (s\<lparr>variable_storage := ws\<rparr>)"
proof -
  have names: "plain_name ''HOST_OS''" "plain_name ''HOSTNAME''" "plain_name ''CONFIGS_PATH''" "plain_name ''NODE_BINARY_PATH''"
    by (simp_all add: plain_name_def)
  have put: "plain_storage (s\<lparr>variable_storage := set_var ws n v\<rparr>)" if "plain_storage (s\<lparr>variable_storage := ws\<rparr>)" "plain_name n" for ws n v
    using plain_storage_put [OF that] by simp
  have "plain_storage (s\<lparr>variable_storage := variable_storage s\<rparr>)" using assms(2) by simp
  then obtain ws where "populate_variables OS_LINUX a [] (variable_storage s) = Val ws" "get_var ws ''CONFIGS_PATH'' = ''/opt/cellframe-node''"
    "plain_storage (s\<lparr>variable_storage := ws\<rparr>)"
    by (simp add: populate_variables_def getNodeConfigPath_def getNodeBinaryPath_def set_var_get put names)
  with assms show ?thesis by (intro exI [of _ ws]) (simp add: populate_def conf_simps)
qed

definition ensure_words :: "string \<Rightarrow> string \<Rightarrow> string \<Rightarrow> string list" where
  "ensure_words g p val = [''config'', ''cellframe-node'', g, p, ''ensure'', val]"

definition ensure_args :: "string \<Rightarrow> string \<Rightarrow> string \<Rightarrow> argv" where
  "ensure_args g p val = ''cellframe-node-config'' # ''-e'' # ensure_words g p val"

text \<open>A word of the command line that is no option, no separator and one token.\<close>

definition plain_word :: "string \<Rightarrow> bool" where
  "plain_word w \<longleftrightarrow> w \<noteq> [] \<and> hd w \<noteq> CHR ''-'' \<and> w \<noteq> ''and'' \<and> (\<forall>c \<in> set w. \<not> is_space c)"

lemma build_ensure:
  assumes "plain_word g" and "plain_word p" and "plain_word val"
  shows "build_cmd (spaced (ensure_words g p val)) s
     = (Val (Some \<lparr>cmd_tokens = ensure_words g p val, payload = Config ''cellframe-node'' g p ''ensure'' val\<rparr>), s)"
proof -
  have "tokenize_space (spaced (ensure_words g p val)) = ensure_words g p val"
    using assms by (intro tokenize_spaced) (auto simp: ensure_words_def plain_word_def is_space_def)
  then show ?thesis
    unfolding build_cmd_def
    by (simp add: ensure_words_def cmd_exists_def instantiate_def registry_def registrate_def new_config_def conf_simps)
qed

lemma plain_no_option: "plain_word w \<Longrightarrow> CHR ''-'' # x \<noteq> w"
  by (auto simp: plain_word_def)

lemma ensure_options:
  assumes "plain_word g" and "plain_word p" and "plain_word val" and "CHR ''-'' # x \<noteq> ''-e''"
  shows "\<not> cmdOptionExists (ensure_args g p val) (CHR ''-'' # x)" and "behind (CHR ''-'' # x) (ensure_args g p val) = []"
proof -
  have no: "CHR ''-'' # x \<notin> set (ensure_args g p val)"
    using assms(4) plain_no_option [OF assms(1)] plain_no_option [OF assms(2)] plain_no_option [OF assms(3)]
    by (auto simp: ensure_args_def ensure_words_def)
  then show "\<not> cmdOptionExists (ensure_args g p val) (CHR ''-'' # x)" by (simp add: cmdOptionExists_def)
  from no have d: "dropWhile (\<lambda>a. a \<noteq> CHR ''-'' # x) (ensure_args g p val) = []" by (auto simp: dropWhile_eq_Nil_conv)
  show "behind (CHR ''-'' # x) (ensure_args g p val) = []" by (simp only: behind_def d drop_Nil)
qed

lemma main_ensure:
  assumes "plain_word g" and "plain_word p" and "plain_word val"
    and "exec_config e 0 ''cellframe-node'' g p ''ensure'' val (s\<lparr>variable_storage := ws\<rparr>) = (Val True, t)"
    and "populate e a [] s = (Val (), s\<lparr>variable_storage := ws\<rparr>)"
  shows "conf_main a e (ensure_args g p val) s = (Val 0, t)"
proof -
  note opt = ensure_options [OF assms(1-3)]
  have ex: "cmdOptionExists (ensure_args g p val) ''-e''" by (simp add: cmdOptionExists_def ensure_args_def)
  have fl: "main_flags (ensure_args g p val) = 0" by (simp add: main_flags_def opt)
  have path: "getCmdOption (ensure_args g p val) ''--path'' ''-p'' = []" by (simp add: getCmdOption_def opt)
  have "behind ''-e'' (ensure_args g p val) = ensure_words g p val" by (simp add: behind_def ensure_args_def)
  then have lines: "command_lines [] (behind ''-e'' (ensure_args g p val)) = [spaced (ensure_words g p val)]"
    using assms(1-3) by (simp add: spaced_def ensure_words_def plain_word_def)
  show ?thesis
    unfolding conf_main_def Let_def cseq_app assms(5) fl path
    by (simp add: opt ex lines set_install_path_def conf_simps parse_line_to_cmd_def build_ensure [OF assms(1-3)]
        run_guarded_def execute_def assms(4) Let_def)
qed

text \<open>What the run leaves in the configuration of the node.\<close>

lemma ensure_run:
  assumes "os e = OS_LINUX" and "plain_word g" and "plain_word p" and "plain_word val"
    and "ok_group g" and "ok_param p" and "ok_value val" and "CHR ''$'' \<notin> set val"
    and "files s ''/opt/cellframe-node/etc/cellframe-node.cfg'' = Some c" and "legible (load_lines c)"
    and "can_write e ''/opt/cellframe-node/etc/cellframe-node.cfg''" and "conf_main a e (ensure_args g p val) s = (r, t)"
    and "plain_storage s"
  shows "\<exists>c'. r = Val 0 \<and> files t = (files s)(''/opt/cellframe-node/etc/cellframe-node.cfg'' \<mapsto> c')
     \<and> cfg_get (load_lines c') g p = Val (Some val)"
proof -
  let ?p = "''/opt/cellframe-node/etc/cellframe-node.cfg''"
  obtain ws where ws: "populate e a [] s = (Val (), s\<lparr>variable_storage := ws\<rparr>)" "get_var ws ''CONFIGS_PATH'' = ''/opt/cellframe-node''"
    and plain: "plain_storage (s\<lparr>variable_storage := ws\<rparr>)"
    using populate_linux [OF assms(1,13)] by blast
  let ?s = "s\<lparr>variable_storage := ws\<rparr>"
  have chosen: "chosen ?s ''cellframe-node'' = ?p"
    by (simp add: chosen_def config_path_def path_of_def path_join_def ws(2) Let_def)
  have nl: "CHR 0x0A \<notin> set w" if "plain_word w" for w
    using that by (auto simp: plain_word_def is_space_def)
  have sub: "substitute_variables (variable_storage ?s) val = Val val"
    using plain assms(8) by (intro substitute_no_dollar) (simp_all add: plain_storage_def)
  obtain t' c' where run: "exec_config e 0 ''cellframe-node'' g p ''ensure'' val ?s = (Val True, t')"
    "files t' = (files s)(?p := Some c')" "cfg_get (load_lines c') g p = Val (Some val)"
    using exec_config_ensure [of ?s "''cellframe-node''" c e g p val val 0, unfolded chosen, OF _ assms(10,11,5,6) nl [OF assms(2)]
        nl [OF assms(3)] sub assms(7) nl [OF assms(4)]] assms(9) by auto
  then show ?thesis using main_ensure [OF assms(2-4) run(1) ws(1)] assms(12) by auto
qed

lemma switch_words:
  assumes "(g, p, f) \<in> set switches"
  shows "plain_word g \<and> plain_word p \<and> ok_group g \<and> ok_param p"
  using assms by (cases rule: switch_cases) (simp_all add: plain_word_def is_space_def ok_group_def ok_param_def)

lemma bool_words:
  assumes "val \<in> {''true'', ''false''}"
  shows "plain_word val \<and> ok_value val \<and> CHR ''$'' \<notin> set val"
  using assms by (elim insertE emptyE) (simp_all add: plain_word_def is_space_def ok_value_def)

section \<open>Property\<close>


section \<open>Witness\<close>

text \<open>A reader that looks the values up in the lines of a file.\<close>

definition file_sdk :: "string list \<Rightarrow> node_sdk" where
  "file_sdk ls = sample_node\<lparr>
     config_str := (\<lambda>g p. case cfg_get ls g p of Val v \<Rightarrow> v | _ \<Rightarrow> None),
     config_bool := (\<lambda>g p x. case cfg_get ls g p of
         Val (Some v) \<Rightarrow> if v = ''true'' then True else if v = ''false'' then False else x | _ \<Rightarrow> x)\<rparr>"

lemma file_sdk_reads: "F (dir @ ''/cellframe-node.cfg'') = Some c \<Longrightarrow> reads_config (file_sdk (load_lines c)) F dir"
  by (simp add: reads_config_def file_sdk_def sample_node_def)


end
