(* ===== verification/Conf_Verbose.thy ===== *)
theory Conf_Verbose
  imports Conf_Types "HOL-Library.Sublist"
begin

text \<open>
  What \<^verbatim>\<open>-v\<close> does to a run of the configuration tool: nothing but print more. Two runs are compared, one with the
  flag and one without; a rule for each construct of the programs, a lemma for each command, and the theorem about \<open>main\<close>.
\<close>

section \<open>Two runs side by side\<close>

text \<open>The second state is the first one, with texts added to its output.\<close>

definition quieter :: "conf_state \<Rightarrow> conf_state \<Rightarrow> bool" where
  "quieter s t \<longleftrightarrow> t = s\<lparr>out := out t\<rparr> \<and> subseq (out s) (out t)"

text \<open>From such states both programs have the same result and end in such states.\<close>

definition louder :: "'a conf \<Rightarrow> 'a conf \<Rightarrow> bool" where
  "louder m m' \<longleftrightarrow> (\<forall>s t. quieter s t \<longrightarrow> fst (m s) = fst (m' t) \<and> quieter (snd (m s)) (snd (m' t)))"

lemma quieterE:
  assumes "quieter s t"
  obtains x where "t = s\<lparr>out := x\<rparr>" and "subseq (out s) x"
  using assms unfolding quieter_def by blast

lemma quieter_out: "subseq (out s) x \<Longrightarrow> quieter s (s\<lparr>out := x\<rparr>)"
  by (simp add: quieter_def)

lemma louderI:
  assumes "\<And>s x. subseq (out s) x \<Longrightarrow> fst (m s) = fst (m' (s\<lparr>out := x\<rparr>)) \<and> quieter (snd (m s)) (snd (m' (s\<lparr>out := x\<rparr>)))"
  shows "louder m m'"
  unfolding louder_def
proof (intro allI impI)
  fix s t assume "quieter s t"
  then obtain x where "t = s\<lparr>out := x\<rparr>" "subseq (out s) x" by (rule quieterE)
  with assms show "fst (m s) = fst (m' t) \<and> quieter (snd (m s)) (snd (m' t))" by simp
qed

lemma louderD:
  assumes "louder m m'" and "quieter s t" and "m s = (r, s')"
  shows "\<exists>t'. m' t = (r, t') \<and> quieter s' t'"
  using assms unfolding louder_def by (metis fst_conv prod.collapse snd_conv)

lemma louder_cbnd:
  assumes "louder m m'" and "\<And>a. louder (k a) (k' a)"
  shows "louder (cbnd m k) (cbnd m' k')"
  unfolding louder_def
proof (intro allI impI)
  fix s t assume "quieter s t"
  obtain r u where m: "m s = (r, u)" by fastforce
  from louderD [OF assms(1) \<open>quieter s t\<close> m] obtain v where v: "m' t = (r, v)" "quieter u v" by blast
  show "fst (cbnd m k s) = fst (cbnd m' k' t) \<and> quieter (snd (cbnd m k s)) (snd (cbnd m' k' t))"
    using m v assms(2) by (cases r) (auto simp: cbnd_app louder_def)
qed

lemma louder_cseq: "louder m m' \<Longrightarrow> louder k k' \<Longrightarrow> louder (cseq m k) (cseq m' k')"
  unfolding cseq_def by (rule louder_cbnd)

lemma louder_split:
  "(c \<Longrightarrow> louder p p') \<Longrightarrow> (\<not> c \<Longrightarrow> louder q q') \<Longrightarrow> louder (if c then p else q) (if c then p' else q')"
  "louder p p' \<Longrightarrow> (\<And>x. louder (f x) (f' x))
    \<Longrightarrow> louder (case v of None \<Rightarrow> p | Some x \<Rightarrow> f x) (case v of None \<Rightarrow> p' | Some x \<Rightarrow> f' x)"
  "(\<And>x y. louder (g x y) (g' x y)) \<Longrightarrow> louder (case w of (x, y) \<Rightarrow> g x y) (case w of (x, y) \<Rightarrow> g' x y)"
  "louder p p' \<Longrightarrow> louder q q' \<Longrightarrow> (\<And>x. louder (h x) (h' x))
    \<Longrightarrow> louder (case d of No_Dir \<Rightarrow> p | Not_A_Dir \<Rightarrow> q | Entries x \<Rightarrow> h x)
               (case d of No_Dir \<Rightarrow> p' | Not_A_Dir \<Rightarrow> q' | Entries x \<Rightarrow> h' x)"
  by (simp_all split: option.split prod.split dir_listing.split)

text \<open>A program that does not look at the output.\<close>

lemma louder_cget: "(\<And>s x. f (s\<lparr>out := x\<rparr>) = f s) \<Longrightarrow> louder (cget f) (cget f)"
  by (rule louderI) (simp add: cget_app quieter_out)

lemma louder_pure: "louder (cret a) (cret a)" "louder (cthrow m) (cthrow m)" "louder (lift r) (lift r)"
  "louder (fexists p) (fexists p)" "louder (cpath n st) (cpath n st)"
  by (rule louderI, simp add: conf_simps quieter_out)+

lemma louder_write: "louder (put_var n v) (put_var n v)" "louder (fs_copy e ow src dst) (fs_copy e ow src dst)"
  "louder (fs_rename e src dst) (fs_rename e src dst)" "louder (write_file p c) (write_file p c)"
  by (rule louderI, simp add: conf_simps quieter_def split: option.split)+

lemma louder_print: "louder (print m) (print m)" "louder (say m) (say m)" "louder (say_all ls) (say_all ls)"
  by (rule louderI, simp add: conf_simps quieter_def list_emb_append_mono)+

section \<open>The flag\<close>

abbreviation loud :: "flags \<Rightarrow> flags" where
  "loud fl \<equiv> fl OR F_VERBOSE"

lemma loud_bits: "verbose (loud fl)" "dryrun (loud fl) = dryrun fl"
  by (simp_all add: verbose_def dryrun_def F_VERBOSE_def F_DRYRUN_def bit.conj_disj_distrib2 flip: word_ao_dist)

lemma louder_vsay: "louder (vsay fl m) (vsay (loud fl) m)" "louder (vprint fl m) (vprint (loud fl) m)"
  by (rule louderI, auto simp: conf_simps loud_bits quieter_def intro: list_emb_append2)+

lemmas louder_rules = louder_cbnd louder_cseq louder_split louder_pure louder_write louder_print louder_vsay

section \<open>The configuration file\<close>

lemma louder_open: "louder (open_config fl p) (open_config (loud fl) p)"
  unfolding open_config_def Let_def by (intro louder_rules louder_cget) simp

lemma louder_exists_steps:
  "louder (exists_steps fl grp param gn found n ls) (exists_steps (loud fl) grp param gn found n ls)"
  by (induction ls arbitrary: gn found n) (simp_all only: exists_steps.simps Let_def, (intro louder_rules | assumption)+)

lemma louder_config: "louder (config_exists fl p ls g q) (config_exists (loud fl) p ls g q)"
  "louder (config_set fl p ls g q v) (config_set (loud fl) p ls g q v)"
  "louder (config_replace_placeholders fl p ls) (config_replace_placeholders (loud fl) p ls)"
  unfolding config_set_def config_exists_def config_replace_placeholders_def Let_def
  by (intro louder_rules louder_exists_steps louder_cget; simp)+

lemma louder_save: "louder (save_config e fl p ls) (save_config e (loud fl) p ls)"
  unfolding save_config_def loud_bits by (intro louder_rules)

section \<open>The commands\<close>

lemma louder_shell: "louder (shell e cmd) (shell e cmd)" "louder (callSecScript script) (callSecScript script)"
  "louder (\<lambda>s. (Val (), s\<lparr>ext_calls := h\<rparr>)) (\<lambda>s. (Val (), s\<lparr>ext_calls := h\<rparr>))"
  by (rule louderI, simp add: shell_def callSecScript_def quieter_def)+

lemma louder_runShellAdmin: "louder (runShellAdmin e app cmd) (runShellAdmin e app cmd)"
  unfolding runShellAdmin_def Let_def
  by (intro louder_rules louder_shell louder_cget; simp)

lemma louder_report: "louder m m \<Longrightarrow> louder (report m msg) (report m msg)"
  unfolding report_def by (intro louder_rules)

lemma louder_succeeded: "louder m m \<Longrightarrow> louder (succeeded m) (succeeded m)"
  unfolding succeeded_def by (intro louder_rules)

definition service_oblivious :: "service_ops \<Rightarrow> bool" where
  "service_oblivious ops \<longleftrightarrow> louder (enable ops) (enable ops) \<and> louder (disable ops) (disable ops)
     \<and> louder (serviceStatus ops) (serviceStatus ops) \<and> louder (start ops) (start ops) \<and> louder (stop ops) (stop ops)
     \<and> louder (restart ops) (restart ops)"

lemma louder_exec_service: "service_oblivious ops \<Longrightarrow> louder (exec_service ops action) (exec_service ops action)"
  unfolding exec_service_def service_oblivious_def by (elim conjE) (intro louder_rules louder_report)

lemma services_oblivious: "service_oblivious (linux_service e)" "service_oblivious (apple_service e)" "service_oblivious (windows_service e)"
  unfolding service_oblivious_def linux_defs apple_defs windows_defs service_ops.simps Let_def
  by (intro conjI louder_rules louder_succeeded louder_shell louder_runShellAdmin louder_cget; simp)+

lemma louder_service: "louder (exec_service (CServiceControl e) action) (exec_service (CServiceControl e) action)"
  by (cases "os e") (simp_all add: CServiceControl_def louder_exec_service services_oblivious)

lemma louder_network: "louder (exec_network e fl net action val) (exec_network e (loud fl) net action val)"
  unfolding exec_network_def network_default_def network_ensure_def network_check_def loud_bits Let_def
  by (intro louder_rules)

lemma louder_exec_config:
  "louder (exec_config e fl name grp param action raw) (exec_config e (loud fl) name grp param action raw)"
  unfolding exec_config_def choose_cfg_def config_action_def Let_def
  by (intro louder_rules louder_config louder_open louder_save louder_cget; simp)

lemma louder_fromtemplate: "louder (exec_fromtemplate e fl name action) (exec_fromtemplate e (loud fl) name action)"
  unfolding exec_fromtemplate_def loud_bits by (intro louder_rules louder_config louder_open louder_save)

lemma louder_others: "louder (exec_net_list e st) (exec_net_list e st)"
  "louder (exec_if fl op a1 a2) (exec_if (loud fl) op a1 a2)" "louder (exec_var fl n v) (exec_var (loud fl) n v)"
  unfolding exec_net_list_def exec_if_def exec_var_def Let_def by (intro louder_rules louder_cget; simp)+

lemma louder_execute: "louder (execute e fl c) (execute e (loud fl) c)"
  by (cases c) (simp_all add: execute_def louder_network louder_exec_config louder_fromtemplate louder_others louder_service louder_pure)

section \<open>Scripts\<close>

lemma louder_new: "louder (new_network ts) (new_network ts)" "louder (new_net_list ts) (new_net_list ts)"
  "louder (new_config ts) (new_config ts)" "louder (new_fromtemplate ts) (new_fromtemplate ts)" "louder (new_if ts) (new_if ts)"
  "louder (new_var ts) (new_var ts)" "louder (new_service ts) (new_service ts)"
  unfolding new_network_def new_net_list_def new_config_def new_fromtemplate_def new_if_def new_var_def new_service_def Let_def
  by (intro louder_rules)+

lemma louder_build: "louder (build_cmd line) (build_cmd line)"
proof -
  have "louder (create ts) (create ts)" if "registry name = Some create" for name create ts
    using registry_cases [OF that] by (auto intro: louder_new louder_pure)
  then have "louder (instantiate name ts) (instantiate name ts)" for name ts
    unfolding instantiate_def by (auto intro!: louder_rules split: option.split)
  then show ?thesis
    unfolding build_cmd_def Let_def by (cases "tokenize_space line") (auto intro!: louder_rules)
qed

lemma louder_parse_line: "louder (parse_line_to_cmd fl line n) (parse_line_to_cmd (loud fl) line n)"
  unfolding parse_line_to_cmd_def by (intro louder_rules louder_build)

lemma louder_parse: "louder (parse_lines fl n ls) (parse_lines (loud fl) n ls)"
  "louder (parse_commands fl n ls) (parse_commands (loud fl) n ls)"
proof (induction ls arbitrary: n)
  case (Cons l ls)
  { case 1 show ?case unfolding parse_lines.simps Let_def by (intro louder_rules louder_parse_line Cons) }
  { case 2 show ?case unfolding parse_commands.simps by (intro louder_rules louder_parse_line Cons) }
qed (simp_all add: louder_pure)

text \<open>The stack is printed in the loud run only.\<close>

lemma louder_stack:
  "louder (if verbose fl then print_cond_stack st else cret ()) (if verbose (loud fl) then print_cond_stack st else cret ())"
  using louder_vsay(1) [of fl] unfolding print_cond_stack_def vsay_def .

lemma louder_run: "louder (run_commands e fl cs st) (run_commands e (loud fl) cs st)"
proof (induction cs arbitrary: st)
  case (Cons c cs)
  then show ?case
    unfolding run_commands.simps run_guarded_def Let_def
    by (intro louder_cseq louder_stack louder_split louder_cbnd louder_pure louder_execute)
qed (simp add: louder_pure)

lemma louder_init: "louder (init_configs e fl f) (init_configs e (loud fl) f)"
  unfolding init_configs_def parse_setup_file_def
  by (intro louder_rules louder_parse louder_run louder_cget; simp)

section \<open>The option\<close>

text \<open>\<^verbatim>\<open>-v\<close> right behind the name of the program. Every other option is found as before.\<close>

lemma option_behind:
  assumes "opt \<noteq> prog" and "opt \<noteq> ''-v''"
  shows "cmdOptionExists (prog # ''-v'' # av) opt = cmdOptionExists (prog # av) opt"
    and "behind opt (prog # ''-v'' # av) = behind opt (prog # av)"
  using assms by (auto simp: cmdOptionExists_def behind_def)

lemma main_flags_loud:
  assumes "hd prog \<noteq> CHR ''-''" and "prog \<noteq> []"
  shows "main_flags (prog # ''-v'' # av) = loud (main_flags (prog # av))"
proof -
  have "CHR ''-'' # x \<noteq> prog" for x using assms by auto
  then show ?thesis
    by (auto simp: main_flags_def cmdOptionExists_def Let_def or.assoc or.commute or.left_commute)
qed

lemma louder_populate: "louder (populate e a base) (populate e a base)"
proof -
  have "louder (\<lambda>s. (Val (), s\<lparr>variable_storage := ws\<rparr>)) (\<lambda>s. (Val (), s\<lparr>variable_storage := ws\<rparr>))" for ws
    by (rule louderI) (simp add: quieter_def)
  then show ?thesis unfolding populate_def by (intro louder_rules louder_cget) simp
qed

lemma louder_main:
  assumes "hd prog \<noteq> CHR ''-''" and "prog \<noteq> []"
  shows "louder (conf_main a e (prog # av)) (conf_main a e (prog # ''-v'' # av))"
proof -
  have no: "CHR ''-'' # x \<noteq> prog" for x using assms by auto
  note opt = option_behind [OF no]
  have get: "getCmdOption (prog # ''-v'' # av) ''--path'' ''-p'' = getCmdOption (prog # av) ''--path'' ''-p''"
    "getCmdOption (prog # ''-v'' # av) ''--init'' ''-i'' = getCmdOption (prog # av) ''--init'' ''-i''"
    by (simp_all add: getCmdOption_def opt Let_def)
  have path: "louder (set_install_path p) (set_install_path p)" for p
    unfolding set_install_path_def by (intro louder_rules)
  have opts: "cmdOptionExists (prog # ''-v'' # av) w = cmdOptionExists (prog # av) w"
    if "w \<in> {''-h'', ''--help'', ''--vars'', ''-s'', ''-i'', ''--init'', ''-e'', ''--exec''}" for w
    using that by (elim insertE emptyE) (simp_all add: opt)
  have words: "behind (if b then ''--exec'' else ''-e'') (prog # ''-v'' # av) = behind (if b then ''--exec'' else ''-e'') (prog # av)" for b
    by (simp add: opt)
  show ?thesis
    unfolding conf_main_def main_flags_loud [OF assms] get words Let_def
    by (subst opts, simp)+ (intro louder_rules louder_populate louder_init louder_parse louder_run path louder_cget; simp)
qed

section \<open>Property\<close>

text \<open>
  C31. \<^verbatim>\<open>-v\<close> is harmless: a run of the tool with \<^verbatim>\<open>-v\<close> behind the name of the program ends as the run without it, with
  the same result or exception, the same files, the same variables and the same external commands, and it prints
  everything the other prints, in the same order, with more in between.
\<close>

theorem verbose_only_prints:
  assumes "hd prog \<noteq> CHR ''-''" and "prog \<noteq> []" and "conf_main a e (prog # av) s = (r, t)"
  shows "\<exists>t'. conf_main a e (prog # ''-v'' # av) s = (r, t') \<and> t' = t\<lparr>out := out t'\<rparr> \<and> subseq (out t) (out t')"
  using louderD [OF louder_main [OF assms(1,2)] _ assms(3), of s] by (auto simp: quieter_def)

theorem verbose_only_prints_witness:
  "\<exists>r t t'. conf_main sample_host sample_env [''conf'', ''-e'', ''var'', ''A=1''] sample_conf = (r, t)
     \<and> conf_main sample_host sample_env [''conf'', ''-v'', ''-e'', ''var'', ''A=1''] sample_conf = (r, t') \<and> files t' = files t"
proof -
  obtain r t where run: "conf_main sample_host sample_env [''conf'', ''-e'', ''var'', ''A=1''] sample_conf = (r, t)"
    by fastforce
  from verbose_only_prints [OF _ _ run] obtain t' where
    "conf_main sample_host sample_env [''conf'', ''-v'', ''-e'', ''var'', ''A=1''] sample_conf = (r, t')" "t' = t\<lparr>out := out t'\<rparr>"
    by auto
  moreover from this(2) have "files t' = files t" by (metis conf_state.select_convs(2) conf_state.surjective conf_state.update_convs(3))
  ultimately show ?thesis using run by blast
qed

end
