(* ===== verification/Conf_Template.thy ===== *)
theory Conf_Template
  imports Conf_Types
begin

text \<open>
  \<^verbatim>\<open>fromtemplate\<close>: the configuration a template gives. The file that the command writes, read back, has the values of
  the template with the variables substituted.
\<close>

section \<open>Substitution behind a prefix\<close>

lemma replace_all_acc:
  assumes "CHR ''$'' \<notin> set v"
  shows "replace_all lit v acc s = rev acc @ replace_all lit v [] s"
proof (induction s arbitrary: acc rule: length_induct)
  case (1 s)
  show ?case
  proof (cases s)
    case (Cons c cs)
    show ?thesis
    proof (cases "lit \<noteq> [] \<and> take (length lit) (c # cs) = lit")
      case True
      with Cons assms show ?thesis by (simp add: expand_no_dollar)
    next
      case False
      from 1 [rule_format, of cs "c # acc"] 1 [rule_format, of cs "[c]"] Cons False show ?thesis by auto
    qed
  qed simp
qed

text \<open>The text a substitution gives; with plain names it always gives one.\<close>

definition substituted :: "vars \<Rightarrow> string \<Rightarrow> string" where
  "substituted vs x = (case substitute_variables vs x of Val w \<Rightarrow> w | _ \<Rightarrow> x)"

abbreviation plain_vars :: "vars \<Rightarrow> bool" where
  "plain_vars vs \<equiv> \<forall>(n, v) \<in> set vs. plain_name n \<and> CHR ''$'' \<notin> set v"

lemma plain_vars_name: "plain_vars vs \<Longrightarrow> \<forall>(n, v) \<in> set vs. plain_name n"
  by auto

lemma substituted_val: "vars_ok vs \<Longrightarrow> plain_vars vs \<Longrightarrow> substitute_variables vs x = Val (substituted vs x)"
  using substitute_entries [OF _ plain_vars_name] unfolding substituted_def by fastforce

lemma substitute_prefix:
  assumes "vars_ok vs" and "plain_vars vs" and "CHR ''$'' \<notin> set t"
  shows "substituted vs (t @ r) = t @ substituted vs r"
proof -
  obtain ys where ys: "\<forall>s. substitute_variables vs s = Val (foldl (\<lambda>t (n, v). replace_all (ref_text n) v [] t) s ys)" "set ys = set vs"
    using substitute_entries [OF assms(1) plain_vars_name [OF assms(2)]] by blast
  have "foldl (\<lambda>t (n, v). replace_all (ref_text n) v [] t) (t @ r) xs
      = t @ foldl (\<lambda>t (n, v). replace_all (ref_text n) v [] t) r xs" if "set xs \<subseteq> set vs" for xs
    using that
  proof (induction xs arbitrary: r)
    case (Cons x xs)
    obtain n v where x: "x = (n, v)" by fastforce
    with Cons.prems assms(2) have v: "CHR ''$'' \<notin> set v" by auto
    have "replace_all (ref_text n) v [] (t @ r) = t @ replace_all (ref_text n) v [] r"
      using replace_all_skip [OF assms(3), of "''{'' @ n @ ''}''" v "[]" r] replace_all_acc [OF v, of "ref_text n" "rev t" r] by simp
    with Cons x show ?case by simp
  qed simp
  with ys show ?thesis by (simp add: substituted_def)
qed

section \<open>Templates\<close>

text \<open>
  A line of a template that keeps its meaning: blank or a comment, the declaration of a group, or a parameter with its value,
  whose value after the substitution can still be read. References stand in values only.
\<close>

definition template_line :: "vars \<Rightarrow> string \<Rightarrow> bool" where
  "template_line vs l \<longleftrightarrow> (case classify l of
      Val Blank \<Rightarrow> True
    | Val (Group g) \<Rightarrow> clean l = ''['' @ g @ '']'' \<and> ok_group g \<and> CHR ''$'' \<notin> set g
    | Val (Pair p v) \<Rightarrow> clean l = p @ ''='' @ v \<and> ok_param p \<and> CHR ''$'' \<notin> set p
        \<and> ok_value (substituted vs v) \<and> CHR 0x0A \<notin> set (substituted vs v)
    | _ \<Rightarrow> False)"

fun subst_entry :: "vars \<Rightarrow> cline \<Rightarrow> cline" where
  "subst_entry vs (Pair p v) = Pair p (substituted vs v)"
| "subst_entry vs c = c"

lemma lookup_subst:
  "lookup_from g p found (map (subst_entry vs) cs) = map_option (substituted vs) (lookup_from g p found cs)"
  by (induction g p found cs rule: lookup_from.induct) auto

lemma clean_subset: "set (clean l) \<subseteq> set l"
proof
  fix x assume "x \<in> set (clean l)"
  then have "x \<in> set (dropWhile is_space (rtrim l))" by (auto simp: clean_def trim_def ltrim_def dest: set_takeWhileD)
  then have "x \<in> set (rtrim l)" by (rule set_dropWhileD)
  then have "x \<in> set (dropWhile is_space (rev l))" by (simp add: rtrim_def)
  from set_dropWhileD [OF this] show "x \<in> set l" by simp
qed

lemma template_line_entry:
  assumes "vars_ok vs" and "plain_vars vs" and "template_line vs l" and "CHR 0x0A \<notin> set l"
  defines "l' \<equiv> (let line = clean l in if line = [] then l else substituted vs line)"
  shows "classify l' = Val (subst_entry vs (entry_of l)) \<and> CHR 0x0A \<notin> set l' \<and> classify l = Val (entry_of l)"
proof -
  obtain c where c: "classify l = Val c" using assms(3) by (auto simp: template_line_def split: cxx.splits)
  note entry = entry_of_Val [OF c]
  from c show ?thesis
  proof (cases rule: classify_cases)
    case Blank
    with c assms(4) show ?thesis by (simp add: l'_def entry)
  next
    case (Group g)
    with assms(3) c have g: "clean l = ''['' @ g @ '']''" "ok_group g" "CHR ''$'' \<notin> set g" by (simp_all add: template_line_def)
    then have "l' = ''['' @ g @ '']''" by (simp add: l'_def Let_def substituted_def substitute_no_dollar assms(1) plain_vars_name [OF assms(2)])
    moreover have "CHR 0x0A \<notin> set (clean l)" using assms(4) clean_subset by blast
    ultimately show ?thesis using classify_group [OF g(2)] Group(1) c g(1) by (simp add: entry)
  next
    case (Pair p v)
    with assms(3) c have p: "clean l = p @ ''='' @ v" "ok_param p" "CHR ''$'' \<notin> set p"
      "ok_value (substituted vs v)" "CHR 0x0A \<notin> set (substituted vs v)" by (simp_all add: template_line_def)
    have "substituted vs ((p @ ''='') @ v) = (p @ ''='') @ substituted vs v"
      using p(3) by (intro substitute_prefix assms(1,2)) simp
    then have l': "l' = p @ ''='' @ substituted vs v" using p(1) by (simp add: l'_def Let_def)
    moreover have "CHR 0x0A \<notin> set p" using assms(4) clean_subset [of l] p(1) by auto
    ultimately show ?thesis using classify_pair [OF p(2,4)] Pair(1) c p(5) by (simp add: entry)
  qed
qed

lemma template_lines:
  assumes "vars_ok vs" and "plain_vars vs" and "\<forall>l \<in> set ls. template_line vs l \<and> CHR 0x0A \<notin> set l"
  shows "\<exists>ls'. replace_placeholders vs ls = Val ls' \<and> map entry_of ls' = map (subst_entry vs) (map entry_of ls)
     \<and> legible ls' \<and> legible ls \<and> (\<forall>l \<in> set ls'. CHR 0x0A \<notin> set l)"
  using assms(3)
proof (induction ls)
  case (Cons l ls)
  define l' where "l' = (let line = clean l in if line = [] then l else substituted vs line)"
  from Cons have "template_line vs l" "CHR 0x0A \<notin> set l" by simp_all
  from template_line_entry [OF assms(1,2) this, folded l'_def]
  have new: "classify l' = Val (subst_entry vs (entry_of l))" "CHR 0x0A \<notin> set l'" "\<exists>c. classify l = Val c" by blast+
  obtain ls' where "replace_placeholders vs ls = Val ls'" "map entry_of ls' = map (subst_entry vs) (map entry_of ls)"
    "legible ls'" "legible ls" "\<forall>l \<in> set ls'. CHR 0x0A \<notin> set l" using Cons by auto
  moreover then have "replace_placeholders vs (l # ls) = Val (l' # ls')"
    by (simp add: l'_def Let_def substituted_val [OF assms(1,2)])
  ultimately show ?case using new entry_of_Val [OF new(1)] by (intro exI [of _ "l' # ls'"]) simp
qed simp

section \<open>Property\<close>

text \<open>
  C32. \<^verbatim>\<open>fromtemplate <name> ensure\<close> writes the configuration its template describes: whatever was there before, reading the
  file back gives every parameter of every group the value of the template with the variables substituted, and nothing else
  is there. No other file changes.
\<close>

theorem template_values:
  assumes "vs = variable_storage s" and "vars_ok vs" and "plain_vars vs"
    and "files s (config_path vs name CFG_GENERAL CFG_TEMPLATE) = Some c"
    and "\<forall>l \<in> set (load_lines c). template_line vs l"
    and "dst = config_path vs name CFG_GENERAL CFG_ON" and "can_write e dst" and "\<not> dryrun fl"
  shows "\<exists>t c'. exec_fromtemplate e fl name ''ensure'' s = (Val True, t) \<and> files t = (files s)(dst \<mapsto> c')
     \<and> legible (load_lines c')
     \<and> (\<forall>g p. ok_group g \<and> ok_param p \<longrightarrow>
          (\<exists>w. cfg_get (load_lines c) g p = Val w \<and> cfg_get (load_lines c') g p = Val (map_option (substituted vs) w)))"
proof -
  have lines: "\<forall>l \<in> set (load_lines c). template_line vs l \<and> CHR 0x0A \<notin> set l" using assms(5) load_no_newline by blast
  obtain ls' where rep: "replace_placeholders vs (load_lines c) = Val ls'"
    and read: "map entry_of ls' = map (subst_entry vs) (map entry_of (load_lines c)) \<and> legible ls' \<and> legible (load_lines c)
      \<and> (\<forall>l \<in> set ls'. CHR 0x0A \<notin> set l)"
    using template_lines [OF assms(2,3) lines] by blast
  from read have again: "load_lines (save_lines ls') = ls'" by (intro load_save) blast
  have "\<exists>t. exec_fromtemplate e fl name ''ensure'' s = (Val True, t) \<and> files t = (files s)(dst \<mapsto> save_lines ls')"
    using assms(1,4,6,7,8) rep by (simp add: exec_fromtemplate_def conf_simps Let_def)
  moreover have "cfg_get ls' g p = Val (map_option (substituted vs) (lookup_from g p False (map entry_of (load_lines c))))
      \<and> cfg_get (load_lines c) g p = Val (lookup_from g p False (map entry_of (load_lines c)))"
    if "ok_group g" "ok_param p" for g p
  proof -
    have "ok_value []" by (simp add: ok_value_def)
    with read cfg_refines [of ls' g p "[]"] cfg_refines [of "load_lines c" g p "[]"] that show ?thesis
      by (simp only: lookup_subst)
  qed
  ultimately show ?thesis using read again by metis
qed

section \<open>Witness\<close>

definition sample_template :: "string list" where
  "sample_template = [''# template'', ''[general]'', ''debug_mode=${D}'']"

lemma sample_template_lines:
  "\<forall>l \<in> set sample_template. template_line [(''CONFIGS_PATH'', ''/opt''), (''D'', ''on'')] l"
proof -
  let ?vs = "[(''CONFIGS_PATH'', ''/opt''), (''D'', ''on'')]"
  have ok: "vars_ok ?vs" "\<forall>(n, v) \<in> set ?vs. plain_name n \<and> CHR ''$'' \<notin> set v"
    by (simp_all add: vars_ok_def plain_name_def less_char_def)
  from substitute_segs [OF ok, of "[Ref ''D'']"] have sub: "substituted ?vs ''${D}'' = ''on''"
    by (simp add: plain_name_def substituted_def)
  have "ok_group ''general''" "ok_param ''debug_mode''" "ok_value ''${D}''" "ok_value ''on''"
    by (simp_all add: ok_group_def ok_param_def ok_value_def is_space_def)
  moreover from classify_group [OF this(1)] classify_pair [OF this(2,3)]
  have "classify ''[general]'' = Val (Group ''general'')" "classify ''debug_mode=${D}'' = Val (Pair ''debug_mode'' ''${D}'')" by simp_all
  moreover have "clean ''[general]'' = ''[general]''" "clean ''debug_mode=${D}'' = ''debug_mode=${D}''" "clean ''# template'' = []"
    by (simp_all add: clean_id is_space_def) (simp add: clean_def trim_def ltrim_def rtrim_def is_space_def)
  moreover from this(3) have "classify ''# template'' = Val Blank" by (simp add: classify_def)
  ultimately show ?thesis by (simp add: sample_template_def template_line_def sub)
qed

theorem template_values_witness:
  "\<exists>s t c'. exec_fromtemplate sample_env 0 ''riemann'' ''ensure'' s = (Val True, t)
     \<and> files t ''/opt/etc/network/riemann.cfg'' = Some c' \<and> legible (load_lines c')"
proof -
  let ?vs = "[(''CONFIGS_PATH'', ''/opt''), (''D'', ''on'')]"
  define s where "s = sample_conf\<lparr>variable_storage := ?vs,
     files := [''/opt/share/configs/network/riemann.cfg'' \<mapsto> save_lines sample_template]\<rparr>"
  have p: "config_path ?vs ''riemann'' CFG_GENERAL CFG_TEMPLATE = ''/opt/share/configs/network/riemann.cfg''"
    "config_path ?vs ''riemann'' CFG_GENERAL CFG_ON = ''/opt/etc/network/riemann.cfg''"
    by (simp_all add: config_path_def path_of_def path_join_def get_var_def)
  have vs: "?vs = variable_storage s" and tmpl: "files s (config_path ?vs ''riemann'' CFG_GENERAL CFG_TEMPLATE) = Some (save_lines sample_template)"
    unfolding p by (simp_all add: s_def)
  have ok: "vars_ok ?vs" "\<forall>(n, v) \<in> set ?vs. plain_name n \<and> CHR ''$'' \<notin> set v"
    by (simp_all add: vars_ok_def plain_name_def less_char_def)
  have "load_lines (save_lines sample_template) = sample_template" by (rule load_save) (simp add: sample_template_def)
  with sample_template_lines have "\<forall>l \<in> set (load_lines (save_lines sample_template)). template_line ?vs l" by simp
  from template_values [OF vs ok tmpl this p(2) [symmetric] sample_conf_net(3), of 0]
  obtain t c' where "exec_fromtemplate sample_env 0 ''riemann'' ''ensure'' s = (Val True, t)"
    "files t = (files s)(''/opt/etc/network/riemann.cfg'' \<mapsto> c')" "legible (load_lines c')" by auto
  then show ?thesis by (intro exI [of _ s] exI [of _ t] exI [of _ c']) simp
qed

end
