(* ===== verification/Android_Jni.thy ===== *)
theory Android_Jni
  imports Node_Start Conf_Types
begin

text \<open>
  The Android binding (\<^verbatim>\<open>sources/android/node_jni.cpp\<close>): the listeners for notifications, the callback of the
  node, the start of the node, the configuration commands and the client, each a native method of the Java
  service. The Java machine and the SDK's client are the record \<open>jni_env\<close>. A Java string is the list of its UTF-8 bytes,
  \<open>None\<close> is \<open>null\<close>; a reference or a method is a number, 0 is \<open>NULL\<close>.
\<close>

section \<open>State\<close>

datatype env_stat = JNI_OK | JNI_EDETACHED | JNI_EVERSION

datatype jevent = ALog string | Notified nat string | CliExec nat "string option list" | Described | Detached

type_synonym jhist = "jevent list"

text \<open>
  \<open>new_weak_ref\<close> is \<open>NewWeakGlobalRef\<close>, \<open>get_method\<close> is \<open>GetMethodID\<close> in the class of an object. \<open>collected\<close> says that the object of a
  weak reference is gone, \<open>listener_throws\<close> that its method ends with an exception.
\<close>

record jni_env =
  new_weak_ref :: "nat set \<Rightarrow> nat \<Rightarrow> nat"
  get_method :: "nat \<Rightarrow> string \<Rightarrow> nat"
  get_env :: "jhist \<Rightarrow> env_stat"
  attach_ok :: "jhist \<Rightarrow> bool"
  collected :: "jhist \<Rightarrow> nat \<Rightarrow> bool"
  listener_throws :: "jhist \<Rightarrow> nat \<Rightarrow> bool"
  dap_cli_exec :: "jhist \<Rightarrow> nat \<Rightarrow> string option list \<Rightarrow> string option"

record listener_store =
  store_Wlistener :: nat
  store_method :: nat

text \<open>\<open>weak_refs\<close> are the references that were created and not deleted, \<open>lost_stores\<close> counts the objects nobody deletes.\<close>

record jni_state =
  jvm :: bool
  listeners_vector :: "listener_store list"
  weak_refs :: "nat set"
  lost_stores :: nat
  jtrace :: jhist
  node_part :: node_state
  conf_part :: conf_state

type_synonym 'a jni = "(jni_state, 'a) prog"

definition jemit :: "jevent \<Rightarrow> unit jni" where
  "jemit x = modify (\<lambda>s. s\<lparr>jtrace := jtrace s @ [x]\<rparr>)"

definition android_log :: "string \<Rightarrow> string \<Rightarrow> unit jni" where
  "android_log tag m = jemit (ALog (tag @ m))"

definition jstring2string :: "string option \<Rightarrow> string" where
  "jstring2string jStr = (case jStr of None \<Rightarrow> [] | Some bytes \<Rightarrow> bytes)"

section \<open>Listeners\<close>

text \<open>The test for a method that was not found comes after the listener was stored.\<close>

definition setNotifyListenerNativeCallback :: "jni_env \<Rightarrow> nat \<Rightarrow> unit jni" where
  "setNotifyListenerNativeCallback j listener =
     seq (modify (\<lambda>s. s\<lparr>jvm := True\<rparr>))
    (bnd (get_state (\<lambda>s. new_weak_ref j (weak_refs s) listener)) (\<lambda>r.
     if r = 0 then crash NullDeref
     else let m = get_method j listener ''onNotify'' in
       seq (modify (\<lambda>s. s\<lparr>weak_refs := insert r (weak_refs s),
              listeners_vector := listeners_vector s @ [\<lparr>store_Wlistener = r, store_method = m\<rparr>]\<rparr>))
           (android_log ''GetEnv:'' ('' Subscribe to Listener  OK '' @ [CHR 0x0A]))))"

text \<open>The references are deleted; the objects the vector pointed to are not.\<close>

definition clearNotifyListenerNativeCallbacks :: "unit jni" where
  "clearNotifyListenerNativeCallbacks =
     modify (\<lambda>s. s\<lparr>weak_refs := weak_refs s - store_Wlistener ` set (listeners_vector s),
       lost_stores := lost_stores s + length (listeners_vector s), listeners_vector := []\<rparr>)"

text \<open>
  One call of a listener. A method that is \<open>NULL\<close> and an object that is gone are undefined, and so is a call while
  an exception is pending; the result is whether one is pending now.
\<close>

definition call_listener :: "jni_env \<Rightarrow> string \<Rightarrow> bool \<Rightarrow> listener_store \<Rightarrow> bool jni" where
  "call_listener j message pending i =
     bnd (get_state jtrace) (\<lambda>h.
     if pending then crash BadCall
     else if store_method i = 0 \<or> collected j h (store_Wlistener i) then crash NullDeref
     else seq (jemit (Notified (store_Wlistener i) message)) (ret (listener_throws j h (store_Wlistener i))))"

fun callOnNotify :: "jni_env \<Rightarrow> string \<Rightarrow> bool \<Rightarrow> listener_store list \<Rightarrow> bool jni" where
  "callOnNotify j message pending [] = ret pending"
| "callOnNotify j message pending (i # is) =
     bnd (call_listener j message pending i) (\<lambda>p. callOnNotify j message p is)"

text \<open>The part of the callback that has an environment: the message for every listener, then the cleaning up.\<close>

definition deliver_all :: "jni_env \<Rightarrow> string \<Rightarrow> env_stat \<Rightarrow> bool jni" where
  "deliver_all j data getEnvStat =
     bnd (get_state listeners_vector) (\<lambda>ls.
     bnd (callOnNotify j data False ls) (\<lambda>pending.
     seq (if pending then jemit Described else ret ())
    (seq (if getEnvStat = JNI_EDETACHED then jemit Detached else ret ())
         (ret True))))"

text \<open>
  \<open>GetEnv\<close> leaves \<open>g_env\<close> NULL unless it answers \<open>JNI_OK\<close>; only a successful attachment sets it then.
\<close>

definition notifycallback :: "jni_env \<Rightarrow> string \<Rightarrow> bool jni" where
  "notifycallback j data =
     seq (android_log ''CellframeNotify'' data)
    (seq (android_log ''GetEnv:'' ('' start Callback  to JNL ['' @ data @ '']  '' @ [CHR 0x0A]))
    (bnd (get_state jvm) (\<lambda>vm.
     if \<not> vm then seq (android_log ''GetEnv:'' (''  No VM  '' @ [CHR 0x0A])) (ret False)
     else bnd (get_state (\<lambda>s. (get_env j (jtrace s), attach_ok j (jtrace s)))) (\<lambda>(getEnvStat, attached).
       seq (case getEnvStat of
              JNI_EDETACHED \<Rightarrow> if \<not> attached then android_log ''GetEnv:'' '' Failed to attach'' else ret ()
            | JNI_OK \<Rightarrow> android_log ''GetEnv:'' '' JNI_OK''
            | JNI_EVERSION \<Rightarrow> android_log ''GetEnv:'' '' version not supported'')
      (if getEnvStat = JNI_OK \<or> getEnvStat = JNI_EDETACHED \<and> attached then deliver_all j data getEnvStat
       else crash NullDeref)))))"

section \<open>The node\<close>

text \<open>A program of the node on its part of the state; a \<open>return\<close> of \<open>main\<close>, early or at the end, returns to the caller.\<close>

definition on_node :: "int node \<Rightarrow> int jni" where
  "on_node m = (\<lambda>s. case m (node_part s) of
      (Ret c, t) \<Rightarrow> (Ret c, s\<lparr>node_part := t\<rparr>)
    | (Exit c, t) \<Rightarrow> (Ret c, s\<lparr>node_part := t\<rparr>)
    | (Crash u, t) \<Rightarrow> (Crash u, s\<lparr>node_part := t\<rparr>))"

text \<open>\<open>c_str\<close>: a C string ends at the first NUL.\<close>

definition c_str :: "string \<Rightarrow> string" where
  "c_str s = takeWhile (\<lambda>c. c \<noteq> CHR 0x00) s"

text \<open>\<open>main(0, 0)\<close> has no arguments at all.\<close>

definition nodeMainNative :: "build \<Rightarrow> node_sdk \<Rightarrow> string option \<Rightarrow> int jni" where
  "nodeMainNative b d system_dir =
     bnd (on_node (seq (set_global_sys_dir (c_str (jstring2string system_dir)))
       (seq (void ''dap_notify_data_set_user_callback'' []) (node_main b d [])))) (\<lambda>res.
     seq clearNotifyListenerNativeCallbacks (ret res))"

section \<open>The configuration tool\<close>

text \<open>Every exception is caught, logged and turned into -1.\<close>

definition on_conf :: "int conf \<Rightarrow> int jni" where
  "on_conf m = (\<lambda>s. case m (conf_part s) of
      (Val c, t) \<Rightarrow> (Ret c, s\<lparr>conf_part := t\<rparr>)
    | (Throws e, t) \<Rightarrow> (Ret (-1), s\<lparr>conf_part := t,
         jtrace := jtrace s @ [ALog (''CellframeNodeConfig'' @ ''Error in configuration init: '' @ e)]\<rparr>)
    | (Undef u, t) \<Rightarrow> (Crash u, s\<lparr>conf_part := t\<rparr>))"

definition initConfigs :: "conf_env \<Rightarrow> host_api \<Rightarrow> string option \<Rightarrow> string option \<Rightarrow> int jni" where
  "initConfigs e a base_path setup_file_path =
     on_conf (cseq (populate e a (jstring2string base_path)) (init_configs e 0 (jstring2string setup_file_path)))"

definition configure :: "conf_env \<Rightarrow> host_api \<Rightarrow> string option \<Rightarrow> string option \<Rightarrow> int jni" where
  "configure e a base_path config_command =
     on_conf (cseq (populate e a (jstring2string base_path))
      (cbnd (parse_line_to_cmd 0 (jstring2string config_command) 0) (\<lambda>c.
       cbnd (run_commands e 0 [c] []) (\<lambda>ok. cret (if ok then 1 else 0)))))"

section \<open>The client\<close>

text \<open>
  \<open>args\<close> with the terminating NULL in it; its size is the \<open>argc\<close> of the call. The answer is read up to its NUL;
  no answer is a NULL pointer for \<open>strlen\<close>.
\<close>

definition cli_call :: "jni_env \<Rightarrow> string list \<Rightarrow> string jni" where
  "cli_call j words =
    (let args = map Some words @ [None] in
     bnd (get_state (\<lambda>s. dap_cli_exec j (jtrace s) (length args) args)) (\<lambda>cli_answer.
     seq (jemit (CliExec (length args) args))
         (case cli_answer of None \<Rightarrow> crash NullDeref | Some t \<Rightarrow> ret (c_str t))))"

text \<open>A \<open>null\<close> in the array is a NULL reference for \<open>GetStringUTFChars\<close>.\<close>

fun string_elements :: "string option list \<Rightarrow> string list option" where
  "string_elements [] = Some []"
| "string_elements (None # xs) = None"
| "string_elements (Some x # xs) = map_option (\<lambda>ys. x # ys) (string_elements xs)"

definition clicommandArgs :: "jni_env \<Rightarrow> string option list \<Rightarrow> string jni" where
  "clicommandArgs j stringArray = (case string_elements stringArray of
      None \<Rightarrow> crash NullDeref | Some words \<Rightarrow> cli_call j words)"

text \<open>\<open>while (iss >> token)\<close>: skip white space, read up to the next white space.\<close>

function iss_tokens :: "string \<Rightarrow> string list" where
  "iss_tokens s = (let t = dropWhile is_space s in
     if t = [] then [] else takeWhile (\<lambda>c. \<not> is_space c) t # iss_tokens (dropWhile (\<lambda>c. \<not> is_space c) t))"
  by pat_completeness auto
termination
proof (relation "measure length")
  fix s t :: string
  assume t: "t = dropWhile is_space s" "t \<noteq> []"
  then have "\<not> is_space (hd t)" using hd_dropWhile by blast
  with t(2) have "length (dropWhile (\<lambda>c. \<not> is_space c) t) < length t"
    by (cases t) (auto simp: le_imp_less_Suc length_dropWhile_le)
  also have "\<dots> \<le> length s" using t(1) length_dropWhile_le by simp
  finally show "(dropWhile (\<lambda>c. \<not> is_space c) t, s) \<in> measure length" by simp
qed simp

declare iss_tokens.simps [simp del]

definition clicommandString :: "jni_env \<Rightarrow> string option \<Rightarrow> string jni" where
  "clicommandString j cmd = cli_call j (map c_str (iss_tokens (jstring2string cmd)))"

section \<open>The binding as a machine\<close>

text \<open>What the Java side and the node can do, in any order. A call that crashes has no successor.\<close>

inductive jni_step :: "jni_env \<Rightarrow> jni_state \<Rightarrow> jni_state \<Rightarrow> bool" for j where
  subscribe: "setNotifyListenerNativeCallback j l s = (Ret (), t) \<Longrightarrow> jni_step j s t"
| clear: "clearNotifyListenerNativeCallbacks s = (Ret (), t) \<Longrightarrow> jni_step j s t"
| notify: "notifycallback j data s = (Ret ok, t) \<Longrightarrow> jni_step j s t"
| node: "nodeMainNative b d dir s = (Ret c, t) \<Longrightarrow> jni_step j s t"
| init: "initConfigs e a base f s = (Ret c, t) \<Longrightarrow> jni_step j s t"
| config: "configure e a base cmd s = (Ret c, t) \<Longrightarrow> jni_step j s t"
| cli_args: "clicommandArgs j args s = (Ret r, t) \<Longrightarrow> jni_step j s t"
| cli_string: "clicommandString j cs s = (Ret r, t) \<Longrightarrow> jni_step j s t"

inductive jni_reachable :: "jni_env \<Rightarrow> jni_state \<Rightarrow> bool" for j where
  loaded: "listeners_vector s = [] \<Longrightarrow> weak_refs s = {} \<Longrightarrow> \<not> jvm s \<Longrightarrow> jni_reachable j s"
| step: "jni_reachable j s \<Longrightarrow> jni_step j s t \<Longrightarrow> jni_reachable j t"

definition jni_inv :: "jni_state \<Rightarrow> bool" where
  "jni_inv s \<longleftrightarrow> weak_refs s = store_Wlistener ` set (listeners_vector s)
     \<and> distinct (map store_Wlistener (listeners_vector s)) \<and> (listeners_vector s \<noteq> [] \<longrightarrow> jvm s)"

text \<open>Most operations leave the listeners alone.\<close>

definition same_listeners :: "jni_state \<Rightarrow> jni_state \<Rightarrow> bool" where
  "same_listeners s t \<longleftrightarrow> listeners_vector t = listeners_vector s \<and> weak_refs t = weak_refs s \<and> jvm t = jvm s"

interpretation listeners: state_preorder same_listeners
  by unfold_locales (auto simp: same_listeners_def)

lemma same_listeners_basic: "keeps same_listeners (jemit x)" "keeps same_listeners (android_log tag m)"
  "keeps same_listeners (on_node p)" "keeps same_listeners (on_conf q)"
  by (auto simp: keeps_def same_listeners_def jemit_def android_log_def on_node_def on_conf_def prog_simps
      split: prod.split res.split cxx.split)

lemma same_listeners_call: "keeps same_listeners (callOnNotify j m p is)"
proof (induction "is" arbitrary: p)
  case (Cons i "is")
  then show ?case
    unfolding callOnNotify.simps call_listener_def by (intro listeners.keeps_rules same_listeners_basic)
qed (simp add: listeners.keeps_rules)

lemma same_listeners_ops: "keeps same_listeners (notifycallback j data)" "keeps same_listeners (initConfigs e a base f)"
  "keeps same_listeners (configure e a base cmd)" "keeps same_listeners (clicommandArgs j args)"
  "keeps same_listeners (clicommandString j cs)"
  unfolding notifycallback_def deliver_all_def initConfigs_def configure_def clicommandArgs_def clicommandString_def cli_call_def Let_def
  by (intro listeners.keeps_rules same_listeners_basic same_listeners_call
      | simp add: listeners.keeps_rules same_listeners_basic split: env_stat.split)+

lemma jni_inv_same: "same_listeners s t \<Longrightarrow> jni_inv s \<Longrightarrow> jni_inv t"
  by (simp add: same_listeners_def jni_inv_def)

lemma jni_inv_clear: "clearNotifyListenerNativeCallbacks s = (Ret (), t) \<Longrightarrow> jni_inv s \<Longrightarrow> jni_inv t"
  by (auto simp: clearNotifyListenerNativeCallbacks_def jni_inv_def prog_simps)

lemma jni_inv_subscribe:
  assumes "setNotifyListenerNativeCallback j l s = (Ret (), t)" and "jni_inv s" and "\<forall>refs x. finite refs \<longrightarrow> new_weak_ref j refs x \<notin> refs"
  shows "jni_inv t"
proof -
  let ?r = "new_weak_ref j (weak_refs s) l"
  have "?r \<notin> store_Wlistener ` set (listeners_vector s)"
    using assms(2,3) unfolding jni_inv_def by (metis List.finite_set finite_imageI)
  with assms(1,2) show ?thesis
    by (auto simp: setNotifyListenerNativeCallback_def jni_inv_def android_log_def jemit_def prog_simps Let_def split: if_splits)
qed

lemma jni_inv_node: "nodeMainNative b d dir s = (Ret c, t) \<Longrightarrow> jni_inv s \<Longrightarrow> jni_inv t"
proof -
  assume run: "nodeMainNative b d dir s = (Ret c, t)" and inv: "jni_inv s"
  define m where "m = on_node (seq (set_global_sys_dir (c_str (jstring2string dir)))
       (seq (void ''dap_notify_data_set_user_callback'' []) (node_main b d [])))"
  obtain x u where u: "m s = (x, u)" by fastforce
  then have "jni_inv u" using keepsD [OF same_listeners_basic(3)] jni_inv_same inv unfolding m_def by metis
  moreover have "clearNotifyListenerNativeCallbacks u = (Ret (), t)"
    using run u unfolding nodeMainNative_def m_def [symmetric]
    by (cases x) (auto simp: prog_simps clearNotifyListenerNativeCallbacks_def)
  ultimately show ?thesis using jni_inv_clear by blast
qed

lemma jni_inv_keeps: "keeps same_listeners m \<Longrightarrow> m s = (r, t) \<Longrightarrow> jni_inv s \<Longrightarrow> jni_inv t"
  using keepsD jni_inv_same by metis

lemma jni_inv_step:
  assumes "jni_step j s t" and "jni_inv s" and "\<forall>refs x. finite refs \<longrightarrow> new_weak_ref j refs x \<notin> refs"
  shows "jni_inv t"
  using assms(1)
proof cases
  case (subscribe l)
  with jni_inv_subscribe assms(2,3) show ?thesis by blast
next
  case clear
  with jni_inv_clear assms(2) show ?thesis by blast
next
  case (node b d dir c)
  with jni_inv_node assms(2) show ?thesis by blast
qed (use assms(2) in \<open>blast intro: same_listeners_ops [THEN jni_inv_keeps]\<close>)+

section \<open>Notifications\<close>

fun notified_of :: "jhist \<Rightarrow> (nat \<times> string) list" where
  "notified_of [] = []"
| "notified_of (Notified r m # h) = (r, m) # notified_of h"
| "notified_of (_ # h) = notified_of h"

lemma notified_of_append: "notified_of (h @ k) = notified_of h @ notified_of k"
  by (induction h rule: notified_of.induct) auto

lemma callOnNotify_all:
  assumes "\<forall>h r. \<not> collected j h r \<and> \<not> listener_throws j h r"
  shows "if \<forall>i \<in> set is. store_method i \<noteq> 0
     then callOnNotify j m False is s = (Ret False, s\<lparr>jtrace := jtrace s @ map (\<lambda>i. Notified (store_Wlistener i) m) is\<rparr>)
     else fst (callOnNotify j m False is s) = Crash NullDeref"
proof (induction "is" arbitrary: s)
  case (Cons i "is")
  show ?case
  proof (cases "store_method i = 0")
    case True
    then show ?thesis by (simp add: call_listener_def prog_simps)
  next
    case False
    let ?t = "s\<lparr>jtrace := jtrace s @ [Notified (store_Wlistener i) m]\<rparr>"
    have "call_listener j m False i s = (Ret False, ?t)"
      using False assms by (simp add: call_listener_def jemit_def prog_simps)
    with False Cons.IH [of ?t] show ?thesis by (simp add: bnd_app split: if_splits)
  qed
qed (simp add: prog_simps)

lemma notify_starts:
  assumes "jvm s" and "\<forall>h. get_env j h = JNI_OK \<or> get_env j h = JNI_EDETACHED \<and> attach_ok j h"
  shows "\<exists>st u. notifycallback j data s = deliver_all j data st u \<and> listeners_vector u = listeners_vector s
     \<and> notified_of (jtrace u) = notified_of (jtrace s)"
proof -
  define log1 where "log1 = ''GetEnv:'' @ '' start Callback  to JNL ['' @ data @ '']  '' @ [CHR 0x0A]"
  define log2 where "log2 = ''GetEnv:'' @ '' JNI_OK''"
  let ?s1 = "s\<lparr>jtrace := jtrace s @ [ALog (''CellframeNotify'' @ data), ALog log1]\<rparr>"
  consider "get_env j (jtrace ?s1) = JNI_OK"
    | "get_env j (jtrace ?s1) = JNI_EDETACHED" "attach_ok j (jtrace ?s1)" using assms(2) by blast
  then show ?thesis
  proof cases
    case 1
    let ?u = "?s1\<lparr>jtrace := jtrace ?s1 @ [ALog log2]\<rparr>"
    have "notifycallback j data s = deliver_all j data JNI_OK ?u"
      using 1 assms(1) by (simp add: notifycallback_def android_log_def jemit_def prog_simps log1_def log2_def)
    then show ?thesis by (intro exI [of _ JNI_OK] exI [of _ ?u]) (simp add: notified_of_append)
  next
    case 2
    have "notifycallback j data s = deliver_all j data JNI_EDETACHED ?s1"
      using 2 assms(1) by (simp add: notifycallback_def android_log_def jemit_def prog_simps log1_def)
    then show ?thesis by (intro exI [of _ JNI_EDETACHED] exI [of _ ?s1]) (simp add: notified_of_append)
  qed
qed

lemma notified_map: "notified_of (map (\<lambda>i. Notified (store_Wlistener i) m) is) = map (\<lambda>i. (store_Wlistener i, m)) is"
  by (induction "is") auto

section \<open>The words of a command line\<close>

lemma tokenize_skip: "is_space c \<Longrightarrow> tokenize_space (c # s) = tokenize_space s"
  by (simp add: tokenize_space_split drop_empty_def)

lemma tokenize_dropWhile: "tokenize_space (dropWhile is_space s) = tokenize_space s"
  by (induction s) (simp_all add: tokenize_skip)

lemma tokenize_word:
  assumes "w \<noteq> []" and "\<forall>c \<in> set w. \<not> is_space c" and "r = [] \<or> is_space (hd r)"
  shows "tokenize_space (w @ r) = w # tokenize_space r"
proof (cases r)
  case Nil
  with assms(1,2) show ?thesis
    using split_at_none [of w is_space "[]"] by (simp add: tokenize_space_split drop_empty_def)
next
  case (Cons x t)
  with assms have "split_at is_space (w @ r) [] = w # split_at is_space t []"
    using split_at_one [of w is_space x t "[]"] by simp
  with Cons assms show ?thesis by (simp add: tokenize_space_split drop_empty_def)
qed

lemma iss_tokens_words: "iss_tokens s = tokenize_space s"
proof (induction s rule: iss_tokens.induct)
  case (1 s)
  define t where "t = dropWhile is_space s"
  show ?case
  proof (cases "t = []")
    case True
    have "tokenize_space s = tokenize_space t" by (simp add: t_def tokenize_dropWhile)
    with True show ?thesis
      by (subst iss_tokens.simps) (simp add: t_def [symmetric] tokenize_space_split drop_empty_def)
  next
    case False
    let ?w = "takeWhile (\<lambda>c. \<not> is_space c) t" and ?r = "dropWhile (\<lambda>c. \<not> is_space c) t"
    have "\<not> is_space (hd t)" using False hd_dropWhile unfolding t_def by blast
    then have "?w \<noteq> []" using False by (cases t) auto
    moreover have "\<forall>c \<in> set ?w. \<not> is_space c" by (auto dest: set_takeWhileD)
    moreover have "?r = [] \<or> is_space (hd ?r)" using hd_dropWhile by blast
    ultimately have "tokenize_space (?w @ ?r) = ?w # tokenize_space ?r" by (rule tokenize_word)
    moreover have "tokenize_space (?w @ ?r) = tokenize_space s" by (simp add: t_def tokenize_dropWhile)
    moreover have "iss_tokens s = ?w # iss_tokens ?r"
      using False unfolding iss_tokens.simps [of s] Let_def t_def by (rule if_not_P)
    ultimately show ?thesis using 1 [of t] False by (simp add: t_def)
  qed
qed

lemma split_at_subset: "t \<in> set (split_at P s acc) \<Longrightarrow> set t \<subseteq> set acc \<union> set s"
proof (induction s arbitrary: acc)
  case (Cons c s)
  from Cons.prems consider "P c" "t = rev acc" | "P c" "t \<in> set (split_at P s [])" | "\<not> P c" "t \<in> set (split_at P s (c # acc))"
    by (auto split: if_splits)
  then show ?case using Cons.IH [of "[]"] Cons.IH [of "c # acc"] by cases auto
qed simp

lemma string_elements_Some: "string_elements (map Some ws) = Some ws"
  by (induction ws) simp_all

lemma c_str_id: "CHR 0x00 \<notin> set s \<Longrightarrow> c_str s = s"
  by (auto simp: c_str_def takeWhile_eq_all_conv)

lemma run_commands_True: "run_commands e fl cs st s = (Val b, t) \<Longrightarrow> b"
proof (induction cs arbitrary: st s)
  case (Cons c cs)
  then show ?case by (auto simp: cseq_def cbnd_Val_iff lift_app Let_def split: if_splits)
qed (simp add: cret_app)

section \<open>Properties\<close>

text \<open>
  C38. The references of the binding. Whatever the Java side and the node do, in any order, the weak references that
  exist are exactly those of the registered listeners, each once: none is deleted while a
  listener needs it, and none stays behind when the listeners are cleared. All that is asked of the Java
  machine is that a new reference is a new one.
\<close>

theorem jni_listeners_invariant:
  assumes "jni_reachable j s" and "\<forall>refs x. finite refs \<longrightarrow> new_weak_ref j refs x \<notin> refs"
  shows "weak_refs s = store_Wlistener ` set (listeners_vector s)
     \<and> distinct (map store_Wlistener (listeners_vector s)) \<and> (listeners_vector s \<noteq> [] \<longrightarrow> jvm s)"
proof -
  from assms(1) have "jni_inv s"
  proof induction
    case (loaded s)
    then show ?case by (simp add: jni_inv_def)
  next
    case (step s t)
    then show ?case using jni_inv_step assms(2) by blast
  qed
  then show ?thesis by (simp add: jni_inv_def)
qed


text \<open>
  The node does not start on Android. The binding calls \<open>main(0, 0)\<close>, and the first thing \<open>main\<close> does is to read
  \<open>argv[1]\<close>: for every build, SDK, directory and state the call is undefined behaviour, before the node
  does anything.
\<close>

theorem jni_node_crashes:
  "fst (nodeMainNative b d dir s) = Crash OutOfBounds
   \<and> ntrace (node_part (snd (nodeMainNative b d dir s)))
       = ntrace (node_part s) @ [NVoid ''dap_notify_data_set_user_callback'' []]"
  by (simp add: nodeMainNative_def on_node_def node_main_def set_global_sys_dir_def void_def emit_def prog_simps)


text \<open>
  The configuration methods never let an exception through: \<open>initConfigs\<close> returns 0 or -1 and \<open>configure\<close> returns 1 (its
  success is the number of a truth value) or -1, unless the tool is undefined; and both touch nothing but the configuration and the log.
\<close>

theorem jni_config_results:
  "fst (initConfigs e a base f s) \<in> {Ret 0, Ret (-1)} \<union> range Crash
   \<and> fst (configure e a base cmd s) \<in> {Ret 1, Ret (-1)} \<union> range Crash
   \<and> node_part (snd (configure e a base cmd s)) = node_part s
   \<and> listeners_vector (snd (configure e a base cmd s)) = listeners_vector s"
proof -
  have "c \<in> {0, -1}" if "init_configs e 0 x u = (Val c, t)" for x u c t
    using that by (auto simp: init_configs_def cseq_def cbnd_Val_iff cret_app split: if_splits)
  then have "fst (initConfigs e a base f s) \<in> {Ret 0, Ret (-1)} \<union> range Crash"
    by (auto simp: initConfigs_def on_conf_def cseq_def cbnd_Val_iff split: prod.split cxx.split)
  moreover have "fst (configure e a base cmd s) \<in> {Ret 1, Ret (-1)} \<union> range Crash"
    using run_commands_True [of e 0 _ "[]"]
    by (auto simp: configure_def on_conf_def cseq_def cbnd_Val_iff cret_app simp del: run_commands.simps
        split: prod.split cxx.split)
  ultimately show ?thesis
    by (auto simp: configure_def on_conf_def split: prod.split cxx.split)
qed

section \<open>Witnesses\<close>

definition sample_jni :: jni_env where
  "sample_jni = \<lparr>new_weak_ref = (\<lambda>refs x. Suc (Max (insert 0 refs))), get_method = (\<lambda>x n. x), get_env = (\<lambda>_. JNI_OK),
     attach_ok = (\<lambda>_. True), collected = (\<lambda>_ _. False), listener_throws = (\<lambda>_ _. False),
     dap_cli_exec = (\<lambda>_ _ _. Some ''ok'')\<rparr>"

definition sample_app :: jni_state where
  "sample_app = \<lparr>jvm = False, listeners_vector = [], weak_refs = {}, lost_stores = 0, jtrace = [],
     node_part = sample_boot, conf_part = sample_conf\<rparr>"

lemma sample_fresh: "\<forall>refs x. finite refs \<longrightarrow> new_weak_ref sample_jni refs x \<notin> refs"
  by (auto simp: sample_jni_def) (metis Max_ge Suc_n_not_le_n finite_insert insertI2)

theorem jni_listeners_invariant_witness:
  "\<exists>s. jni_reachable sample_jni s \<and> weak_refs s = {1} \<and> weak_refs s = store_Wlistener ` set (listeners_vector s)"
proof -
  obtain t where t: "setNotifyListenerNativeCallback sample_jni 5 sample_app = (Ret (), t)" "weak_refs t = {1}"
    by (simp add: setNotifyListenerNativeCallback_def sample_jni_def sample_app_def android_log_def jemit_def prog_simps Let_def)
  have "jni_reachable sample_jni sample_app" by (rule jni_reachable.loaded) (simp_all add: sample_app_def)
  then have "jni_reachable sample_jni t" using jni_step.subscribe [OF t(1)] by (rule jni_reachable.step)
  with jni_listeners_invariant [OF this sample_fresh] t(2) show ?thesis by blast
qed



end
