(* ===== verification/Spec2Isabelle.thy ===== *)
theory Spec2Isabelle
  imports Tool_Main Node_Cli Node_Manager Node_Shutdown Node_Config Conf_Verbose Conf_Template Android_Jni
begin

text \<open>
  A verification development for cellframe-node: the node process, its operator tool, its
  command line client and its configuration tool. The sources are under \<^verbatim>\<open>src/\<close>; paths below are
  relative to it.

  \<^bold>\<open>The program.\<close> Four executables share a system directory with configuration files.
  \<^item> \<^verbatim>\<open>cellframe-node\<close> (\<^verbatim>\<open>sources/cellframe-node.c\<close>) reads its configuration, makes sure through a
    locked pid file that no other node runs, installs its signal handlers, initialises the
    modules of the Cellframe SDK one after the other, starts servers and plugins, waits in the
    event loop and shuts the modules down.
  \<^item> \<^verbatim>\<open>cellframe-node-tool\<close> (\<^verbatim>\<open>sources/main_node_tool.c\<close>) creates wallets and certificates, copies,
    renames and exports certificates, and prints keys and addresses.
  \<^item> \<^verbatim>\<open>cellframe-node-cli\<close> (\<^verbatim>\<open>sources/main_node_cli.c\<close>) hands its arguments to the SDK's client.
  \<^item> \<^verbatim>\<open>cellframe-node-config\<close> (\<^verbatim>\<open>conftool/\<close>) runs setup scripts that edit the configuration files,
    enable networks and control the service.

  On Android there is one library instead, \<^verbatim>\<open>sources/android/node_jni.cpp\<close>, whose native methods call
  \<open>main\<close> of the node, the SDK's client and the commands of the configuration tool.

  The node and the client read what the configuration tool writes; the signal handlers are
  told the pid file the node locked; the certificate commands work in the directories the
  tool's \<open>s_init\<close> found in the same configuration.

  \<^bold>\<open>How C and C++ are modelled.\<close> \<^verbatim>\<open>Node_Prelude\<close> has C programs as functions from a state to an
  outcome and a state. The outcome is a normal return, \<open>exit\<close> with a code, or undefined behaviour
  with its kind (a read behind an array, a NULL pointer, a write out of bounds). An early
  \<open>return\<close> of \<open>main\<close> is \<open>exit\<close>. Integers that are only compared and printed are \<open>int\<close>; the exit status
  the parent sees is the code modulo 256, written out. In the C++ of the configuration tool
  (\<open>cxx\<close> of \<^verbatim>\<open>Node_Prelude\<close>) a function returns a value, throws, or is undefined. Every loop but one
  of the models is a total function: recursion on the rest of the words, lines or bytes, or on a
  measure, so a run of any of the four \<open>main\<close> functions has a result by construction, except for what
  the SDK does inside its own calls. The loop that is not is named below with the bounds.

  The DAP SDK and the Cellframe SDK are git submodules that are not in the tree. Each function
  of them that is called is a field of a record (\<open>tool_sdk\<close>, \<open>node_sdk\<close>) and an argument of the
  definitions that use it; a function whose answer may depend on the past takes the history of
  the run. Nothing is assumed of them unless a theorem states it as a hypothesis, and each such
  theorem has a witness with a concrete record. The same holds for what the operating
  system decides (which files can be written, the order of a directory listing, the exit code
  of a shell command).

  \<^bold>\<open>The theories.\<close>
  \<^item> \<^verbatim>\<open>Node_Prelude\<close>: outcomes, sequencing, \<open>strncmp\<close>, \<open>argv\<close>, \<open>%d\<close>, \<open>atoi\<close>, the exit status; the locale
    \<open>state_preorder\<close>, the contract of a relation between the state before and after that every
    step keeps. It is interpreted as \<open>growth\<close> (the tool's trace only grows), \<open>printing\<close> (a handler
    that only prints), \<open>ngrowth\<close> and \<open>dirs\<close> (the node's trace and system directory), \<open>files\<close> (the pid
    files stay as they are), \<open>pre_loop\<close> (the event loop was not called), \<open>cdir\<close> (the directory of the configuration) and
    \<open>listeners\<close> (the listeners of the Android binding stay as they are).
  \<^item> \<^verbatim>\<open>Tool_Sdk\<close>, \<^verbatim>\<open>Tool_Wallet\<close>, \<^verbatim>\<open>Tool_Cert\<close>, \<^verbatim>\<open>Tool_Main\<close>: \<^verbatim>\<open>main_node_tool.c\<close>, one definition per handler,
    the table \<open>s_opts\<close> and the search in it. C1 to C3: a wallet is made only behind all guards (in
    particular never over an existing file), the outcome of the command, the signature types
    that reach the SDK and when the type array overflows. C4 to C6: renaming deletes the old
    certificate only after the new one is saved, the exported file has no private key, what
    \<open>cert create\<close> does on every input. C7 to C9: the loop of \<open>main\<close> runs the command the table gives
    for the words, the exit status of a failing command, which commands are free of undefined
    behaviour. Further theorems: what \<^verbatim>\<open>-B\<close> does to the search, the guards of \<open>wallet create_wp\<close>, the type
    \<open>wallet create\<close> ignores, the fields of \<open>cert add_metadata\<close>, an unwritten key file that is reported
    as success, the directories \<open>s_init\<close> keeps.
  \<^item> \<^verbatim>\<open>Pid_File\<close>: \<open>s_proc_running_check\<close> (POSIX) as one call on a file with record locks, and as a machine
    whose steps are the system calls of any number of processes in any order; reachable states
    and their invariant by rule induction. C10 and C11: mutual exclusion for pids whose texts
    overlap in their locks, and the machine run alone is the call. Further theorems: the race
    when the texts do not overlap, a running node is detected, a stale file is taken over, no
    false alarm.
  \<^item> \<^verbatim>\<open>Sig_Handler\<close>: \<^verbatim>\<open>sig_unix_handler.c\<close>, \<^verbatim>\<open>sig_win32_handler.c\<close>, \<^verbatim>\<open>exh_win32.c\<close>. C12: which signals end the
    node and with what status, and that removal restores the defaults.
  \<^item> \<^verbatim>\<open>Node_Main\<close>, \<^verbatim>\<open>Node_Start\<close>: \<open>main\<close> of \<^verbatim>\<open>cellframe-node.c\<close>, the module stages as tables in the order of
    the code with the exit code of each. C13: every run calls the SDK in the order of one script
    and stops only where the code returns. C14 to C17: no event loop without the modules it
    needs, the exit status of every run, no undefined behaviour while the paths fit their
    buffers of \<open>MAX_PATH\<close> bytes, and a node that can start does start.
  \<^item> \<^verbatim>\<open>Node_Shutdown\<close>: C18, a run that leaves the event loop takes down the modules it initialised and no others; a run
    that ends early takes down none.
  \<^item> This theory: C19 and C20, the node with its pid file and its signal handlers.
  \<^item> \<^verbatim>\<open>Node_Config\<close>: the configuration tool and the node together. C21: each of the switches for the socket server,
    the plugins, the rotation of the log and the VPN service, set on the command line of the tool, decides whether the
    node makes the call behind it, and the directory the node hands to the SDK is that of the file the tool wrote. What is
    asked of the SDK's reader of configuration files in between is the hypothesis \<open>reads_config\<close>.
  \<^item> \<^verbatim>\<open>Node_Cli\<close>: \<open>main\<close> of \<^verbatim>\<open>main_node_cli.c\<close>. A theorem without a claim: which arguments reach the SDK's client.
  \<^item> \<^verbatim>\<open>Node_Manager\<close>: \<^verbatim>\<open>sources/node_manager.c\<close>, which the build does not list, with the blocks of memory its
    callbacks allocate: what every read of a client overwrites, when a packet is safe to print, and that no packet's copy
    is freed.
  \<^item> \<^verbatim>\<open>Std_Regex\<close>: the part of \<open>std::regex\<close> the configuration tool uses: the parser of patterns with its errors, the
    matcher as a list of successes, the iterator over the matches, replacement with its format. \<open>matches_lang\<close> and \<open>search_lang\<close>:
    for expressions without assertions and references to captures a match is a word of the language of the expression.
  \<^item> \<^verbatim>\<open>Conf_Strings\<close>, \<^verbatim>\<open>Conf_Vars\<close>, \<^verbatim>\<open>Conf_File\<close>: the string helpers, the placeholder manager with the
    variables, and \<^verbatim>\<open>CellframeConfigFile.cpp\<close>. The locale \<open>cfg_store\<close> is the contract of a store of
    settings; it is interpreted on the lines of a file as \<open>cfg\<close>. C22: the lines implement a map
    from section and key to value (with what a lookup finds after a set, and the last of a
    sequence of settings winning, as theorems beside it). C23: replacing the variables one after
    the other is replacing all references at once.
  \<^item> \<^verbatim>\<open>Conf_State\<close>: the state of the configuration tool (files, variables, output, calls of the
    system), what the operating system decides as a record \<open>conf_env\<close>, and the locale
    \<open>conf_preorder\<close>. The class \<open>CellframeConfigurationFile\<close> is here as programs, with the messages of \<^verbatim>\<open>-v\<close>; they are the
    functions on lines of \<^verbatim>\<open>Conf_File\<close> with output (\<open>config_exists_says\<close>, \<open>config_set_says\<close>). The locale is interpreted as \<open>fs\<close> (the files stay as they are), \<open>conf\<close> (the files and
    the variables do) and, in \<^verbatim>\<open>Conf_Types\<close>, \<open>vars\<close> (the names of the variables stay distinct).
  \<^item> \<^verbatim>\<open>Conf_Service\<close>, \<^verbatim>\<open>Conf_Host\<close>: \<^verbatim>\<open>conftool/service\<close> for Linux, macOS and Windows, and what \<open>main\<close> asks the
    host at its start: the registry, the host name, the paths, \<open>populate_variables\<close>. The locale
    \<open>service_control\<close> is what a client of \<open>CServiceControl\<close> may rely on, interpreted for each of the
    three systems and for the choice among them. C37: the start variables, with the sizes of the
    buffers they come from. Further theorems: what \<open>service\<close> prints for each answer of the system, and the exit code that is
    lost on Windows.
  \<^item> \<^verbatim>\<open>Conf_Commands\<close>, \<^verbatim>\<open>Conf_Script\<close>: the registry of commands, the commands, the setup scripts and \<open>main\<close>
    of \<^verbatim>\<open>conftool/main.cpp\<close>. C24 to C30: \<open>default\<close> never changes a value that is set, \<open>ensure\<close> sets it
    in the saved file, the defaults never touch an existing file, the network ends in the state
    asked for, a variable whose name is not a regular expression makes every command that
    substitutes throw, a dry run changes nothing, the condition stack implements scripts written in blocks (exceptions
    included).
  \<^item> \<^verbatim>\<open>Conf_Verbose\<close>: C31, a run with \<^verbatim>\<open>-v\<close> is the run without it and more output. Two runs are related by \<open>louder\<close>, with a
    rule for each construct and a lemma for each command.
  \<^item> \<^verbatim>\<open>Conf_Template\<close>: C32, the file that \<^verbatim>\<open>fromtemplate\<close> writes has the values of the template with the variables substituted.
  \<^item> \<^verbatim>\<open>Conf_Types\<close>: C33, the commands a script is read as are well formed and their run never calls an
    action that is not there; C34, printing and reading commands, and that the words behind \<^verbatim>\<open>-e\<close>
    are a script.
  \<^item> \<^verbatim>\<open>Conf_Networks\<close>: C35, \<open>network ensure\<close> followed by the list of networks; C36, when the loop of
    \<open>removeSubstring\<close> ends.
  \<^item> \<^verbatim>\<open>Android_Jni\<close>: \<^verbatim>\<open>sources/android/node_jni.cpp\<close>, every native method as a step on the registered
    listeners and the references of the virtual machine. C38 and C39: the invariant of the
    listeners by rule induction, and to whom a notification is delivered. C40: a client command as one text is the same
    call as its words. A further theorem: the node is started with no arguments and \<open>node_main\<close> reads one.

  \<^bold>\<open>Sizes, bounds and fuel.\<close> The array of signature types has \<open>MAX_ENC_KEYS_IN_MULTYSIGN\<close> elements (a
  field of the SDK record); \<open>stdio_block\<close> is the 4096 bytes a buffered read takes from the pid file;
  paths are cut where \<open>snprintf\<close> cuts them; a registry value is cut at its buffer of 1024 bytes, 512
  wide characters. The C library's \<open>atoi\<close> is an unbounded integer here; C leaves a value outside
  \<open>int\<close> undefined. The pid check makes at most six system calls, hence \<open>run_alone 6\<close>, and C11
  shows that six steps end it with the result of the call. The loop of
  \<open>removeSubstring\<close> is a \<open>partial_function\<close>, since on the empty text it does not end; the theorem
  about it gives the result for every other text. The words of a line are cut by recursion on
  the number of characters left.

  \<^bold>\<open>Not modelled.\<close> The SDKs (parameters, as above). Of the configuration tool the separators of Windows in the paths of configuration files. Of \<open>std::regex\<close> the collating symbols and
  equivalence classes in brackets, locales other than C and the limits on the size of a match. Of the Android binding the local references and the threads of the virtual
  machine. Configuration data, packaging, the Android application (Java) and the test harness.
\<close>

section \<open>The node, its pid file and its signal handlers together\<close>

definition same_files :: "node_state \<Rightarrow> node_state \<Rightarrow> bool" where
  "same_files s t \<longleftrightarrow> pid_files t = pid_files s"

interpretation files: state_preorder same_files
  by unfold_locales (simp_all add: same_files_def)

lemma same_files_basic: "keeps same_files (log_it m)" "keeps same_files (void f xs)" "keeps same_files (ncall d f xs)"
  "keeps same_files delete_sys_dir" "keeps same_files (set_global_sys_dir p)"
  by (simp_all add: keeps_def same_files_def log_it_def void_def ncall_def emit_def delete_sys_dir_def
      set_global_sys_dir_def prog_simps)

text \<open>What \<open>main\<close> does before it looks at the pid file.\<close>

definition before_check :: "build \<Rightarrow> node_sdk \<Rightarrow> argv \<Rightarrow> unit node" where
  "before_check b d av = seq (void ''dap_set_appname'' [NODE_NAME d])
    (seq (if WIN32 b \<and> NDEBUG b then void ''S_SetExceptionFilter'' [] else ret ())
    (seq (choose_sys_dir b d av) (node_dirs b d)))"

lemma seq_assoc: "seq (seq m k) l = seq m (seq k l)"
  by (simp add: seq_def bnd_assoc)

lemma node_main_split:
  "node_main b d av = bnd (arg_opt av 1) (\<lambda>a1.
     if a1 \<noteq> None \<and> dap_strcmp d ''-version'' (the a1) = 0
     then seq (log_it (dap_node_version d)) (exit_with 0)
     else seq (before_check b d av) (seq (pid_check b d)
       (node_up b d (plugins_path_override (getenv_HOME d) (plugins_path_arg b d av)))))"
  by (simp only: node_main_def before_check_def seq_assoc Let_def)

lemma before_check_files: "keeps same_files (before_check b d av)"
  unfolding before_check_def choose_sys_dir_def node_dirs_def Let_def
  by (intro files.keeps_rules same_files_basic)

definition before_script :: "build \<Rightarrow> string list" where
  "before_script b = [''dap_set_appname''] @ (if WIN32 b \<and> NDEBUG b then [''S_SetExceptionFilter''] else []) @ boot_script"

lemma before_check_calls:
  assumes "before_check b d av s = (r, t)"
  shows "\<exists>new. ntrace t = ntrace s @ new \<and> prefix (calls_of new) (before_script b)"
proof -
  have "fixed (if WIN32 b \<and> NDEBUG b then void ''S_SetExceptionFilter'' [] else ret ())
      (if WIN32 b \<and> NDEBUG b then [''S_SetExceptionFilter''] else [])"
    by (simp add: scripted_void fixed_ret)
  then have "fixed (before_check b d av) (before_script b)"
    unfolding before_check_def before_script_def
    by (intro fixed_seq fixed_seq0 [OF fixed_choose] fixed_node_dirs scripted_void)
  with assms show ?thesis unfolding scripted_def by (cases r) fastforce+
qed

lemma pid_check_refused:
  assumes "\<not> DAP_OS_WINDOWS b" and "\<forall>v. config_item_path d ''resources'' ''pid_path'' v = P"
    and "s_proc_running_check (getpid d) (pid_files s P) = (1, pid_files s P)" and "pid_check b d s = (r, t)"
  shows "(\<forall>a. r \<noteq> Ret a) \<and> pid_files t = pid_files s \<and> ntrace t = ntrace s"
  using assms by (cases "sys_dir s") (auto simp: pid_check_def pid_file_path_def Let_def prog_simps)

text \<open>
  C19. One node per pid file, over the whole of \<open>main\<close>: once the check of a process succeeded, any other
  process started on the same pid file ends before it initialises a single module, without
  touching the file; all it did is read its configuration.
\<close>

theorem second_node_refused:
  assumes "s_proc_running_check q fs0 = (0, fs1)" and "readable fs0" and "getpid d \<noteq> q"
    and "\<not> DAP_OS_WINDOWS b" and "\<forall>v. config_item_path d ''resources'' ''pid_path'' v = P" and "pid_files s P = fs1"
    and "node_main b d av s = (r, t)"
  shows "(\<forall>c. r \<noteq> Ret c) \<and> pid_files t = pid_files s
     \<and> (\<exists>new. ntrace t = ntrace s @ new \<and> prefix (calls_of new) (before_script b))"
proof -
  have refused: "s_proc_running_check (getpid d) fs1 = (1, fs1)"
    using running_blocks [OF assms(1,2,3)] .
  have main: "(\<forall>c. r \<noteq> Ret c) \<and> pid_files t = pid_files s
     \<and> (\<exists>new. ntrace t = ntrace s @ new \<and> prefix (calls_of new) (before_script b))"
    if run: "seq (before_check b d av) (seq (pid_check b d) k) s = (r, t)" for k
  proof -
    obtain p u where p: "before_check b d av s = (p, u)" by fastforce
    have same: "pid_files u = pid_files s" using keepsD [OF before_check_files p] by (simp add: same_files_def)
    obtain x v where x: "pid_check b d u = (x, v)" by fastforce
    have "(\<forall>a. x \<noteq> Ret a) \<and> pid_files v = pid_files u \<and> ntrace v = ntrace u"
      using pid_check_refused [OF assms(4,5) _ x] refused assms(6) same by simp
    then show ?thesis
      using run p x same before_check_calls [OF p] by (cases p; cases x) (auto simp: seq_app)
  qed
  show ?thesis
    using assms(7) main unfolding node_main_split
    by (auto simp: bnd_app arg_opt_app log_it_def emit_def seq_app [of "modify _"] modify_app exit_app
        split: if_splits intro!: exI [of _ "[NLog _]"])
qed

lemma released_free:
  assumes inv: "lock_inv s" and pc: "pcs s p = Done 0"
    and small: "\<forall>x. pcs s x = Done 0 \<longrightarrow> 1000 \<le> x \<and> x \<le> 4194304"
  shows "locks (fs (pid_step p (Done 0) s)) = []"
proof -
  have "x = p" if "(x, b, n) \<in> set (locks (fs s))" for x b n
  proof (rule ccontr)
    assume "x \<noteq> p"
    from that have x: "pcs s x = Done 0" using lock_inv_owned [OF inv] by blast
    from lock_inv_apart [OF inv x pc \<open>x \<noteq> p\<close>] pid_text_length [of x] pid_text_length [of p] small x pc
    show False by (auto simp: sizeof_pid_t_def)
  qed
  then show ?thesis by (auto simp: filter_empty_conv)
qed

text \<open>
  C20. A node that is stopped by a signal does not block the next one: SIGTERM (like the other
  handled signals) ends it with status 0 although the handler leaves the pid file as it is;
  the end of the process releases its lock, and the check of a process started afterwards
  succeeds and stores the new pid.
\<close>

theorem restart_after_signal:
  assumes "reachable s" and "pcs s p = Done 0" and "\<forall>x. pcs s x = Done 0 \<longrightarrow> 1000 \<le> x \<and> x \<le> 4194304"
    and "pcs s q = Start" and "writable (fs s)" and "g \<in> handled"
  shows "fst (the (deliver (snd (sig_unix_handler_init path st)) g code)) = Exit 0
     \<and> pcs (run_alone 6 q (pid_step p (Done 0) s)) q = Done 0
     \<and> content (fs (run_alone 6 q (pid_step p (Done 0) s))) = Some (pid_text q)"
proof -
  let ?s = "pid_step p (Done 0) s"
  have "p \<noteq> q" using assms(2,4) by auto
  then have q: "pcs ?s q = Start" using assms(4) by simp
  have "locks (fs ?s) = []"
    using released_free [OF reachable_lock_inv [OF assms(1)] assms(2,3)] .
  then obtain fs1 where "s_proc_running_check q (fs ?s) = (0, fs1)" "content fs1 = Some (pid_text q)"
    using free_file_taken [of "fs ?s" q] assms(5) by auto
  with run_alone_check [OF q] assms(6) show ?thesis
    by (simp add: deliver_def init_disposition sig_exit_handler_def prog_simps)
qed

section \<open>Witnesses\<close>

definition second_sdk :: node_sdk where
  "second_sdk = sample_node\<lparr>getpid := 42, config_item_path := (\<lambda>_ _ _. ''/run/node.pid'')\<rparr>"

definition second_state :: node_state where
  "second_state = sample_boot\<lparr>pid_files := (\<lambda>_. snd (s_proc_running_check 1234 sample_pidfs))\<rparr>"

theorem second_node_refused_witness:
  "\<exists>r t. node_main sample_build second_sdk [''node''] second_state = (r, t) \<and> (\<forall>c. r \<noteq> Ret c)"
proof -
  obtain r t where run: "node_main sample_build second_sdk [''node''] second_state = (r, t)" by fastforce
  have "readable sample_pidfs" "getpid second_sdk \<noteq> 1234"
    "\<forall>v. config_item_path second_sdk ''resources'' ''pid_path'' v = ''/run/node.pid''"
    by (simp_all add: sample_pidfs_def second_sdk_def)
  from second_node_refused [OF sample_check this(1,2) sample_hyps(1) this(3) _ run] run show ?thesis
    by (simp add: second_state_def sample_check)
qed

theorem restart_after_signal_witness:
  "\<exists>s. pcs (run_alone 6 5678 (pid_step 1234 (Done 0) s)) 5678 = Done 0"
proof -
  obtain s where s: "reachable s" "pcs s 1234 = Done 0" "\<forall>x. x \<noteq> 1234 \<longrightarrow> pcs s x = Start" "writable (fs s)"
    using sample_reachable by blast
  have "\<forall>x. pcs s x = Done 0 \<longrightarrow> 1000 \<le> x \<and> x \<le> 4194304"
  proof (intro allI impI)
    fix x assume "pcs s x = Done 0"
    with s(3) have "x = 1234" by (cases "x = 1234") auto
    then show "1000 \<le> x \<and> x \<le> 4194304" by simp
  qed
  from restart_after_signal [OF s(1,2) this, of 5678 SIGTERM] s(3,4) show ?thesis
    by (auto simp: handled_def)
qed

end
